theory Spec2Isabelle
  imports Complex_Main "HOL-Library.Multiset"
begin

section \<open>Conventions\<close>

text \<open>
  The collector is Python. Where it computes with \<open>float\<close> values, in the aggregator, they
  are exact reals: rounding, NaN and infinities are outside the model there, and every
  statement is about the arithmetic the code writes down, carried out exactly. Python
  \<open>int\<close> is \<open>int\<close>, \<open>str\<close> is \<open>string\<close>.
  An exception is a value \<open>Inl e\<close> of a sum type; a normal return is \<open>Inr v\<close>.
\<close>

datatype py_error =
    ZeroDivisionError
  | ValueError
  | TypeError
  | OverflowError
  | AttributeError
  | BinasciiError
  | ZlibError
  | UnicodeDecodeError
  | JSONDecodeError
  | APIError

text \<open>
  The venue client and the scanner read their numbers from the venue's response with
  \<open>float(...)\<close>, which also returns \<open>nan\<close>, \<open>inf\<close> and \<open>-inf\<close> (for the texts \<open>"nan"\<close>, \<open>"inf"\<close>,
  \<open>"1e999"\<close>, ...). They compare these numbers, take \<open>abs\<close> and add them up, and nothing
  else. There a \<open>float\<close> is a \<open>pyfloat\<close>: an exact real or one of the three special values,
  with Python's comparison (every comparison with \<open>nan\<close> is false), \<open>abs\<close> and \<open>+\<close>.
  \<open>sum(...)\<close> adds from the left, starting from 0.
\<close>

datatype pyfloat = Num real | PosInf | NegInf | NaN

fun pf_less :: "pyfloat \<Rightarrow> pyfloat \<Rightarrow> bool" where
  "pf_less (Num x) (Num y) \<longleftrightarrow> x < y"
| "pf_less (Num x) PosInf \<longleftrightarrow> True"
| "pf_less NegInf (Num y) \<longleftrightarrow> True"
| "pf_less NegInf PosInf \<longleftrightarrow> True"
| "pf_less x y \<longleftrightarrow> False"

fun pf_abs :: "pyfloat \<Rightarrow> pyfloat" where
  "pf_abs (Num x) = Num \<bar>x\<bar>"
| "pf_abs PosInf = PosInf"
| "pf_abs NegInf = PosInf"
| "pf_abs NaN = NaN"

fun pf_add :: "pyfloat \<Rightarrow> pyfloat \<Rightarrow> pyfloat" where
  "pf_add (Num x) (Num y) = Num (x + y)"
| "pf_add NaN y = NaN"
| "pf_add x NaN = NaN"
| "pf_add PosInf NegInf = NaN"
| "pf_add NegInf PosInf = NaN"
| "pf_add PosInf y = PosInf"
| "pf_add x PosInf = PosInf"
| "pf_add NegInf y = NegInf"
| "pf_add x NegInf = NegInf"

definition py_sum :: "pyfloat list \<Rightarrow> pyfloat" where
  "py_sum xs = foldl pf_add (Num 0) xs"

text \<open>
  A decoded JSON value: what \<open>response.json()\<close> and \<open>json.loads\<close> return. An object is its list
  of members in order; \<open>dict\<close> lookup takes the binding of a key. A number is a real: Python's
  \<open>int\<close> and \<open>float\<close> are not told apart, as \<open>==\<close> does not tell \<open>1\<close> from \<open>1.0\<close>. \<open>json.loads\<close> also
  accepts the literals \<open>NaN\<close>, \<open>Infinity\<close> and \<open>-Infinity\<close> and decodes them as the floats \<open>nan\<close>,
  \<open>inf\<close> and \<open>-inf\<close>; they are the last three constructors. (Python's \<open>nan == nan\<close> is false; the
  equality of this type is used on decoded values only to compare with a string and to
  find a \<open>dict\<close> key.)
\<close>

datatype json =
    JNull
  | JBool bool
  | JNum real
  | JStr string
  | JArr "json list"
  | JObj "(string \<times> json) list"
  | JNaN
  | JInfinity
  | JNegInfinity

text \<open>\<open>int(x)\<close> on a float truncates toward zero.\<close>

definition py_int :: "real \<Rightarrow> int" where
  "py_int x = (if 0 \<le> x then \<lfloor>x\<rfloor> else - \<lfloor>- x\<rfloor>)"

section \<open>Configuration (src/src/config.py)\<close>

definition PRICE_BUCKET_PERCENT :: real where
  "PRICE_BUCKET_PERCENT = 1 / 10"

definition MIN_CLUSTER_SIZE_USD :: real where
  "MIN_CLUSTER_SIZE_USD = 100000"

definition CLUSTER_MERGE_PERCENT :: real where
  "CLUSTER_MERGE_PERCENT = 1 / 2"

definition MIN_POSITION_VALUE_USD :: real where
  "MIN_POSITION_VALUE_USD = 1000"

definition MAX_WALLETS_TO_TRACK :: nat where
  "MAX_WALLETS_TO_TRACK = 5000"

definition API_REQUESTS_PER_SECOND :: nat where
  "API_REQUESTS_PER_SECOND = 10"

section \<open>Liquidation aggregator (src/src/liquidation_aggregator.py)\<close>

text \<open>
  \<open>coin\<close> is copied from the venue's response without a check, so it is whatever JSON value
  the venue sent (a string in practice). The record of a level takes the type of its three
  \<open>float\<close> fields as a parameter: the scanner fills them with what \<open>float(...)\<close> returned
  (\<open>pyfloat\<close>), the aggregator computes with them as exact reals (\<open>real\<close>), so the statements
  about the aggregator are about levels whose numbers are finite.
\<close>

record 'n LiquidationLevel =
  l_price :: 'n
  l_size_usd :: 'n
  l_side :: string
  l_wallet :: string
  l_coin :: json
  l_leverage :: 'n

record LiquidationCluster =
  c_coin :: json
  c_side :: string
  price_low :: real
  price_high :: real
  price_center :: real
  total_size_usd :: real
  position_count :: int
  avg_leverage :: real

record LiquidationMap =
  m_coin :: string
  current_price :: real
  long_liquidations :: "LiquidationCluster list"
  short_liquidations :: "LiquidationCluster list"
  total_long_at_risk_usd :: real
  total_short_at_risk_usd :: real
  nearest_long_cluster :: "LiquidationCluster option"
  nearest_short_cluster :: "LiquidationCluster option"

text \<open>
  The aggregator object holds \<open>bucket_percent\<close> and \<open>min_cluster_size\<close>. \<open>__init__\<close> uses
  \<open>arg or default\<close>: an argument that is \<open>None\<close> or \<open>0\<close> is replaced by the configured value.
\<close>

record LiquidationAggregator =
  bucket_percent :: real
  min_cluster_size :: real

definition or_default :: "real option \<Rightarrow> real \<Rightarrow> real" where
  "or_default v d = (case v of None \<Rightarrow> d | Some x \<Rightarrow> if x = 0 then d else x)"

definition aggregator_init :: "real option \<Rightarrow> real option \<Rightarrow> LiquidationAggregator" where
  "aggregator_init bp mcs =
     \<lparr> bucket_percent = or_default bp PRICE_BUCKET_PERCENT,
       min_cluster_size = or_default mcs MIN_CLUSTER_SIZE_USD \<rparr>"

definition default_aggregator :: LiquidationAggregator where
  "default_aggregator = aggregator_init None None"

subsection \<open>Bucketing\<close>

definition price_to_bucket :: "LiquidationAggregator \<Rightarrow> real \<Rightarrow> real \<Rightarrow> py_error + int" where
  "price_to_bucket a price reference_price =
     (if reference_price \<le> 0 then Inr 0
      else
        let pct_diff = ((price - reference_price) / reference_price) * 100
        in if bucket_percent a = 0 then Inl ZeroDivisionError
           else Inr (py_int (pct_diff / bucket_percent a)))"

definition bucket_to_price_range :: "LiquidationAggregator \<Rightarrow> int \<Rightarrow> real \<Rightarrow> real \<times> real" where
  "bucket_to_price_range a bucket reference_price =
     (let pct_low = real_of_int bucket * bucket_percent a;
          pct_high = real_of_int (bucket + 1) * bucket_percent a;
          price_low = reference_price * (1 + pct_low / 100);
          price_high = reference_price * (1 + pct_high / 100)
      in (price_low, price_high))"

subsection \<open>Merging adjacent small clusters\<close>

definition gap_percent :: "LiquidationCluster \<Rightarrow> LiquidationCluster \<Rightarrow> real" where
  "gap_percent cur nxt = ((price_low nxt - price_high cur) / price_center cur) * 100"

definition should_merge ::
  "LiquidationAggregator \<Rightarrow> LiquidationCluster \<Rightarrow> LiquidationCluster \<Rightarrow> bool" where
  "should_merge a cur nxt \<longleftrightarrow>
     gap_percent cur nxt < CLUSTER_MERGE_PERCENT \<and>
     total_size_usd cur < min_cluster_size a \<and>
     total_size_usd nxt < min_cluster_size a"

definition merged_cluster :: "LiquidationCluster \<Rightarrow> LiquidationCluster \<Rightarrow> LiquidationCluster" where
  "merged_cluster cur nxt =
     (let total_size = total_size_usd cur + total_size_usd nxt
      in \<lparr> c_coin = c_coin cur,
           c_side = c_side cur,
           price_low = price_low cur,
           price_high = price_high nxt,
           price_center = (price_low cur + price_high nxt) / 2,
           total_size_usd = total_size,
           position_count = position_count cur + position_count nxt,
           avg_leverage =
             (avg_leverage cur * total_size_usd cur + avg_leverage nxt * total_size_usd nxt)
               / total_size \<rparr>)"

text \<open>
  The \<open>for next_cluster in clusters[1:]\<close> loop, with \<open>current\<close> and \<open>merged\<close> as loop state.
  The two divisions raise \<open>ZeroDivisionError\<close> on a zero divisor: the gap is computed first,
  on every iteration; the weighted leverage only when the pair is merged.
\<close>

fun merge_loop ::
  "LiquidationAggregator \<Rightarrow> LiquidationCluster \<Rightarrow> LiquidationCluster list \<Rightarrow>
   LiquidationCluster list \<Rightarrow> py_error + LiquidationCluster list" where
  "merge_loop a current [] merged = Inr (merged @ [current])"
| "merge_loop a current (next_cluster # rest) merged =
     (if price_center current = 0 then Inl ZeroDivisionError
      else if should_merge a current next_cluster then
        (if total_size_usd current + total_size_usd next_cluster = 0 then Inl ZeroDivisionError
         else merge_loop a (merged_cluster current next_cluster) rest merged)
      else merge_loop a next_cluster rest (merged @ [current]))"

text \<open>\<open>list.sort(key=...)\<close> is a stable sort; so is \<open>sort_key\<close>.\<close>

definition merge_adjacent_clusters ::
  "LiquidationAggregator \<Rightarrow> LiquidationCluster list \<Rightarrow> py_error + LiquidationCluster list" where
  "merge_adjacent_clusters a clusters =
     (if length clusters < 2 then Inr clusters
      else case sort_key price_center clusters of
             [] \<Rightarrow> Inr []
           | current # rest \<Rightarrow> merge_loop a current rest [])"

definition sum_total :: "LiquidationCluster list \<Rightarrow> real" where
  "sum_total cs = sum_list (map total_size_usd cs)"

definition sum_count :: "LiquidationCluster list \<Rightarrow> int" where
  "sum_count cs = sum_list (map position_count cs)"

text \<open>Clusters whose prices and size are positive: what bucketing positive prices gives.\<close>

definition positive_cluster :: "LiquidationCluster \<Rightarrow> bool" where
  "positive_cluster c \<longleftrightarrow>
     0 < price_low c \<and> 0 < price_high c \<and> 0 < price_center c \<and> 0 < total_size_usd c"

text \<open>
  No two neighbours of a list would still be merged by the loop: both below the
  significance threshold and closer than \<open>CLUSTER_MERGE_PERCENT\<close>.
\<close>
fun no_mergeable_adjacent :: "LiquidationAggregator \<Rightarrow> LiquidationCluster list \<Rightarrow> bool" where
  "no_mergeable_adjacent a (c # c' # cs) \<longleftrightarrow>
     \<not> should_merge a c c' \<and> no_mergeable_adjacent a (c' # cs)"
| "no_mergeable_adjacent a cs \<longleftrightarrow> True"

text \<open>
  What the loop makes of a run of consecutive clusters that it merges into one: starting
  from the first, each further cluster is merged into \<open>current\<close> by the constructor call of
  the \<open>if should_merge\<close> branch. \<open>run_merges\<close> says that the loop does take that branch at every
  step of the run: the test holds between \<open>current\<close>, as merged so far, and the next cluster.
\<close>

definition merge_run :: "LiquidationCluster list \<Rightarrow> LiquidationCluster" where
  "merge_run g = foldl merged_cluster (hd g) (tl g)"

fun run_merges ::
  "LiquidationAggregator \<Rightarrow> LiquidationCluster \<Rightarrow> LiquidationCluster list \<Rightarrow> bool" where
  "run_merges a current [] \<longleftrightarrow> True"
| "run_merges a current (next_cluster # rest) \<longleftrightarrow>
     should_merge a current next_cluster \<and>
     run_merges a (merged_cluster current next_cluster) rest"

subsection \<open>Worked inputs\<close>

text \<open>
  The spec's boundary scenarios at a current price of 100: two clusters in buckets
  \<open>[99.0, 99.1]\<close> and \<open>[99.3, 99.4]\<close>, a gap of about 0.2 percent of the centre.
\<close>

definition example_cluster :: "string \<Rightarrow> real \<Rightarrow> real \<Rightarrow> real \<Rightarrow> LiquidationCluster" where
  "example_cluster s lo hi usd =
     \<lparr> c_coin = JStr ''BTC'', c_side = s, price_low = lo, price_high = hi,
       price_center = (lo + hi) / 2, total_size_usd = usd, position_count = 1,
       avg_leverage = 10 \<rparr>"

definition small_pair :: "LiquidationCluster list" where
  "small_pair = [example_cluster ''long'' (993 / 10) (994 / 10) 30000,
                 example_cluster ''long'' 99 (991 / 10) 30000]"

definition blocked_pair :: "LiquidationCluster list" where
  "blocked_pair = [example_cluster ''long'' 99 (991 / 10) 500000,
                   example_cluster ''long'' (993 / 10) (994 / 10) 50000]"

definition merging_pair :: "LiquidationCluster list" where
  "merging_pair = [example_cluster ''long'' 99 (991 / 10) 30000,
                   example_cluster ''long'' (993 / 10) (994 / 10) 30000]"

text \<open>
  Six clusters, not in price order. By price: one at 90 far from the rest; a significant
  one at 95 with a small neighbour 0.1 percent above it; and three small ones at 99, 99.3
  and 99.6, each about 0.2 percent from the one before.
\<close>

definition six_clusters :: "LiquidationCluster list" where
  "six_clusters =
     [example_cluster ''long'' (996 / 10) (997 / 10) 30000,
      example_cluster ''long'' 99 (991 / 10) 30000,
      example_cluster ''long'' (993 / 10) (994 / 10) 30000,
      example_cluster ''long'' 90 (901 / 10) 30000,
      example_cluster ''long'' 95 (951 / 10) 500000,
      example_cluster ''long'' (952 / 10) (953 / 10) 30000]"

subsection \<open>From levels to clusters\<close>

text \<open>
  \<open>buckets\<close> is a \<open>defaultdict(list)\<close>: keys in order of first insertion, each with the
  levels appended so far. An association list keeps that order.
\<close>

type_synonym buckets = "(int \<times> real LiquidationLevel list) list"

fun bucket_append :: "int \<Rightarrow> real LiquidationLevel \<Rightarrow> buckets \<Rightarrow> buckets" where
  "bucket_append b l [] = [(b, [l])]"
| "bucket_append b l ((k, ls) # bs) =
     (if k = b then (k, ls @ [l]) # bs else (k, ls) # bucket_append b l bs)"

fun group_by_bucket ::
  "LiquidationAggregator \<Rightarrow> real \<Rightarrow> real LiquidationLevel list \<Rightarrow> buckets \<Rightarrow> py_error + buckets" where
  "group_by_bucket a reference_price [] bs = Inr bs"
| "group_by_bucket a reference_price (level # levels) bs =
     (case price_to_bucket a (l_price level) reference_price of
        Inl e \<Rightarrow> Inl e
      | Inr bucket \<Rightarrow> group_by_bucket a reference_price levels (bucket_append bucket level bs))"

definition bucket_total :: "real LiquidationLevel list \<Rightarrow> real" where
  "bucket_total bucket_levels = sum_list (map l_size_usd bucket_levels)"

text \<open>
  One cluster per bucket that holds at least 10,000 USD. Such a bucket is not empty and its
  total is not zero, so \<open>bucket_levels[0]\<close> and the division by \<open>total_size\<close> cannot raise.
\<close>

definition bucket_cluster ::
  "LiquidationAggregator \<Rightarrow> real \<Rightarrow> string \<Rightarrow> int \<times> real LiquidationLevel list \<Rightarrow> LiquidationCluster" where
  "bucket_cluster a reference_price side kv =
     (let bucket = fst kv;
          bucket_levels = snd kv;
          total_size = bucket_total bucket_levels;
          lo = fst (bucket_to_price_range a bucket reference_price);
          hi = snd (bucket_to_price_range a bucket reference_price)
      in \<lparr> c_coin = l_coin (hd bucket_levels),
           c_side = side,
           price_low = lo,
           price_high = hi,
           price_center = (lo + hi) / 2,
           total_size_usd = total_size,
           position_count = int (length bucket_levels),
           avg_leverage =
             sum_list (map (\<lambda>l. l_leverage l * l_size_usd l) bucket_levels) / total_size \<rparr>)"

definition buckets_to_clusters ::
  "LiquidationAggregator \<Rightarrow> real \<Rightarrow> string \<Rightarrow> buckets \<Rightarrow> LiquidationCluster list" where
  "buckets_to_clusters a reference_price side bs =
     map (bucket_cluster a reference_price side)
       (filter (\<lambda>kv. \<not> bucket_total (snd kv) < 10000) bs)"

definition aggregate_to_clusters ::
  "LiquidationAggregator \<Rightarrow> real LiquidationLevel list \<Rightarrow> real \<Rightarrow> string \<Rightarrow>
   py_error + LiquidationCluster list" where
  "aggregate_to_clusters a levels reference_price side =
     (if levels = [] then Inr []
      else case group_by_bucket a reference_price levels [] of
             Inl e \<Rightarrow> Inl e
           | Inr bs \<Rightarrow> merge_adjacent_clusters a (buckets_to_clusters a reference_price side bs))"

subsection \<open>The liquidation map of one coin\<close>

definition empty_map :: "string \<Rightarrow> real \<Rightarrow> LiquidationMap" where
  "empty_map coin price =
     \<lparr> m_coin = coin, current_price = price,
       long_liquidations = [], short_liquidations = [],
       total_long_at_risk_usd = 0, total_short_at_risk_usd = 0,
       nearest_long_cluster = None, nearest_short_cluster = None \<rparr>"

text \<open>
  The two \<open>for cluster in ...: if ...: nearest = cluster; break\<close> loops are \<open>find\<close>: the first
  cluster of the sorted list at or above the threshold.
\<close>

definition aggregate_levels ::
  "LiquidationAggregator \<Rightarrow> real LiquidationLevel list \<Rightarrow> real \<Rightarrow> string \<Rightarrow>
   py_error + LiquidationMap" where
  "aggregate_levels a levels price coin =
     (if levels = [] \<or> price \<le> 0 then Inr (empty_map coin price)
      else
        let long_levels = filter (\<lambda>l. l_side l = ''long'') levels;
            short_levels = filter (\<lambda>l. l_side l = ''short'') levels
        in case aggregate_to_clusters a long_levels price ''long'' of
             Inl e \<Rightarrow> Inl e
           | Inr lcs \<Rightarrow>
               (case aggregate_to_clusters a short_levels price ''short'' of
                  Inl e \<Rightarrow> Inl e
                | Inr scs \<Rightarrow>
                    let long_clusters = sort_key (\<lambda>c. price - price_center c) lcs;
                        short_clusters = sort_key (\<lambda>c. price_center c - price) scs
                    in Inr \<lparr> m_coin = coin, current_price = price,
                             long_liquidations = long_clusters,
                             short_liquidations = short_clusters,
                             total_long_at_risk_usd = sum_total long_clusters,
                             total_short_at_risk_usd = sum_total short_clusters,
                             nearest_long_cluster =
                               find (\<lambda>c. min_cluster_size a \<le> total_size_usd c) long_clusters,
                             nearest_short_cluster =
                               find (\<lambda>c. min_cluster_size a \<le> total_size_usd c) short_clusters \<rparr>))"

text \<open>A level with the fields the scanner fills in.\<close>

definition example_level :: "string \<Rightarrow> real \<Rightarrow> real \<Rightarrow> real LiquidationLevel" where
  "example_level s p usd =
     \<lparr> l_price = p, l_size_usd = usd, l_side = s, l_wallet = ''0xabc'', l_coin = JStr ''BTC'',
       l_leverage = 10 \<rparr>"

definition example_levels :: "real LiquidationLevel list" where
  "example_levels =
     [example_level ''short'' 101 200000, example_level ''short'' 110 20000,
      example_level ''short'' 103 20000, example_level ''long'' 98 200000,
      example_level ''long'' 90 300000, example_level ''long'' (9801 / 100) 3000]"

definition example_map :: LiquidationMap where
  "example_map =
     \<lparr> m_coin = ''BTC'', current_price = 100,
       long_liquidations =
         [example_cluster ''long'' 98 (981 / 10) 200000,
          example_cluster ''long'' 90 (901 / 10) 300000],
       short_liquidations =
         [example_cluster ''short'' 101 (1011 / 10) 200000,
          example_cluster ''short'' 103 (1031 / 10) 20000,
          example_cluster ''short'' 110 (1101 / 10) 20000],
       total_long_at_risk_usd = 500000, total_short_at_risk_usd = 240000,
       nearest_long_cluster = Some (example_cluster ''long'' 98 (981 / 10) 200000),
       nearest_short_cluster = Some (example_cluster ''short'' 101 (1011 / 10) 200000) \<rparr>"

subsection \<open>Which levels a map accounts for\<close>

definition levels_of_side :: "string \<Rightarrow> real LiquidationLevel list \<Rightarrow> real LiquidationLevel list" where
  "levels_of_side s levels = filter (\<lambda>l. l_side l = s) levels"

text \<open>
  A level passes the dust floor when the levels of its side that share its bucket hold at
  least 10,000 USD together: the buckets \<open>_aggregate_to_clusters\<close> does not skip.
\<close>

definition passes_dust_floor ::
  "LiquidationAggregator \<Rightarrow> real \<Rightarrow> real LiquidationLevel list \<Rightarrow> real LiquidationLevel \<Rightarrow> bool" where
  "passes_dust_floor a reference_price ls l \<longleftrightarrow>
     \<not> bucket_total
          (filter (\<lambda>l'. price_to_bucket a (l_price l') reference_price
                          = price_to_bucket a (l_price l) reference_price) ls) < 10000"

definition retained_levels ::
  "LiquidationAggregator \<Rightarrow> real \<Rightarrow> string \<Rightarrow> real LiquidationLevel list \<Rightarrow> real LiquidationLevel list" where
  "retained_levels a reference_price s levels =
     filter (passes_dust_floor a reference_price (levels_of_side s levels))
       (levels_of_side s levels)"

text \<open>A single long level of 5,000 USD: below the dust floor on its own.\<close>

definition dust_levels :: "real LiquidationLevel list" where
  "dust_levels = [example_level ''long'' 99 5000]"

section \<open>Venue client (src/src/hyperliquid_api.py)\<close>

subsection \<open>Python operations on decoded JSON\<close>

text \<open>Truthiness, as \<open>if x\<close> and \<open>not x\<close> test it.\<close>

fun truthy :: "json \<Rightarrow> bool" where
  "truthy JNull = False"
| "truthy (JBool b) = b"
| "truthy (JNum r) = (r \<noteq> 0)"
| "truthy (JStr s) = (s \<noteq> [])"
| "truthy (JArr xs) = (xs \<noteq> [])"
| "truthy (JObj kvs) = (kvs \<noteq> [])"
| "truthy JNaN = True"
| "truthy JInfinity = True"
| "truthy JNegInfinity = True"

text \<open>\<open>d.get(k, default)\<close>: only a dict has \<open>get\<close>.\<close>

definition dict_get :: "json \<Rightarrow> string \<Rightarrow> json \<Rightarrow> py_error + json" where
  "dict_get d k dflt =
     (case d of
        JObj kvs \<Rightarrow> Inr (case map_of kvs k of None \<Rightarrow> dflt | Some v \<Rightarrow> v)
      | _ \<Rightarrow> Inl AttributeError)"

text \<open>What \<open>for x in v\<close> iterates over: list items, dict keys, the characters of a string.\<close>

definition py_iter :: "json \<Rightarrow> py_error + json list" where
  "py_iter v =
     (case v of
        JArr xs \<Rightarrow> Inr xs
      | JObj kvs \<Rightarrow> Inr (map (\<lambda>kv. JStr (fst kv)) kvs)
      | JStr s \<Rightarrow> Inr (map (\<lambda>c. JStr [c]) s)
      | _ \<Rightarrow> Inl TypeError)"

text \<open>
  \<open>float(v)\<close>. How Python reads a string as a float is the parameter \<open>str_float\<close>
  (\<open>None\<close>: \<open>ValueError\<close>); its result can be \<open>nan\<close> or infinite, and the statements below hold
  for every such function. A decoded number is returned as it is, unless it is an \<open>int\<close> too
  large for a \<open>float\<close>: \<open>float\<close> raises \<open>OverflowError\<close> on an \<open>int\<close> that rounds to no finite double,
  which is from \<open>2 ** 1024 - 2 ** 970\<close> on (no decoded \<open>float\<close> is that large).
\<close>

definition FLOAT_OVERFLOW :: real where
  "FLOAT_OVERFLOW = 2 ^ 1024 - 2 ^ 970"

definition py_float :: "(string \<Rightarrow> pyfloat option) \<Rightarrow> json \<Rightarrow> py_error + pyfloat" where
  "py_float str_float v =
     (case v of
        JNum r \<Rightarrow> if \<bar>r\<bar> < FLOAT_OVERFLOW then Inr (Num r) else Inl OverflowError
      | JNaN \<Rightarrow> Inr NaN
      | JInfinity \<Rightarrow> Inr PosInf
      | JNegInfinity \<Rightarrow> Inr NegInf
      | JStr s \<Rightarrow> (case str_float s of None \<Rightarrow> Inl ValueError | Some r \<Rightarrow> Inr r)
      | JBool b \<Rightarrow> Inr (Num (if b then 1 else 0))
      | _ \<Rightarrow> Inl TypeError)"

text \<open>
  The texts \<open>nan\<close>, \<open>inf\<close> and \<open>-inf\<close>, and plain decimal literals, read as \<open>float\<close> reads them:
  an optional sign, digits, at most one point, at least one digit. Python accepts more
  (exponents, other spellings of \<open>nan\<close> and \<open>inf\<close>, surrounding blanks, underscores); this
  function is used for worked inputs only.
\<close>

definition digit_of :: "char \<Rightarrow> nat option" where
  "digit_of c =
     (let n = (of_char c :: nat) in if 48 \<le> n \<and> n \<le> 57 then Some (n - 48) else None)"

fun digits_value :: "nat \<Rightarrow> string \<Rightarrow> nat option" where
  "digits_value acc [] = Some acc"
| "digits_value acc (c # cs) =
     (case digit_of c of None \<Rightarrow> None | Some d \<Rightarrow> digits_value (10 * acc + d) cs)"

definition unsigned_decimal :: "string \<Rightarrow> real option" where
  "unsigned_decimal s =
     (let ip = takeWhile (\<lambda>c. c \<noteq> CHR ''.'') s;
          rest = dropWhile (\<lambda>c. c \<noteq> CHR ''.'') s;
          fp = (if rest = [] then [] else tl rest)
      in if ip = [] \<and> fp = [] then None
         else case digits_value 0 ip of
                None \<Rightarrow> None
              | Some i \<Rightarrow>
                  (case digits_value 0 fp of
                     None \<Rightarrow> None
                   | Some f \<Rightarrow> Some (real i + real f / 10 ^ length fp)))"

definition decimal_float :: "string \<Rightarrow> pyfloat option" where
  "decimal_float s =
     (if s = ''nan'' then Some NaN
      else if s = ''inf'' then Some PosInf
      else if s = ''-inf'' then Some NegInf
      else case s of
        [] \<Rightarrow> None
      | c # cs \<Rightarrow>
          if c = CHR ''-'' then map_option (\<lambda>x. Num (- x)) (unsigned_decimal cs)
          else if c = CHR ''+'' then map_option Num (unsigned_decimal cs)
          else map_option Num (unsigned_decimal s))"

subsection \<open>Positions of a wallet\<close>

record Position =
  p_wallet :: string
  p_coin :: json
  p_size :: pyfloat
  entry_price :: pyfloat
  liquidation_price :: "pyfloat option"
  p_leverage :: pyfloat
  notional_value :: pyfloat
  unrealized_pnl :: pyfloat
  margin_used :: pyfloat

definition is_long :: "Position \<Rightarrow> bool" where
  "is_long p \<longleftrightarrow> pf_less (Num 0) (p_size p)"

definition side :: "Position \<Rightarrow> string" where
  "side p = (if is_long p then ''long'' else ''short'')"

definition bind_err :: "py_error + 'a \<Rightarrow> ('a \<Rightarrow> py_error + 'b) \<Rightarrow> py_error + 'b" where
  "bind_err r f = (case r of Inl e \<Rightarrow> Inl e | Inr v \<Rightarrow> f v)"

text \<open>
  The liquidation price of a position object: \<open>liq_px = pos.get("liquidationPx")\<close>, kept as
  a float only \<open>if liq_px and liq_px != "null"\<close>, else \<open>None\<close>.
\<close>

definition parse_liquidation_px ::
  "(string \<Rightarrow> pyfloat option) \<Rightarrow> json \<Rightarrow> py_error + pyfloat option" where
  "parse_liquidation_px str_float pos =
     bind_err (dict_get pos ''liquidationPx'' JNull) (\<lambda>liq_px.
       if truthy liq_px \<and> liq_px \<noteq> JStr ''null''
       then bind_err (py_float str_float liq_px) (\<lambda>x. Inr (Some x))
       else Inr None)"

text \<open>
  The body of the loop over \<open>assetPositions\<close> for one non-empty \<open>position\<close> object:
  \<open>None\<close> for a dust position (\<open>continue\<close>), else the parsed position.
\<close>

definition parse_position ::
  "(string \<Rightarrow> pyfloat option) \<Rightarrow> string \<Rightarrow> json \<Rightarrow> py_error + Position option" where
  "parse_position str_float wallet pos =
     bind_err (dict_get pos ''szi'' (JNum 0)) (\<lambda>szi.
     bind_err (py_float str_float szi) (\<lambda>size.
       if pf_less (pf_abs size) (Num (1 / 10000)) then Inr None
       else
     bind_err (dict_get pos ''leverage'' (JObj [])) (\<lambda>leverage_info.
     bind_err (dict_get leverage_info ''value'' (JNum 1)) (\<lambda>lv.
     bind_err (py_float str_float lv) (\<lambda>leverage.
     bind_err (parse_liquidation_px str_float pos) (\<lambda>liq_px.
     bind_err (dict_get pos ''coin'' (JStr [])) (\<lambda>coin.
     bind_err (dict_get pos ''entryPx'' (JNum 0)) (\<lambda>epx.
     bind_err (py_float str_float epx) (\<lambda>entry.
     bind_err (dict_get pos ''positionValue'' (JNum 0)) (\<lambda>pv.
     bind_err (py_float str_float pv) (\<lambda>value.
     bind_err (dict_get pos ''unrealizedPnl'' (JNum 0)) (\<lambda>upnl.
     bind_err (py_float str_float upnl) (\<lambda>pnl.
     bind_err (dict_get pos ''marginUsed'' (JNum 0)) (\<lambda>mu.
     bind_err (py_float str_float mu) (\<lambda>margin.
       Inr (Some \<lparr> p_wallet = wallet, p_coin = coin, p_size = size, entry_price = entry,
                    liquidation_price = liq_px, p_leverage = leverage,
                    notional_value = pf_abs value, unrealized_pnl = pnl,
                    margin_used = margin \<rparr>))))))))))))))))"

fun parse_asset_positions ::
  "(string \<Rightarrow> pyfloat option) \<Rightarrow> string \<Rightarrow> json list \<Rightarrow> Position list \<Rightarrow>
   py_error + Position list" where
  "parse_asset_positions str_float wallet [] positions = Inr positions"
| "parse_asset_positions str_float wallet (asset_pos # rest) positions =
     bind_err (dict_get asset_pos ''position'' (JObj [])) (\<lambda>pos.
       if \<not> truthy pos then parse_asset_positions str_float wallet rest positions
       else
         bind_err (parse_position str_float wallet pos) (\<lambda>r.
           case r of
             None \<Rightarrow> parse_asset_positions str_float wallet rest positions
           | Some p \<Rightarrow> parse_asset_positions str_float wallet rest (positions @ [p])))"

text \<open>
  \<open>get_user_positions\<close>. \<open>response\<close> is what the \<open>clearinghouseState\<close> request gave: the decoded
  state, or the exception \<open>_request\<close> raised. The whole body is inside
  \<open>try ... except Exception: return []\<close>, so any exception gives the empty list.
\<close>

definition get_user_positions ::
  "(string \<Rightarrow> pyfloat option) \<Rightarrow> string \<Rightarrow> py_error + json \<Rightarrow> Position list" where
  "get_user_positions str_float wallet response =
     (case bind_err response (\<lambda>state.
             bind_err (dict_get state ''assetPositions'' (JArr [])) (\<lambda>aps.
             bind_err (py_iter aps) (\<lambda>items.
               parse_asset_positions str_float wallet items []))) of
        Inl e \<Rightarrow> []
      | Inr positions \<Rightarrow> positions)"

section \<open>Position scanner (src/src/position_scanner.py)\<close>

record ScanResult =
  total_wallets_scanned :: nat
  total_positions_found :: nat
  total_long_exposure_usd :: pyfloat
  total_short_exposure_usd :: pyfloat
  liquidation_levels :: "pyfloat LiquidationLevel list"
  positions_by_coin :: "(json \<times> Position list) list"
  errors :: nat

text \<open>
  \<open>scan_wallet\<close> wraps \<open>get_user_positions\<close> in a second \<open>try ... except Exception: return []\<close>.
  Its result is what \<open>asyncio.gather(..., return_exceptions=True)\<close> puts in \<open>results\<close>: a list
  of positions, or an exception instance. \<open>api\<close> gives the outcome of each wallet's request.
\<close>

definition scan_wallet ::
  "(string \<Rightarrow> pyfloat option) \<Rightarrow> (string \<Rightarrow> py_error + json) \<Rightarrow> string \<Rightarrow>
   py_error + Position list" where
  "scan_wallet str_float api wallet = Inr (get_user_positions str_float wallet (api wallet))"

record scan_state =
  all_positions :: "Position list"
  by_coin :: "(json \<times> Position list) list"
  levels_found :: "pyfloat LiquidationLevel list"
  error_count :: nat

definition level_of_position :: "Position \<Rightarrow> pyfloat \<Rightarrow> pyfloat LiquidationLevel" where
  "level_of_position position liq =
     \<lparr> l_price = liq, l_size_usd = notional_value position, l_side = side position,
       l_wallet = p_wallet position, l_coin = p_coin position,
       l_leverage = p_leverage position \<rparr>"

text \<open>
  \<open>positions_by_coin\<close> is a \<open>defaultdict(list)\<close> keyed by \<open>position.coin\<close>. A dict key must be
  hashable: a list or a dict as key raises \<open>TypeError\<close>. Keys are compared as JSON values
  (Python would also take \<open>True\<close> and \<open>1\<close> for the same key, and two \<open>nan\<close> for different keys).
\<close>

fun hashable :: "json \<Rightarrow> bool" where
  "hashable (JArr xs) = False"
| "hashable (JObj kvs) = False"
| "hashable v = True"

fun by_coin_append ::
  "json \<Rightarrow> Position \<Rightarrow> (json \<times> Position list) list \<Rightarrow> (json \<times> Position list) list" where
  "by_coin_append k p [] = [(k, [p])]"
| "by_coin_append k p ((k', ps) # rest) =
     (if k' = k then (k', ps @ [p]) # rest else (k', ps) # by_coin_append k p rest)"

definition process_position :: "scan_state \<Rightarrow> Position \<Rightarrow> py_error + scan_state" where
  "process_position st position =
     (if pf_less (notional_value position) (Num MIN_POSITION_VALUE_USD) then Inr st
      else if \<not> hashable (p_coin position) then Inl TypeError
      else Inr (st \<lparr> all_positions := all_positions st @ [position],
                      by_coin := by_coin_append (p_coin position) position (by_coin st),
                      levels_found :=
                        (case liquidation_price position of
                           None \<Rightarrow> levels_found st
                         | Some liq \<Rightarrow> levels_found st @ [level_of_position position liq]) \<rparr>))"

fun process_positions :: "scan_state \<Rightarrow> Position list \<Rightarrow> py_error + scan_state" where
  "process_positions st [] = Inr st"
| "process_positions st (position # rest) =
     bind_err (process_position st position) (\<lambda>st'. process_positions st' rest)"

fun process_results ::
  "scan_state \<Rightarrow> (py_error + Position list) list \<Rightarrow> py_error + scan_state" where
  "process_results st [] = Inr st"
| "process_results st (result # rest) =
     (case result of
        Inl e \<Rightarrow> process_results (st \<lparr> error_count := error_count st + 1 \<rparr>) rest
      | Inr positions \<Rightarrow>
          bind_err (process_positions st positions) (\<lambda>st'. process_results st' rest))"

text \<open>\<open>wallet_list[i:i + batch_size] for i in range(0, total, batch_size)\<close>.\<close>

definition batches :: "nat \<Rightarrow> 'a list \<Rightarrow> 'a list list" where
  "batches batch_size xs =
     map (\<lambda>k. take batch_size (drop (k * batch_size) xs))
       [0 ..< (length xs + batch_size - 1) div batch_size]"

fun process_batches ::
  "(string \<Rightarrow> pyfloat option) \<Rightarrow> (string \<Rightarrow> py_error + json) \<Rightarrow> scan_state \<Rightarrow>
   string list list \<Rightarrow> py_error + scan_state" where
  "process_batches str_float api st [] = Inr st"
| "process_batches str_float api st (batch # rest) =
     bind_err (process_results st (map (scan_wallet str_float api) batch))
       (\<lambda>st'. process_batches str_float api st' rest)"

text \<open>
  \<open>scan_wallets\<close>, for the wallets in the order \<open>list(wallets)\<close> gives them. The timestamp,
  the progress callback and the pauses between batches are left out.
\<close>

definition scan_wallets ::
  "(string \<Rightarrow> pyfloat option) \<Rightarrow> (string \<Rightarrow> py_error + json) \<Rightarrow> string list \<Rightarrow>
   py_error + ScanResult" where
  "scan_wallets str_float api wallets =
     (let wallet_list = take MAX_WALLETS_TO_TRACK wallets;
          st0 = \<lparr> all_positions = [], by_coin = [], levels_found = [], error_count = 0 \<rparr>
      in bind_err
           (process_batches str_float api st0 (batches API_REQUESTS_PER_SECOND wallet_list))
           (\<lambda>st.
              Inr \<lparr> total_wallets_scanned = length wallet_list,
                    total_positions_found = length (all_positions st),
                    total_long_exposure_usd =
                      py_sum (map notional_value (filter is_long (all_positions st))),
                    total_short_exposure_usd =
                      py_sum (map notional_value
                        (filter (\<lambda>p. \<not> is_long p) (all_positions st))),
                    liquidation_levels = levels_found st,
                    positions_by_coin = by_coin st,
                    errors = error_count st \<rparr>))"

subsection \<open>Worked venue responses\<close>

definition position_json :: "string \<Rightarrow> string \<Rightarrow> string \<Rightarrow> (string \<times> json) list \<Rightarrow> json" where
  "position_json coin szi pv extra =
     JObj [(''position'',
            JObj ([(''coin'', JStr coin), (''szi'', JStr szi), (''entryPx'', JStr ''90000''),
                   (''leverage'', JObj [(''type'', JStr ''cross''), (''value'', JNum 10)]),
                   (''positionValue'', JStr pv), (''unrealizedPnl'', JStr ''0''),
                   (''marginUsed'', JStr ''500'')] @ extra))]"

text \<open>Every request fails, as on an HTTP 500.\<close>

definition failing_api :: "string \<Rightarrow> py_error + json" where
  "failing_api wallet = Inl APIError"

text \<open>One position whose \<open>liquidationPx\<close> is the string \<open>"0"\<close>.\<close>

definition zero_liq_api :: "string \<Rightarrow> py_error + json" where
  "zero_liq_api wallet =
     Inr (JObj [(''assetPositions'',
                 JArr [position_json ''BTC'' ''1'' ''5000'' [(''liquidationPx'', JStr ''0'')]])])"

text \<open>One position whose \<open>positionValue\<close> is the string \<open>"nan"\<close>.\<close>

definition nan_value_api :: "string \<Rightarrow> py_error + json" where
  "nan_value_api wallet =
     Inr (JObj [(''assetPositions'',
                 JArr [position_json ''BTC'' ''1'' ''nan''
                         [(''liquidationPx'', JStr ''85000.5'')]])])"

text \<open>
  Four positions: a liquidation price, none (key absent), JSON \<open>null\<close>, and the string
  \<open>"null"\<close>; the last one is also below \<open>MIN_POSITION_VALUE_USD\<close>.
\<close>

definition mixed_api :: "string \<Rightarrow> py_error + json" where
  "mixed_api wallet =
     Inr (JObj [(''assetPositions'',
                 JArr [position_json ''BTC'' ''1'' ''5000'' [(''liquidationPx'', JStr ''85000.5'')],
                       position_json ''ETH'' ''-2'' ''6000'' [],
                       position_json ''SOL'' ''3'' ''7000'' [(''liquidationPx'', JNull)],
                       position_json ''ARB'' ''4'' ''800'' [(''liquidationPx'', JStr ''null'')]])])"

subsection \<open>What a scan has to report\<close>

text \<open>
  All positions the wallets' queries return, in scan order; the positions the scanner keeps;
  and the levels of a list of positions: one for each position with a liquidation price.
\<close>

definition scanned_positions ::
  "(string \<Rightarrow> pyfloat option) \<Rightarrow> (string \<Rightarrow> py_error + json) \<Rightarrow> string list \<Rightarrow> Position list" where
  "scanned_positions str_float api wallets =
     concat (map (\<lambda>w. get_user_positions str_float w (api w))
       (take MAX_WALLETS_TO_TRACK wallets))"

definition kept_position :: "Position \<Rightarrow> bool" where
  "kept_position p \<longleftrightarrow> \<not> pf_less (notional_value p) (Num MIN_POSITION_VALUE_USD)"

fun levels_of_positions :: "Position list \<Rightarrow> pyfloat LiquidationLevel list" where
  "levels_of_positions [] = []"
| "levels_of_positions (p # ps) =
     (case liquidation_price p of
        None \<Rightarrow> levels_of_positions ps
      | Some liq \<Rightarrow> level_of_position p liq # levels_of_positions ps)"

text \<open>The wallets of a scan whose request raised.\<close>

definition failed_queries :: "(string \<Rightarrow> py_error + json) \<Rightarrow> string list \<Rightarrow> string list" where
  "failed_queries api wallets =
     filter (\<lambda>w. isl (api w)) (take MAX_WALLETS_TO_TRACK wallets)"

section \<open>Retention maintenance (src/scripts/db_maintenance.py)\<close>

subsection \<open>Instants and their two text forms\<close>

text \<open>
  An instant is a count of seconds since 1970-01-01 00:00:00 UTC. Dates are proleptic
  Gregorian, as in Python and SQLite; the formats below are for years 0000 to 9999.
\<close>

definition civil_from_days :: "int \<Rightarrow> int \<times> int \<times> int" where
  "civil_from_days z0 =
     (let z = z0 + 719468;
          era = z div 146097;
          doe = z - era * 146097;
          yoe = (doe - doe div 1460 + doe div 36524 - doe div 146096) div 365;
          y = yoe + era * 400;
          doy = doe - (365 * yoe + yoe div 4 - yoe div 100);
          mp = (5 * doy + 2) div 153;
          d = doy - (153 * mp + 2) div 5 + 1;
          m = (if mp < 10 then mp + 3 else mp - 9)
      in (if m \<le> 2 then y + 1 else y, m, d))"

definition digit_char :: "int \<Rightarrow> char" where
  "digit_char n = ''0123456789'' ! nat (n mod 10)"

fun dec_digits :: "nat \<Rightarrow> int \<Rightarrow> string" where
  "dec_digits 0 n = []"
| "dec_digits (Suc w) n = dec_digits w (n div 10) @ [digit_char n]"

definition date_text :: "int \<Rightarrow> string" where
  "date_text t =
     (case civil_from_days (t div 86400) of
        (y, m, d) \<Rightarrow> dec_digits 4 y @ ''-'' @ dec_digits 2 m @ ''-'' @ dec_digits 2 d)"

definition clock_text :: "int \<Rightarrow> string" where
  "clock_text t =
     (let s = t mod 86400
      in dec_digits 2 (s div 3600) @ '':'' @ dec_digits 2 (s div 60 mod 60) @ '':'' @
         dec_digits 2 (s mod 60))"

text \<open>SQLite's \<open>datetime(...)\<close> renders an instant as \<open>YYYY-MM-DD HH:MM:SS\<close>.\<close>

definition sqlite_datetime :: "int \<Rightarrow> string" where
  "sqlite_datetime t = date_text t @ '' '' @ clock_text t"

text \<open>
  The collector stamps a cycle with \<open>datetime.now(timezone.utc)\<close> and the store writes
  \<open>timestamp.isoformat()\<close>: \<open>YYYY-MM-DDTHH:MM:SS[.ffffff]+00:00\<close>, the fraction left out when
  the microseconds are 0.
\<close>

definition isoformat_utc :: "int \<Rightarrow> int \<Rightarrow> string" where
  "isoformat_utc t microsecond =
     date_text t @ ''T'' @ clock_text t @
     (if microsecond = 0 then [] else ''.'' @ dec_digits 6 microsecond) @ ''+00:00''"

subsection \<open>The SQL the script runs\<close>

text \<open>
  \<open>timestamp\<close> is a \<open>TEXT\<close> column and \<open>datetime(...)\<close> returns text, so \<open><\<close> and \<open>>=\<close> compare the
  two strings byte by byte (SQLite's default \<open>BINARY\<close> collation), a proper prefix being
  smaller.
\<close>

fun text_lt :: "string \<Rightarrow> string \<Rightarrow> bool" where
  "text_lt [] [] = False"
| "text_lt [] (y # ys) = True"
| "text_lt (x # xs) [] = False"
| "text_lt (x # xs) (y # ys) =
     (if (of_char x :: nat) < of_char y then True
      else if (of_char y :: nat) < of_char x then False
      else text_lt xs ys)"

definition is_digit :: "char \<Rightarrow> bool" where
  "is_digit c \<longleftrightarrow> 48 \<le> (of_char c :: nat) \<and> (of_char c :: nat) \<le> 57"

definition zone_suffix :: "string \<Rightarrow> bool" where
  "zone_suffix s \<longleftrightarrow> s = [] \<or> s = ''Z'' \<or> s = ''+00:00'' \<or> s = ''-00:00''"

definition time_tail :: "string \<Rightarrow> bool" where
  "time_tail s =
     (if take 1 s = '':''
      then 3 \<le> length s \<and> list_all is_digit (take 2 (drop 1 s)) \<and>
           (let r = drop 3 s
            in if take 1 r = ''.''
               then takeWhile is_digit (drop 1 r) \<noteq> [] \<and>
                    zone_suffix (dropWhile is_digit (drop 1 r))
               else zone_suffix r)
      else zone_suffix s)"

text \<open>
  \<open>strftime('%H', ts)\<close> and \<open>strftime('%M', ts)\<close>, for the layouts this repository writes: a
  date, a blank or \<open>T\<close>, \<open>HH:MM\<close>, then optionally seconds, a fraction and a zero UTC offset.
  The result is the pair of the two fields; \<open>None\<close> is SQL \<open>NULL\<close> (the text is not a time).
  SQLite also reads other layouts (a non-zero offset, a Julian day number) and rejects
  digit groups out of range (a month 13); both are outside this model, which answers \<open>NULL\<close>
  for the former and does not check the latter.
\<close>

definition sqlite_hh_mm :: "string \<Rightarrow> (string \<times> string) option" where
  "sqlite_hh_mm ts =
     (if 16 \<le> length ts \<and>
         list_all is_digit (take 4 ts) \<and> ts ! 4 = CHR ''-'' \<and>
         list_all is_digit (take 2 (drop 5 ts)) \<and> ts ! 7 = CHR ''-'' \<and>
         list_all is_digit (take 2 (drop 8 ts)) \<and>
         (ts ! 10 = CHR '' '' \<or> ts ! 10 = CHR ''T'') \<and>
         list_all is_digit (take 2 (drop 11 ts)) \<and> ts ! 13 = CHR '':'' \<and>
         list_all is_digit (take 2 (drop 14 ts)) \<and>
         time_tail (drop 16 ts)
      then Some (take 2 (drop 11 ts), take 2 (drop 14 ts))
      else None)"

record table_row =
  r_timestamp :: string
  r_coin :: string

record database =
  snapshots :: "table_row list"
  price_history :: "table_row list"

text \<open>
  The three \<open>WHERE\<close> clauses. \<open>c30\<close>, \<open>c7\<close> and \<open>c1\<close> are \<open>datetime('now', '-30 days')\<close>,
  \<open>'-7 days'\<close> and \<open>'-1 days'\<close>. \<open>NULL != '12'\<close> is \<open>NULL\<close>, which selects no row.
\<close>

definition older_than_30 :: "string \<Rightarrow> table_row \<Rightarrow> bool" where
  "older_than_30 c30 r \<longleftrightarrow> text_lt (r_timestamp r) c30"

definition non_noon_7_30 :: "string \<Rightarrow> string \<Rightarrow> table_row \<Rightarrow> bool" where
  "non_noon_7_30 c7 c30 r \<longleftrightarrow>
     text_lt (r_timestamp r) c7 \<and> \<not> text_lt (r_timestamp r) c30 \<and>
     (case sqlite_hh_mm (r_timestamp r) of None \<Rightarrow> False | Some hm \<Rightarrow> fst hm \<noteq> ''12'')"

definition non_hourly_1_7 :: "string \<Rightarrow> string \<Rightarrow> table_row \<Rightarrow> bool" where
  "non_hourly_1_7 c1 c7 r \<longleftrightarrow>
     text_lt (r_timestamp r) c1 \<and> \<not> text_lt (r_timestamp r) c7 \<and>
     (case sqlite_hh_mm (r_timestamp r) of None \<Rightarrow> False | Some hm \<Rightarrow> snd hm \<noteq> ''00'')"

definition delete_where :: "(table_row \<Rightarrow> bool) \<Rightarrow> table_row list \<Rightarrow> table_row list" where
  "delete_where w rows = filter (\<lambda>r. \<not> w r) rows"

text \<open>
  \<open>run_maintenance\<close> at the instant \<open>now\<close> (one instant for the whole run). For the snapshots
  each \<open>DELETE\<close> runs only when the preceding \<open>COUNT\<close> is positive; for \<open>price_history\<close> the
  three \<open>DELETE\<close>s run unconditionally. The printed report and \<open>VACUUM\<close> change no row.
\<close>

definition run_maintenance :: "int \<Rightarrow> bool \<Rightarrow> database \<Rightarrow> database" where
  "run_maintenance now dry_run db =
     (let c30 = sqlite_datetime (now - 30 * 86400);
          c7 = sqlite_datetime (now - 7 * 86400);
          c1 = sqlite_datetime (now - 1 * 86400);
          s0 = snapshots db;
          old_count = length (filter (older_than_30 c30) s0);
          s1 = (if \<not> dry_run \<and> old_count > 0 then delete_where (older_than_30 c30) s0 else s0);
          downsample_count = length (filter (non_noon_7_30 c7 c30) s1);
          s2 = (if \<not> dry_run \<and> downsample_count > 0
                then delete_where (non_noon_7_30 c7 c30) s1 else s1);
          hourly_count = length (filter (non_hourly_1_7 c1 c7) s2);
          s3 = (if \<not> dry_run \<and> hourly_count > 0
                then delete_where (non_hourly_1_7 c1 c7) s2 else s2);
          p3 = (if \<not> dry_run
                then delete_where (non_hourly_1_7 c1 c7)
                       (delete_where (non_noon_7_30 c7 c30)
                          (delete_where (older_than_30 c30) (price_history db)))
                else price_history db)
      in \<lparr> snapshots = s3, price_history = p3 \<rparr>)"

text \<open>
  A run on 2024-02-01 at 12:45:00 UTC, and rows the collector wrote: 30 days and 35
  minutes before, 1 day 9 hours 38 minutes before, 35 days before, 12 days before (at
  12:30), 4 days before (at 09:00), and a few hours before.
\<close>

definition run_instant :: int where
  "run_instant = 1706791500"

definition collector_row :: "int \<Rightarrow> table_row" where
  "collector_row t = \<lparr> r_timestamp = isoformat_utc t 0, r_coin = ''BTC'' \<rparr>"

definition boundary_rows :: "table_row list" where
  "boundary_rows = [collector_row 1704197400, collector_row 1706670420]"

definition ordinary_rows :: "table_row list" where
  "ordinary_rows =
     [collector_row (1706791500 - 35 * 86400), collector_row 1705753800,
      collector_row 1706432400, collector_row 1706778780,
      collector_row (1705753800 - 3600), collector_row (1706432400 + 780)]"

section \<open>Compressed cluster documents (src/src/historical_storage.py)\<close>

text \<open>
  \<open>compress_json\<close> and \<open>decompress_json\<close> compose library functions: \<open>json.dumps\<close> and
  \<open>json.loads\<close>, \<open>str.encode\<close> and \<open>bytes.decode\<close> for UTF-8, \<open>zlib.compress\<close> and
  \<open>zlib.decompress\<close>, \<open>base64.b64encode\<close> (with its \<open>.decode('ascii')\<close>) and \<open>base64.b64decode\<close>.
  The libraries are a parameter, a record of functions; a function that can raise returns
  a sum. Both \<open>str\<close> and \<open>bytes\<close> are \<open>string\<close>.
\<close>

record codecs =
  json_dumps :: "json \<Rightarrow> py_error + string"
  json_loads :: "string \<Rightarrow> py_error + json"
  utf8_encode :: "string \<Rightarrow> string"
  utf8_decode :: "string \<Rightarrow> py_error + string"
  zlib_compress :: "nat \<Rightarrow> string \<Rightarrow> string"
  zlib_decompress :: "string \<Rightarrow> py_error + string"
  b64encode :: "string \<Rightarrow> string"
  b64decode :: "string \<Rightarrow> py_error + string"

definition COMPRESSION_MARKER :: string where
  "COMPRESSION_MARKER = ''ZLIB:''"

definition startswith :: "string \<Rightarrow> string \<Rightarrow> bool" where
  "startswith s p \<longleftrightarrow> take (length p) s = p"

text \<open>\<open>compress_json\<close> has no handler: what \<open>json.dumps\<close> raises, it raises.\<close>

definition compress_json :: "codecs \<Rightarrow> json \<Rightarrow> py_error + string" where
  "compress_json L data =
     bind_err (json_dumps L data) (\<lambda>s.
       let json_bytes = utf8_encode L s;
           compressed = zlib_compress L 6 json_bytes;
           encoded = b64encode L compressed
       in Inr (COMPRESSION_MARKER @ encoded))"

text \<open>\<open>try: body except: return handler_value\<close>.\<close>

definition try_except :: "py_error + 'a \<Rightarrow> 'a \<Rightarrow> py_error + 'a" where
  "try_except body handler_value =
     (case body of Inl e \<Rightarrow> Inr handler_value | Inr v \<Rightarrow> Inr v)"

text \<open>
  \<open>decompress_json\<close>, for the inputs its signature and its caller give it: \<open>None\<close> or a \<open>str\<close>.
  The result type can hold an exception, so that "never raises" is a statement.
\<close>

definition decompress_json :: "codecs \<Rightarrow> string option \<Rightarrow> py_error + json" where
  "decompress_json L data =
     (case data of
        None \<Rightarrow> Inr (JObj [])
      | Some d \<Rightarrow>
          if startswith d COMPRESSION_MARKER then
            try_except
              (let encoded = drop (length COMPRESSION_MARKER) d
               in bind_err (b64decode L encoded) (\<lambda>compressed.
                  bind_err (zlib_decompress L compressed) (\<lambda>json_bytes.
                  bind_err (utf8_decode L json_bytes) (\<lambda>s.
                    json_loads L s))))
              (JObj [])
          else try_except (json_loads L d) (JObj []))"

definition is_dict :: "json \<Rightarrow> bool" where
  "is_dict v = (case v of JObj kvs \<Rightarrow> True | _ \<Rightarrow> False)"

subsection \<open>A reader and a writer for plain JSON texts\<close>

text \<open>
  For worked inputs: the JSON texts made of \<open>null\<close>, \<open>true\<close>, \<open>false\<close>, integers, strings
  without escapes, arrays and objects, read as \<open>json.loads\<close> reads them and written as
  \<open>json.dumps(..., separators=(',', ':'))\<close> writes them. Fractions, exponents, escapes and
  the literals \<open>NaN\<close> and \<open>Infinity\<close> are outside this reader (it answers \<open>JSONDecodeError\<close>)
  and this writer (it answers \<open>TypeError\<close>); nothing general below depends on them. Each
  call of the reader consumes a character, so fuel equal to the length of the text, plus
  one, is never used up.
\<close>

fun skip_ws :: "string \<Rightarrow> string" where
  "skip_ws [] = []"
| "skip_ws (c # cs) =
     (if c = CHR '' '' \<or> c = CHR 0x09 \<or> c = CHR 0x0A \<or> c = CHR 0x0D then skip_ws cs
      else c # cs)"

definition plain_char :: "char \<Rightarrow> bool" where
  "plain_char c \<longleftrightarrow>
     32 \<le> (of_char c :: nat) \<and> c \<noteq> CHR 0x22 \<and> c \<noteq> CHR 0x5C \<and> (of_char c :: nat) < 128"

text \<open>The text after an opening quote: the string's characters and what follows the closing quote.\<close>

definition read_string :: "string \<Rightarrow> (string \<times> string) option" where
  "read_string s =
     (let body = takeWhile plain_char s; rest = dropWhile plain_char s
      in if take 1 rest = [CHR 0x22] then Some (body, drop 1 rest) else None)"

definition read_int :: "string \<Rightarrow> (json \<times> string) option" where
  "read_int s =
     (let neg = (take 1 s = ''-'');
          t = (if neg then drop 1 s else s);
          ds = takeWhile is_digit t;
          rest = dropWhile is_digit t
      in if ds = [] \<or> (take 1 ds = ''0'' \<and> 1 < length ds) \<or>
            take 1 rest = ''.'' \<or> take 1 rest = ''e'' \<or> take 1 rest = ''E''
         then None
         else case digits_value 0 ds of
                None \<Rightarrow> None
              | Some n \<Rightarrow> Some (JNum (if neg then - real n else real n), rest))"

fun obj_put :: "string \<Rightarrow> json \<Rightarrow> (string \<times> json) list \<Rightarrow> (string \<times> json) list" where
  "obj_put k v [] = [(k, v)]"
| "obj_put k v ((k', v') # kvs) = (if k' = k then (k, v) # kvs else (k', v') # obj_put k v kvs)"

fun read_value :: "nat \<Rightarrow> string \<Rightarrow> (json \<times> string) option"
and read_elems :: "nat \<Rightarrow> json list \<Rightarrow> string \<Rightarrow> (json \<times> string) option"
and read_members :: "nat \<Rightarrow> (string \<times> json) list \<Rightarrow> string \<Rightarrow> (json \<times> string) option" where
  "read_value 0 s = None"
| "read_value (Suc n) s =
     (let t = skip_ws s
      in if take 4 t = ''null'' then Some (JNull, drop 4 t)
         else if take 4 t = ''true'' then Some (JBool True, drop 4 t)
         else if take 5 t = ''false'' then Some (JBool False, drop 5 t)
         else if take 1 t = [CHR 0x22] then
           (case read_string (drop 1 t) of
              None \<Rightarrow> None
            | Some sr \<Rightarrow> Some (JStr (fst sr), snd sr))
         else if take 1 t = ''['' then
           (if take 1 (skip_ws (drop 1 t)) = '']'' then Some (JArr [], drop 1 (skip_ws (drop 1 t)))
            else read_elems n [] (drop 1 t))
         else if take 1 t = ''{'' then
           (if take 1 (skip_ws (drop 1 t)) = ''}'' then Some (JObj [], drop 1 (skip_ws (drop 1 t)))
            else read_members n [] (drop 1 t))
         else read_int t)"
| "read_elems 0 acc s = None"
| "read_elems (Suc n) acc s =
     (case read_value n s of
        None \<Rightarrow> None
      | Some vr \<Rightarrow>
          (let t = skip_ws (snd vr)
           in if take 1 t = '','' then read_elems n (acc @ [fst vr]) (drop 1 t)
              else if take 1 t = '']'' then Some (JArr (acc @ [fst vr]), drop 1 t)
              else None))"
| "read_members 0 acc s = None"
| "read_members (Suc n) acc s =
     (let t = skip_ws s
      in if take 1 t = [CHR 0x22] then
           (case read_string (drop 1 t) of
              None \<Rightarrow> None
            | Some kr \<Rightarrow>
                (let u = skip_ws (snd kr)
                 in if take 1 u = '':'' then
                      (case read_value n (drop 1 u) of
                         None \<Rightarrow> None
                       | Some vr \<Rightarrow>
                           (let w = skip_ws (snd vr)
                            in if take 1 w = '','' then
                                 read_members n (obj_put (fst kr) (fst vr) acc) (drop 1 w)
                               else if take 1 w = ''}'' then
                                 Some (JObj (obj_put (fst kr) (fst vr) acc), drop 1 w)
                               else None))
                    else None))
         else None)"

definition plain_json_loads :: "string \<Rightarrow> py_error + json" where
  "plain_json_loads s =
     (case read_value (Suc (length s)) s of
        None \<Rightarrow> Inl JSONDecodeError
      | Some vr \<Rightarrow> if skip_ws (snd vr) = [] then Inr (fst vr) else Inl JSONDecodeError)"

fun nat_digits :: "nat \<Rightarrow> string" where
  "nat_digits n =
     (if n < 10 then [digit_char (int n)] else nat_digits (n div 10) @ [digit_char (int n)])"

declare nat_digits.simps [simp del]

fun write_value :: "json \<Rightarrow> string option"
and write_elems :: "json list \<Rightarrow> string option"
and write_members :: "(string \<times> json) list \<Rightarrow> string option" where
  "write_value JNull = Some ''null''"
| "write_value (JBool b) = Some (if b then ''true'' else ''false'')"
| "write_value (JNum r) =
     (if r = of_int \<lfloor>r\<rfloor>
      then Some ((if r < 0 then ''-'' else []) @ nat_digits (nat \<bar>\<lfloor>r\<rfloor>\<bar>))
      else None)"
| "write_value (JStr s) =
     (if list_all plain_char s then Some ([CHR 0x22] @ s @ [CHR 0x22]) else None)"
| "write_value (JArr xs) =
     (case write_elems xs of None \<Rightarrow> None | Some t \<Rightarrow> Some (''['' @ t @ '']''))"
| "write_value (JObj kvs) =
     (case write_members kvs of None \<Rightarrow> None | Some t \<Rightarrow> Some (''{'' @ t @ ''}''))"
| "write_value JNaN = None"
| "write_value JInfinity = None"
| "write_value JNegInfinity = None"
| "write_elems [] = Some []"
| "write_elems (x # xs) =
     (case write_value x of
        None \<Rightarrow> None
      | Some t \<Rightarrow>
          (case write_elems xs of
             None \<Rightarrow> None
           | Some ts \<Rightarrow> Some (if xs = [] then t else t @ '','' @ ts)))"
| "write_members [] = Some []"
| "write_members (kv # kvs) =
     (if list_all plain_char (fst kv) then
        (case write_value (snd kv) of
           None \<Rightarrow> None
         | Some t \<Rightarrow>
             (case write_members kvs of
                None \<Rightarrow> None
              | Some ts \<Rightarrow>
                  Some ([CHR 0x22] @ fst kv @ [CHR 0x22] @ '':'' @ t @
                        (if kvs = [] then [] else '','' @ ts))))
      else None)"

definition plain_json_dumps :: "json \<Rightarrow> py_error + string" where
  "plain_json_dumps v = (case write_value v of None \<Rightarrow> Inl TypeError | Some t \<Rightarrow> Inr t)"

text \<open>
  An instance of the libraries for worked inputs: the plain JSON reader and writer, and the
  identity in place of UTF-8 (the texts are ASCII), of the compressor and of base64. It
  satisfies the inverse laws the libraries satisfy.
\<close>

definition plain_codecs :: codecs where
  "plain_codecs =
     \<lparr> json_dumps = plain_json_dumps, json_loads = plain_json_loads,
       utf8_encode = id, utf8_decode = Inr,
       zlib_compress = (\<lambda>level. id), zlib_decompress = Inr,
       b64encode = id, b64decode = Inr \<rparr>"

text \<open>A cluster document as \<open>store_snapshot\<close> builds it, with integral numbers.\<close>

definition example_document :: json where
  "example_document =
     JObj [(''long'',
            JArr [JObj [(''coin'', JStr ''BTC''), (''side'', JStr ''long''),
                        (''price_low'', JNum 98), (''price_high'', JNum 99),
                        (''total_size_usd'', JNum 200000), (''position_count'', JNum 1)]]),
           (''short'', JArr [])]"

definition example_text :: string where
  "example_text =
     ''{\"long\":[{\"coin\":\"BTC\",\"side\":\"long\",\"price_low\":98,\"price_high\":99,\"total_size_usd\":200000,\"position_count\":1}],\"short\":[]}''"

section \<open>Properties of the merge\<close>

subsection \<open>Conservation of size and count\<close>

lemma merged_cluster_total:
  "total_size_usd (merged_cluster c d) = total_size_usd c + total_size_usd d"
  by (simp add: merged_cluster_def Let_def)

lemma merged_cluster_count:
  "position_count (merged_cluster c d) = position_count c + position_count d"
  by (simp add: merged_cluster_def Let_def)

lemma merge_loop_sum_total:
  "merge_loop a cur rest merged = Inr out \<Longrightarrow>
   sum_total out = sum_total merged + total_size_usd cur + sum_total rest"
proof (induction rest arbitrary: cur merged)
  case Nil
  then show ?case by (auto simp: sum_total_def)
next
  case (Cons n rest)
  then show ?case
    by (auto simp: sum_total_def merged_cluster_total split: if_splits)
qed

lemma merge_loop_sum_count:
  "merge_loop a cur rest merged = Inr out \<Longrightarrow>
   sum_count out = sum_count merged + position_count cur + sum_count rest"
proof (induction rest arbitrary: cur merged)
  case Nil
  then show ?case by (auto simp: sum_count_def)
next
  case (Cons n rest)
  then show ?case
    by (auto simp: sum_count_def merged_cluster_count split: if_splits)
qed

lemma sum_total_sort_key: "sum_total (sort_key f cs) = sum_total cs"
proof -
  have "mset (map total_size_usd (sort_key f cs)) = mset (map total_size_usd cs)"
    by simp
  then show ?thesis
    unfolding sum_total_def by (metis sum_mset_sum_list)
qed

lemma sum_count_sort_key: "sum_count (sort_key f cs) = sum_count cs"
proof -
  have "mset (map position_count (sort_key f cs)) = mset (map position_count cs)"
    by simp
  then show ?thesis
    unfolding sum_count_def by (metis sum_mset_sum_list)
qed

lemma merge_adjacent_clusters_sum_total:
  assumes "merge_adjacent_clusters a cs = Inr out"
  shows "sum_total out = sum_total cs"
proof (cases "length cs < 2")
  case True
  with assms show ?thesis by (simp add: merge_adjacent_clusters_def)
next
  case False
  show ?thesis
  proof (cases "sort_key price_center cs")
    case Nil
    then have "cs = []" by (metis length_sort list.size(3) length_0_conv)
    with False show ?thesis by simp
  next
    case (Cons c rest)
    with assms False have "merge_loop a c rest [] = Inr out"
      by (simp add: merge_adjacent_clusters_def)
    from merge_loop_sum_total [OF this] have "sum_total out = sum_total (c # rest)"
      by (simp add: sum_total_def)
    with Cons show ?thesis by (metis sum_total_sort_key)
  qed
qed

lemma merge_adjacent_clusters_sum_count:
  assumes "merge_adjacent_clusters a cs = Inr out"
  shows "sum_count out = sum_count cs"
proof (cases "length cs < 2")
  case True
  with assms show ?thesis by (simp add: merge_adjacent_clusters_def)
next
  case False
  show ?thesis
  proof (cases "sort_key price_center cs")
    case Nil
    then have "cs = []" by (metis length_sort list.size(3) length_0_conv)
    with False show ?thesis by simp
  next
    case (Cons c rest)
    with assms False have "merge_loop a c rest [] = Inr out"
      by (simp add: merge_adjacent_clusters_def)
    from merge_loop_sum_count [OF this] have "sum_count out = sum_count (c # rest)"
      by (simp add: sum_count_def)
    with Cons show ?thesis by (metis sum_count_sort_key)
  qed
qed

subsection \<open>No mergeable neighbours remain\<close>

lemma nma_snoc:
  "no_mergeable_adjacent a (xs @ [c]) \<Longrightarrow> \<not> should_merge a c n \<Longrightarrow>
   no_mergeable_adjacent a (xs @ [c, n])"
  by (induction a xs rule: no_mergeable_adjacent.induct) auto

lemma should_merge_grow:
  "should_merge a m c' \<Longrightarrow> price_low c' = price_low c \<Longrightarrow>
   total_size_usd c \<le> total_size_usd c' \<Longrightarrow> should_merge a m c"
  by (auto simp: should_merge_def gap_percent_def)

lemma nma_replace_last:
  "no_mergeable_adjacent a (xs @ [c]) \<Longrightarrow> price_low c' = price_low c \<Longrightarrow>
   total_size_usd c \<le> total_size_usd c' \<Longrightarrow> no_mergeable_adjacent a (xs @ [c'])"
  by (induction a xs rule: no_mergeable_adjacent.induct) (auto dest: should_merge_grow)

lemma merge_loop_nma:
  "merge_loop a cur rest merged = Inr out \<Longrightarrow>
   \<forall>c \<in> set rest. 0 \<le> total_size_usd c \<Longrightarrow>
   no_mergeable_adjacent a (merged @ [cur]) \<Longrightarrow>
   no_mergeable_adjacent a out"
proof (induction rest arbitrary: cur merged)
  case Nil
  then show ?case by auto
next
  case (Cons n rest)
  show ?case
  proof (cases "should_merge a cur n")
    case True
    with Cons.prems(1) have run: "merge_loop a (merged_cluster cur n) rest merged = Inr out"
      by (auto split: if_splits)
    have "no_mergeable_adjacent a (merged @ [merged_cluster cur n])"
    proof (rule nma_replace_last [where c = cur])
      show "no_mergeable_adjacent a (merged @ [cur])" by (rule Cons.prems(3))
      show "price_low (merged_cluster cur n) = price_low cur"
        by (simp add: merged_cluster_def Let_def)
      show "total_size_usd cur \<le> total_size_usd (merged_cluster cur n)"
        using Cons.prems(2) by (simp add: merged_cluster_def Let_def)
    qed
    with run Cons.IH Cons.prems(2) show ?thesis by auto
  next
    case False
    with Cons.prems(1) have run: "merge_loop a n rest (merged @ [cur]) = Inr out"
      by (auto split: if_splits)
    have "no_mergeable_adjacent a ((merged @ [cur]) @ [n])"
      using nma_snoc [OF Cons.prems(3) False] by simp
    with run Cons.IH Cons.prems(2) show ?thesis by auto
  qed
qed

lemma nma_nth:
  "no_mergeable_adjacent a out \<Longrightarrow> Suc i < length out \<Longrightarrow>
   \<not> should_merge a (out ! i) (out ! Suc i)"
proof (induction a out arbitrary: i rule: no_mergeable_adjacent.induct)
  case (1 a c c' cs)
  then show ?case by (cases i) auto
qed auto

lemma merge_loop_keeps_significant:
  "merge_loop a cur rest merged = Inr out \<Longrightarrow>
   c \<in> set merged \<union> {cur} \<union> set rest \<Longrightarrow>
   min_cluster_size a \<le> total_size_usd c \<Longrightarrow> c \<in> set out"
proof (induction rest arbitrary: cur merged)
  case Nil
  then show ?case by auto
next
  case (Cons n rest)
  show ?case
  proof (cases "should_merge a cur n")
    case True
    with Cons.prems(1) have run: "merge_loop a (merged_cluster cur n) rest merged = Inr out"
      by (auto split: if_splits)
    from True Cons.prems(3) have "c \<noteq> cur" "c \<noteq> n"
      by (auto simp: should_merge_def)
    with Cons.prems(2) have "c \<in> set merged \<union> {merged_cluster cur n} \<union> set rest" by auto
    from Cons.IH [OF run this Cons.prems(3)] show ?thesis .
  next
    case False
    with Cons.prems(1) have run: "merge_loop a n rest (merged @ [cur]) = Inr out"
      by (auto split: if_splits)
    from Cons.prems(2) have "c \<in> set (merged @ [cur]) \<union> {n} \<union> set rest" by auto
    from Cons.IH [OF run this Cons.prems(3)] show ?thesis .
  qed
qed

subsection \<open>When the merge returns\<close>

lemma positive_merged:
  "positive_cluster c \<Longrightarrow> positive_cluster d \<Longrightarrow> positive_cluster (merged_cluster c d)"
  by (auto simp: positive_cluster_def merged_cluster_def Let_def)

lemma merge_loop_returns:
  "positive_cluster cur \<Longrightarrow> \<forall>c \<in> set rest. positive_cluster c \<Longrightarrow>
   \<exists>out. merge_loop a cur rest merged = Inr out"
proof (induction rest arbitrary: cur merged)
  case Nil
  then show ?case by simp
next
  case (Cons n rest)
  then have pm: "positive_cluster (merged_cluster cur n)" by (simp add: positive_merged)
  from Cons.prems have nz: "price_center cur \<noteq> 0" "total_size_usd cur + total_size_usd n \<noteq> 0"
    by (auto simp: positive_cluster_def)
  show ?case
  proof (cases "should_merge a cur n")
    case True
    with nz Cons.IH [OF pm] Cons.prems(2) show ?thesis by simp
  next
    case False
    with nz Cons.IH [of n] Cons.prems(2) show ?thesis by simp
  qed
qed

lemmas agg_defaults = default_aggregator_def aggregator_init_def or_default_def
  PRICE_BUCKET_PERCENT_def MIN_CLUSTER_SIZE_USD_def CLUSTER_MERGE_PERCENT_def

lemma merge_adjacent_clusters_returns:
  assumes "\<forall>c \<in> set cs. positive_cluster c"
  shows "\<exists>out. merge_adjacent_clusters a cs = Inr out"
proof (cases "sort_key price_center cs")
  case Nil
  then show ?thesis by (simp add: merge_adjacent_clusters_def)
next
  case (Cons c rest)
  have "set (c # rest) = set cs" by (metis Cons set_sort)
  with assms have "positive_cluster c" "\<forall>d \<in> set rest. positive_cluster d" by auto
  from merge_loop_returns [OF this] Cons show ?thesis
    by (simp add: merge_adjacent_clusters_def)
qed

lemma small_pair_merged:
  "merge_adjacent_clusters default_aggregator small_pair =
     Inr [\<lparr> c_coin = JStr ''BTC'', c_side = ''long'', price_low = 99, price_high = 994 / 10,
            price_center = 992 / 10, total_size_usd = 60000, position_count = 2,
            avg_leverage = 10 \<rparr>]"
  by (simp add: merge_adjacent_clusters_def small_pair_def example_cluster_def agg_defaults
      should_merge_def gap_percent_def merged_cluster_def Let_def)

lemma blocked_pair_kept:
  "merge_adjacent_clusters default_aggregator blocked_pair = Inr blocked_pair"
  by (simp add: merge_adjacent_clusters_def blocked_pair_def example_cluster_def agg_defaults
      should_merge_def gap_percent_def merged_cluster_def Let_def)

subsection \<open>The claims about the merge\<close>

text \<open>
  Claim C9. Merging conserves mass: whenever \<open>_merge_adjacent_clusters\<close> returns, the sum of
  \<open>total_size_usd\<close> and the sum of \<open>position_count\<close> over its output equal the sums over its
  input; and it does return on every list of clusters with positive prices and sizes (on
  others a zero \<open>price_center\<close> or a zero merged size raises \<open>ZeroDivisionError\<close>).
\<close>

theorem merge_adjacent_clusters_conserves_mass:
  "(\<forall>out. merge_adjacent_clusters a cs = Inr out \<longrightarrow>
      sum_total out = sum_total cs \<and> sum_count out = sum_count cs) \<and>
   ((\<forall>c \<in> set cs. positive_cluster c) \<longrightarrow> (\<exists>out. merge_adjacent_clusters a cs = Inr out))"
  using merge_adjacent_clusters_sum_total merge_adjacent_clusters_sum_count
    merge_adjacent_clusters_returns by blast

theorem merge_adjacent_clusters_conserves_mass_witness:
  "list_all positive_cluster small_pair \<and>
   (\<exists>out. merge_adjacent_clusters default_aggregator small_pair = Inr out \<and>
      length out = 1 \<and> sum_total out = 60000 \<and> sum_count out = 2)"
proof -
  have pos: "\<forall>c \<in> set small_pair. positive_cluster c"
    by (simp add: small_pair_def example_cluster_def positive_cluster_def)
  have tot: "sum_total small_pair = 60000" "sum_count small_pair = 2"
    by (simp_all add: small_pair_def example_cluster_def sum_total_def sum_count_def)
  from merge_adjacent_clusters_conserves_mass [of default_aggregator small_pair] pos tot
    small_pair_merged
  show ?thesis by (auto simp: list_all_iff)
qed

lemma merge_adjacent_clusters_nma:
  assumes "\<forall>c \<in> set cs. 0 \<le> total_size_usd c"
      and "merge_adjacent_clusters a cs = Inr out"
  shows "no_mergeable_adjacent a out"
proof (cases "length cs < 2")
  case True
  with assms(2) have "out = cs" by (simp add: merge_adjacent_clusters_def)
  with True show ?thesis by (cases cs) (auto simp: numeral_2_eq_2)
next
  case False
  show ?thesis
  proof (cases "sort_key price_center cs")
    case Nil
    then have "cs = []" by (metis length_sort list.size(3) length_0_conv)
    with False show ?thesis by simp
  next
    case (Cons c rest)
    with assms(2) False have run: "merge_loop a c rest [] = Inr out"
      by (simp add: merge_adjacent_clusters_def)
    have "set (c # rest) = set cs" by (metis Cons set_sort)
    with assms(1) have "\<forall>d \<in> set rest. 0 \<le> total_size_usd d" by auto
    from merge_loop_nma [OF run this] show ?thesis by simp
  qed
qed

lemma merge_adjacent_clusters_keeps_significant:
  assumes "merge_adjacent_clusters a cs = Inr out"
      and "c \<in> set cs" and "min_cluster_size a \<le> total_size_usd c"
  shows "c \<in> set out"
proof (cases "length cs < 2")
  case True
  with assms show ?thesis by (simp add: merge_adjacent_clusters_def)
next
  case False
  show ?thesis
  proof (cases "sort_key price_center cs")
    case Nil
    then have "cs = []" by (metis length_sort list.size(3) length_0_conv)
    with False show ?thesis by simp
  next
    case (Cons d rest)
    with assms(1) False have run: "merge_loop a d rest [] = Inr out"
      by (simp add: merge_adjacent_clusters_def)
    have "set (d # rest) = set cs" by (metis Cons set_sort)
    with assms(2) have "c \<in> set [] \<union> {d} \<union> set rest" by auto
    from merge_loop_keeps_significant [OF run this assms(3)] show ?thesis .
  qed
qed

lemma merge_adjacent_clusters_pair:
  assumes "price_center c1 \<le> price_center c2"
      and "merge_adjacent_clusters a [c1, c2] = Inr out"
  shows "out = (if should_merge a c1 c2 then [merged_cluster c1 c2] else [c1, c2])"
  using assms by (auto simp: merge_adjacent_clusters_def split: if_splits)

lemma run_merges_snoc:
  "run_merges a c (xs @ [n]) \<longleftrightarrow>
     run_merges a c xs \<and> should_merge a (foldl merged_cluster c xs) n"
  by (induction xs arbitrary: c) auto

lemma merge_run_snoc:
  "g \<noteq> [] \<Longrightarrow> merge_run (g @ [n]) = merged_cluster (merge_run g) n"
  by (cases g) (simp_all add: merge_run_def)

lemma run_merges_snoc_run:
  "g \<noteq> [] \<Longrightarrow> run_merges a (hd g) (tl g) \<Longrightarrow> should_merge a (merge_run g) n \<Longrightarrow>
   run_merges a (hd (g @ [n])) (tl (g @ [n]))"
  by (cases g) (simp_all add: merge_run_def run_merges_snoc)

lemma merge_loop_groups:
  "merge_loop a (merge_run g) rest merged = Inr out \<Longrightarrow> g \<noteq> [] \<Longrightarrow>
   run_merges a (hd g) (tl g) \<Longrightarrow>
   \<exists>groups. concat groups = g @ rest \<and> list_all (\<lambda>h. h \<noteq> []) groups \<and>
     out = merged @ map merge_run groups \<and>
     list_all (\<lambda>h. run_merges a (hd h) (tl h)) groups \<and>
     (\<forall>j. Suc j < length groups \<longrightarrow>
        \<not> should_merge a (merge_run (groups ! j)) (hd (groups ! Suc j)))"
proof (induction rest arbitrary: g merged)
  case Nil
  then have "out = merged @ map merge_run [g]" by simp
  with Nil show ?case
    by (intro exI [where x = "[g]"]) simp
next
  case (Cons n rest)
  show ?case
  proof (cases "should_merge a (merge_run g) n")
    case True
    with Cons.prems(1)
    have run: "merge_loop a (merge_run (g @ [n])) rest merged = Inr out"
      by (auto simp: merge_run_snoc [OF Cons.prems(2)] split: if_splits)
    have ne: "g @ [n] \<noteq> []" by simp
    from Cons.IH [OF run ne run_merges_snoc_run [OF Cons.prems(2,3) True]]
    show ?thesis by simp
  next
    case False
    with Cons.prems(1)
    have run: "merge_loop a (merge_run [n]) rest (merged @ [merge_run g]) = Inr out"
      by (auto simp: merge_run_def split: if_splits)
    have "run_merges a (hd [n]) (tl [n])" by simp
    from Cons.IH [OF run _ this] obtain gs where
      gs: "concat gs = [n] @ rest" "list_all (\<lambda>h. h \<noteq> []) gs"
        "out = (merged @ [merge_run g]) @ map merge_run gs"
        "list_all (\<lambda>h. run_merges a (hd h) (tl h)) gs"
        "\<forall>j. Suc j < length gs \<longrightarrow>
           \<not> should_merge a (merge_run (gs ! j)) (hd (gs ! Suc j))"
      by auto
    from gs(1,2) obtain h hs where h: "gs = h # hs" "hd h = n"
      by (cases gs) (auto simp: neq_Nil_conv)
    have sep: "\<forall>j. Suc j < length (g # gs) \<longrightarrow>
           \<not> should_merge a (merge_run ((g # gs) ! j)) (hd ((g # gs) ! Suc j))"
    proof (intro allI impI)
      fix j assume j: "Suc j < length (g # gs)"
      show "\<not> should_merge a (merge_run ((g # gs) ! j)) (hd ((g # gs) ! Suc j))"
      proof (cases j)
        case 0
        with h False show ?thesis by simp
      next
        case (Suc k)
        with j gs(5) show ?thesis by simp
      qed
    qed
    show ?thesis
    proof (intro exI [where x = "g # gs"] conjI)
      show "concat (g # gs) = g @ n # rest" using gs(1) by simp
      show "list_all (\<lambda>h. h \<noteq> []) (g # gs)" using gs(2) Cons.prems(2) by simp
      show "out = merged @ map merge_run (g # gs)" using gs(3) by simp
      show "list_all (\<lambda>h. run_merges a (hd h) (tl h)) (g # gs)"
        using gs(4) Cons.prems(3) by simp
      show "\<forall>j. Suc j < length (g # gs) \<longrightarrow>
           \<not> should_merge a (merge_run ((g # gs) ! j)) (hd ((g # gs) ! Suc j))"
        by (rule sep)
    qed
  qed
qed

lemma merge_adjacent_clusters_groups:
  assumes "merge_adjacent_clusters a cs = Inr out"
  shows "\<exists>groups. concat groups = sort_key price_center cs \<and>
     list_all (\<lambda>h. h \<noteq> []) groups \<and>
     out = map merge_run groups \<and>
     list_all (\<lambda>h. run_merges a (hd h) (tl h)) groups \<and>
     (\<forall>j. Suc j < length groups \<longrightarrow>
        \<not> should_merge a (merge_run (groups ! j)) (hd (groups ! Suc j)))"
proof (cases "sort_key price_center cs")
  case Nil
  then have "cs = []" by (metis length_sort list.size(3) length_0_conv)
  with assms have "out = []" by (simp add: merge_adjacent_clusters_def)
  with Nil show ?thesis by (intro exI [where x = "[]"]) simp
next
  case (Cons c rest)
  have run: "merge_loop a (merge_run [c]) rest [] = Inr out"
  proof (cases "length cs < 2")
    case True
    then have "cs = [] \<or> (\<exists>x. cs = [x])" by (cases cs) (auto simp: length_Suc_conv)
    with Cons have c: "cs = [c]" and r: "rest = []" by auto
    from assms c have "out = [c]" by (simp add: merge_adjacent_clusters_def)
    with r show ?thesis by (simp add: merge_run_def)
  next
    case False
    with assms Cons show ?thesis by (simp add: merge_adjacent_clusters_def merge_run_def)
  qed
  have "run_merges a (hd [c]) (tl [c])" by simp
  from merge_loop_groups [OF run _ this] Cons show ?thesis by simp
qed


lemma foldl_merged_fields:
  "price_low (foldl merged_cluster c xs) = price_low c"
  "c_coin (foldl merged_cluster c xs) = c_coin c"
  "c_side (foldl merged_cluster c xs) = c_side c"
  "total_size_usd (foldl merged_cluster c xs) = total_size_usd c + sum_total xs"
  "position_count (foldl merged_cluster c xs) = position_count c + sum_count xs"
  by (induction xs rule: rev_induct)
     (simp_all add: merged_cluster_def Let_def sum_total_def sum_count_def)

lemma foldl_merged_high:
  "xs \<noteq> [] \<Longrightarrow> price_high (foldl merged_cluster c xs) = price_high (last xs)"
  "xs \<noteq> [] \<Longrightarrow>
   price_center (foldl merged_cluster c xs) = (price_low c + price_high (last xs)) / 2"
  by (induction xs rule: rev_induct)
     (simp_all add: merged_cluster_def Let_def foldl_merged_fields)

lemma foldl_merged_leverage:
  "0 < total_size_usd c \<Longrightarrow> \<forall>x \<in> set xs. 0 < total_size_usd x \<Longrightarrow>
   0 < total_size_usd (foldl merged_cluster c xs) \<and>
   avg_leverage (foldl merged_cluster c xs) * total_size_usd (foldl merged_cluster c xs)
     = avg_leverage c * total_size_usd c
       + sum_list (map (\<lambda>x. avg_leverage x * total_size_usd x) xs)"
proof (induction xs rule: rev_induct)
  case Nil
  then show ?case by simp
next
  case (snoc x xs)
  let ?acc = "foldl merged_cluster c xs"
  from snoc have acc: "0 < total_size_usd ?acc"
    and lev: "avg_leverage ?acc * total_size_usd ?acc
     = avg_leverage c * total_size_usd c
       + sum_list (map (\<lambda>x. avg_leverage x * total_size_usd x) xs)"
    and x: "0 < total_size_usd x" by auto
  from acc x have pos: "0 < total_size_usd ?acc + total_size_usd x" by simp
  have "avg_leverage (merged_cluster ?acc x) * total_size_usd (merged_cluster ?acc x)
        = avg_leverage ?acc * total_size_usd ?acc + avg_leverage x * total_size_usd x"
    using pos by (simp add: merged_cluster_def Let_def)
  with lev pos show ?case by (simp add: merged_cluster_total)
qed

lemma merge_run_fields:
  assumes "g \<noteq> []" and "\<forall>c \<in> set g. 0 < total_size_usd c"
  shows "c_coin (merge_run g) = c_coin (hd g)"
    and "c_side (merge_run g) = c_side (hd g)"
    and "price_low (merge_run g) = price_low (hd g)"
    and "price_high (merge_run g) = price_high (last g)"
    and "total_size_usd (merge_run g) = sum_total g"
    and "position_count (merge_run g) = sum_count g"
    and "avg_leverage (merge_run g)
         = sum_list (map (\<lambda>c. avg_leverage c * total_size_usd c) g) / sum_total g"
    and "tl g = [] \<longrightarrow> merge_run g = hd g"
    and "tl g \<noteq> [] \<longrightarrow>
         price_center (merge_run g) = (price_low (hd g) + price_high (last g)) / 2"
proof -
  from assms(1) obtain c xs where g: "g = c # xs" by (cases g) auto
  show "c_coin (merge_run g) = c_coin (hd g)" "c_side (merge_run g) = c_side (hd g)"
    "price_low (merge_run g) = price_low (hd g)"
    by (simp_all add: merge_run_def foldl_merged_fields)
  show "price_high (merge_run g) = price_high (last g)"
    by (cases "xs = []") (simp_all add: g merge_run_def foldl_merged_high)
  show tot: "total_size_usd (merge_run g) = sum_total g"
    by (simp add: g merge_run_def foldl_merged_fields sum_total_def)
  show "position_count (merge_run g) = sum_count g"
    by (simp add: g merge_run_def foldl_merged_fields sum_count_def)
  from assms(2) g have "0 < total_size_usd c" "\<forall>x \<in> set xs. 0 < total_size_usd x" by auto
  from foldl_merged_leverage [OF this]
  have p: "0 < total_size_usd (merge_run g)" and
    l: "avg_leverage (merge_run g) * total_size_usd (merge_run g)
        = sum_list (map (\<lambda>c. avg_leverage c * total_size_usd c) g)"
    by (simp_all add: g merge_run_def)
  from p have "avg_leverage (merge_run g)
     = avg_leverage (merge_run g) * total_size_usd (merge_run g) / total_size_usd (merge_run g)"
    by simp
  with l tot show "avg_leverage (merge_run g)
         = sum_list (map (\<lambda>c. avg_leverage c * total_size_usd c) g) / sum_total g"
    by simp
  show "tl g = [] \<longrightarrow> merge_run g = hd g" by (simp add: merge_run_def)
  show "tl g \<noteq> [] \<longrightarrow>
         price_center (merge_run g) = (price_low (hd g) + price_high (last g)) / 2"
    by (simp add: g merge_run_def foldl_merged_high)
qed

text \<open>
  Claim C3. For candidate clusters that each hold at least 10,000 USD, the list returned by
  \<open>_merge_adjacent_clusters\<close> has no two neighbours that are both below the aggregator's
  significance threshold and closer than \<open>CLUSTER_MERGE_PERCENT\<close> (the gap taken relative to
  the first one's centre). A cluster at or above the threshold is never merged: it is in
  the output unchanged.

  For every input list, the output is the input in price order, cut into runs of
  consecutive clusters, with one output cluster for each run. Within a run every merge was
  taken under the stated condition: the gap from \<open>current\<close> to the next cluster is below
  \<open>CLUSTER_MERGE_PERCENT\<close> and both are below the threshold. Between two runs the condition
  fails, so no merge is left out. A run of one cluster is that cluster, unchanged. The
  cluster of a longer run has the low of its first member, the high of its last member,
  their midpoint as centre, the summed size and count, the size-weighted mean of the
  members' leverages, and the coin and side of the first member. One merge step gives the
  fields as the claim lists them, and so a two-cluster input in price order is merged
  exactly when the condition holds. The merge returns on every list of clusters with
  positive prices and sizes (\<open>merge_adjacent_clusters_returns\<close>, above).
\<close>

theorem merge_adjacent_clusters_no_small_neighbours:
  assumes "\<forall>c \<in> set cs. 10000 \<le> total_size_usd c"
      and "merge_adjacent_clusters a cs = Inr out"
  shows "(\<forall>i. Suc i < length out \<longrightarrow>
            \<not> (total_size_usd (out ! i) < min_cluster_size a \<and>
               total_size_usd (out ! Suc i) < min_cluster_size a \<and>
               ((price_low (out ! Suc i) - price_high (out ! i)) / price_center (out ! i)) * 100
                 < CLUSTER_MERGE_PERCENT)) \<and>
         (\<forall>c \<in> set cs. min_cluster_size a \<le> total_size_usd c \<longrightarrow> c \<in> set out) \<and>
         (\<exists>groups.
            concat groups = sort_key price_center cs \<and>
            out = map merge_run groups \<and>
            (\<forall>g \<in> set groups.
               g \<noteq> [] \<and> run_merges a (hd g) (tl g) \<and>
               (tl g = [] \<longrightarrow> merge_run g = hd g) \<and>
               (tl g \<noteq> [] \<longrightarrow>
                  price_center (merge_run g) = (price_low (hd g) + price_high (last g)) / 2) \<and>
               c_coin (merge_run g) = c_coin (hd g) \<and>
               c_side (merge_run g) = c_side (hd g) \<and>
               price_low (merge_run g) = price_low (hd g) \<and>
               price_high (merge_run g) = price_high (last g) \<and>
               total_size_usd (merge_run g) = sum_total g \<and>
               position_count (merge_run g) = sum_count g \<and>
               avg_leverage (merge_run g)
                 = sum_list (map (\<lambda>c. avg_leverage c * total_size_usd c) g) / sum_total g) \<and>
            (\<forall>j. Suc j < length groups \<longrightarrow>
               \<not> should_merge a (merge_run (groups ! j)) (hd (groups ! Suc j)))) \<and>
         (\<forall>cur nxt.
            (should_merge a cur nxt \<longleftrightarrow>
               ((price_low nxt - price_high cur) / price_center cur) * 100
                 < CLUSTER_MERGE_PERCENT \<and>
               total_size_usd cur < min_cluster_size a \<and>
               total_size_usd nxt < min_cluster_size a) \<and>
            merged_cluster cur nxt =
              \<lparr> c_coin = c_coin cur, c_side = c_side cur,
                price_low = price_low cur, price_high = price_high nxt,
                price_center = (price_low cur + price_high nxt) / 2,
                total_size_usd = total_size_usd cur + total_size_usd nxt,
                position_count = position_count cur + position_count nxt,
                avg_leverage =
                  (avg_leverage cur * total_size_usd cur
                     + avg_leverage nxt * total_size_usd nxt)
                    / (total_size_usd cur + total_size_usd nxt) \<rparr>) \<and>
         (\<forall>cur nxt. cs = [cur, nxt] \<and> price_center cur \<le> price_center nxt \<longrightarrow>
            out =
              (if ((price_low nxt - price_high cur) / price_center cur) * 100
                    < CLUSTER_MERGE_PERCENT \<and>
                  total_size_usd cur < min_cluster_size a \<and>
                  total_size_usd nxt < min_cluster_size a
               then [\<lparr> c_coin = c_coin cur, c_side = c_side cur,
                        price_low = price_low cur, price_high = price_high nxt,
                        price_center = (price_low cur + price_high nxt) / 2,
                        total_size_usd = total_size_usd cur + total_size_usd nxt,
                        position_count = position_count cur + position_count nxt,
                        avg_leverage =
                          (avg_leverage cur * total_size_usd cur
                             + avg_leverage nxt * total_size_usd nxt)
                            / (total_size_usd cur + total_size_usd nxt) \<rparr>]
               else [cur, nxt]))"
proof -
  have nn: "\<forall>c \<in> set cs. 0 \<le> total_size_usd c" using assms(1) by force
  have p1: "\<forall>i. Suc i < length out \<longrightarrow>
            \<not> (total_size_usd (out ! i) < min_cluster_size a \<and>
               total_size_usd (out ! Suc i) < min_cluster_size a \<and>
               ((price_low (out ! Suc i) - price_high (out ! i)) / price_center (out ! i)) * 100
                 < CLUSTER_MERGE_PERCENT)"
  proof (intro allI impI)
    fix i assume i: "Suc i < length out"
    from merge_adjacent_clusters_nma [OF nn assms(2)] have "no_mergeable_adjacent a out" .
    from nma_nth [OF this i]
    show "\<not> (total_size_usd (out ! i) < min_cluster_size a \<and>
               total_size_usd (out ! Suc i) < min_cluster_size a \<and>
               ((price_low (out ! Suc i) - price_high (out ! i)) / price_center (out ! i)) * 100
                 < CLUSTER_MERGE_PERCENT)"
      unfolding should_merge_def gap_percent_def by blast
  qed
  have p2: "\<forall>c \<in> set cs. min_cluster_size a \<le> total_size_usd c \<longrightarrow> c \<in> set out"
    using merge_adjacent_clusters_keeps_significant [OF assms(2)] by blast
  from merge_adjacent_clusters_groups [OF assms(2)] obtain groups where
    gs: "concat groups = sort_key price_center cs" "list_all (\<lambda>h. h \<noteq> []) groups"
      "out = map merge_run groups" "list_all (\<lambda>h. run_merges a (hd h) (tl h)) groups"
      "\<forall>j. Suc j < length groups \<longrightarrow>
         \<not> should_merge a (merge_run (groups ! j)) (hd (groups ! Suc j))"
    by blast
  have pos: "\<forall>g \<in> set groups. \<forall>c \<in> set g. 0 < total_size_usd c"
  proof (intro ballI)
    fix g c assume "g \<in> set groups" "c \<in> set g"
    then have "c \<in> set (concat groups)" by auto
    with gs(1) have "c \<in> set cs" by simp
    with assms(1) show "0 < total_size_usd c" by force
  qed
  have p3: "\<exists>groups.
            concat groups = sort_key price_center cs \<and>
            out = map merge_run groups \<and>
            (\<forall>g \<in> set groups.
               g \<noteq> [] \<and> run_merges a (hd g) (tl g) \<and>
               (tl g = [] \<longrightarrow> merge_run g = hd g) \<and>
               (tl g \<noteq> [] \<longrightarrow>
                  price_center (merge_run g) = (price_low (hd g) + price_high (last g)) / 2) \<and>
               c_coin (merge_run g) = c_coin (hd g) \<and>
               c_side (merge_run g) = c_side (hd g) \<and>
               price_low (merge_run g) = price_low (hd g) \<and>
               price_high (merge_run g) = price_high (last g) \<and>
               total_size_usd (merge_run g) = sum_total g \<and>
               position_count (merge_run g) = sum_count g \<and>
               avg_leverage (merge_run g)
                 = sum_list (map (\<lambda>c. avg_leverage c * total_size_usd c) g) / sum_total g) \<and>
            (\<forall>j. Suc j < length groups \<longrightarrow>
               \<not> should_merge a (merge_run (groups ! j)) (hd (groups ! Suc j)))"
  proof (intro exI [where x = groups] conjI ballI)
    show "concat groups = sort_key price_center cs" by (rule gs(1))
    show "out = map merge_run groups" by (rule gs(3))
    show "\<forall>j. Suc j < length groups \<longrightarrow>
               \<not> should_merge a (merge_run (groups ! j)) (hd (groups ! Suc j))" by (rule gs(5))
  next
    fix g assume g: "g \<in> set groups"
    with gs(2) show ne: "g \<noteq> []" by (simp add: list_all_iff)
    from g gs(4) show "run_merges a (hd g) (tl g)" by (simp add: list_all_iff)
    from g pos have gp: "\<forall>c \<in> set g. 0 < total_size_usd c" by blast
    note f = merge_run_fields [OF ne gp]
    show "tl g = [] \<longrightarrow> merge_run g = hd g" by (rule f)
    show "tl g \<noteq> [] \<longrightarrow>
                  price_center (merge_run g) = (price_low (hd g) + price_high (last g)) / 2"
      by (rule f)
    show "c_coin (merge_run g) = c_coin (hd g)" by (rule f)
    show "c_side (merge_run g) = c_side (hd g)" by (rule f)
    show "price_low (merge_run g) = price_low (hd g)" by (rule f)
    show "price_high (merge_run g) = price_high (last g)" by (rule f)
    show "total_size_usd (merge_run g) = sum_total g" by (rule f)
    show "position_count (merge_run g) = sum_count g" by (rule f)
    show "avg_leverage (merge_run g)
                 = sum_list (map (\<lambda>c. avg_leverage c * total_size_usd c) g) / sum_total g"
      by (rule f)
  qed
  have p4: "\<forall>cur nxt.
            (should_merge a cur nxt \<longleftrightarrow>
               ((price_low nxt - price_high cur) / price_center cur) * 100
                 < CLUSTER_MERGE_PERCENT \<and>
               total_size_usd cur < min_cluster_size a \<and>
               total_size_usd nxt < min_cluster_size a) \<and>
            merged_cluster cur nxt =
              \<lparr> c_coin = c_coin cur, c_side = c_side cur,
                price_low = price_low cur, price_high = price_high nxt,
                price_center = (price_low cur + price_high nxt) / 2,
                total_size_usd = total_size_usd cur + total_size_usd nxt,
                position_count = position_count cur + position_count nxt,
                avg_leverage =
                  (avg_leverage cur * total_size_usd cur
                     + avg_leverage nxt * total_size_usd nxt)
                    / (total_size_usd cur + total_size_usd nxt) \<rparr>"
    by (simp add: should_merge_def gap_percent_def merged_cluster_def Let_def)
  have p5: "\<forall>cur nxt. cs = [cur, nxt] \<and> price_center cur \<le> price_center nxt \<longrightarrow>
            out =
              (if ((price_low nxt - price_high cur) / price_center cur) * 100
                    < CLUSTER_MERGE_PERCENT \<and>
                  total_size_usd cur < min_cluster_size a \<and>
                  total_size_usd nxt < min_cluster_size a
               then [\<lparr> c_coin = c_coin cur, c_side = c_side cur,
                        price_low = price_low cur, price_high = price_high nxt,
                        price_center = (price_low cur + price_high nxt) / 2,
                        total_size_usd = total_size_usd cur + total_size_usd nxt,
                        position_count = position_count cur + position_count nxt,
                        avg_leverage =
                          (avg_leverage cur * total_size_usd cur
                             + avg_leverage nxt * total_size_usd nxt)
                            / (total_size_usd cur + total_size_usd nxt) \<rparr>]
               else [cur, nxt])"
  proof (intro allI impI)
    fix cur nxt assume h: "cs = [cur, nxt] \<and> price_center cur \<le> price_center nxt"
    with assms(2)
    have "out = (if should_merge a cur nxt then [merged_cluster cur nxt] else [cur, nxt])"
      by (intro merge_adjacent_clusters_pair) auto
    then show "out =
              (if ((price_low nxt - price_high cur) / price_center cur) * 100
                    < CLUSTER_MERGE_PERCENT \<and>
                  total_size_usd cur < min_cluster_size a \<and>
                  total_size_usd nxt < min_cluster_size a
               then [\<lparr> c_coin = c_coin cur, c_side = c_side cur,
                        price_low = price_low cur, price_high = price_high nxt,
                        price_center = (price_low cur + price_high nxt) / 2,
                        total_size_usd = total_size_usd cur + total_size_usd nxt,
                        position_count = position_count cur + position_count nxt,
                        avg_leverage =
                          (avg_leverage cur * total_size_usd cur
                             + avg_leverage nxt * total_size_usd nxt)
                            / (total_size_usd cur + total_size_usd nxt) \<rparr>]
               else [cur, nxt])"
      by (simp add: should_merge_def gap_percent_def merged_cluster_def Let_def)
  qed
  from p1 p2 p3 p4 p5 show ?thesis by (intro conjI)
qed

lemma merging_pair_merged:
  "merge_adjacent_clusters default_aggregator merging_pair =
     Inr [\<lparr> c_coin = JStr ''BTC'', c_side = ''long'', price_low = 99, price_high = 994 / 10,
            price_center = 992 / 10, total_size_usd = 60000, position_count = 2,
            avg_leverage = 10 \<rparr>]"
  by (simp add: merge_adjacent_clusters_def merging_pair_def example_cluster_def agg_defaults
      should_merge_def gap_percent_def merged_cluster_def Let_def)

lemma six_clusters_merged:
  "merge_adjacent_clusters default_aggregator six_clusters =
     Inr [example_cluster ''long'' 90 (901 / 10) 30000,
          example_cluster ''long'' 95 (951 / 10) 500000,
          example_cluster ''long'' (952 / 10) (953 / 10) 30000,
          \<lparr> c_coin = JStr ''BTC'', c_side = ''long'', price_low = 99, price_high = 997 / 10,
            price_center = 9935 / 100, total_size_usd = 90000, position_count = 3,
            avg_leverage = 10 \<rparr>]"
  by (simp add: merge_adjacent_clusters_def six_clusters_def example_cluster_def agg_defaults
      should_merge_def gap_percent_def merged_cluster_def Let_def)

theorem merge_adjacent_clusters_no_small_neighbours_witness:
  "list_all (\<lambda>c. 10000 \<le> total_size_usd c) six_clusters \<and>
   (\<exists>out groups.
      merge_adjacent_clusters default_aggregator six_clusters = Inr out \<and>
      length out = 4 \<and>
      concat groups = sort_key price_center six_clusters \<and>
      out = map merge_run groups \<and>
      list_all (\<lambda>g. g \<noteq> [] \<and> run_merges default_aggregator (hd g) (tl g)) groups \<and>
      out ! 1 = example_cluster ''long'' 95 (951 / 10) 500000 \<and>
      \<not> (total_size_usd (out ! 1) < min_cluster_size default_aggregator \<and>
         total_size_usd (out ! 2) < min_cluster_size default_aggregator \<and>
         ((price_low (out ! 2) - price_high (out ! 1)) / price_center (out ! 1)) * 100
           < CLUSTER_MERGE_PERCENT) \<and>
      price_low (out ! 3) = 99 \<and> price_high (out ! 3) = 997 / 10 \<and>
      price_center (out ! 3) = 9935 / 100 \<and> total_size_usd (out ! 3) = 90000 \<and>
      position_count (out ! 3) = 3 \<and> avg_leverage (out ! 3) = 10) \<and>
   list_all (\<lambda>c. 10000 \<le> total_size_usd c) blocked_pair \<and>
   merge_adjacent_clusters default_aggregator blocked_pair = Inr blocked_pair \<and>
   \<not> (total_size_usd (blocked_pair ! 0) < min_cluster_size default_aggregator \<and>
      total_size_usd (blocked_pair ! Suc 0) < min_cluster_size default_aggregator \<and>
      ((price_low (blocked_pair ! Suc 0) - price_high (blocked_pair ! 0))
         / price_center (blocked_pair ! 0)) * 100 < CLUSTER_MERGE_PERCENT) \<and>
   list_all (\<lambda>c. 10000 \<le> total_size_usd c) merging_pair \<and>
   price_center (merging_pair ! 0) \<le> price_center (merging_pair ! 1) \<and>
   (\<exists>m. merge_adjacent_clusters default_aggregator merging_pair = Inr [m] \<and>
        total_size_usd m = 60000 \<and> position_count m = 2 \<and>
        price_low m = 99 \<and> price_high m = 994 / 10 \<and> price_center m = 992 / 10)"
proof -
  have d0: "\<forall>c \<in> set six_clusters. 10000 \<le> total_size_usd c"
    by (simp add: six_clusters_def example_cluster_def)
  have d1: "\<forall>c \<in> set blocked_pair. 10000 \<le> total_size_usd c"
    by (simp add: blocked_pair_def example_cluster_def)
  have d2: "\<forall>c \<in> set merging_pair. 10000 \<le> total_size_usd c"
    by (simp add: merging_pair_def example_cluster_def)
  note s = merge_adjacent_clusters_no_small_neighbours [OF d0 six_clusters_merged]
  note b = merge_adjacent_clusters_no_small_neighbours [OF d1 blocked_pair_kept]
  let ?out = "[example_cluster ''long'' 90 (901 / 10) 30000,
          example_cluster ''long'' 95 (951 / 10) 500000,
          example_cluster ''long'' (952 / 10) (953 / 10) 30000,
          \<lparr> c_coin = JStr ''BTC'', c_side = ''long'', price_low = 99, price_high = 997 / 10,
            price_center = 9935 / 100, total_size_usd = 90000, position_count = 3,
            avg_leverage = 10 \<rparr>]"
  note runs = s [THEN conjunct2, THEN conjunct2, THEN conjunct1]
  note apart = s [THEN conjunct1, rule_format, of 1]
  have "\<exists>groups. concat groups = sort_key price_center six_clusters \<and>
          ?out = map merge_run groups \<and>
          (\<forall>g \<in> set groups. g \<noteq> [] \<and> run_merges default_aggregator (hd g) (tl g))"
    using runs
  proof (elim exE conjE)
    fix groups
    assume c: "concat groups = sort_key price_center six_clusters"
      and m: "?out = map merge_run groups"
    assume "\<forall>g \<in> set groups.
               g \<noteq> [] \<and> run_merges default_aggregator (hd g) (tl g) \<and>
               (tl g = [] \<longrightarrow> merge_run g = hd g) \<and>
               (tl g \<noteq> [] \<longrightarrow>
                  price_center (merge_run g) = (price_low (hd g) + price_high (last g)) / 2) \<and>
               c_coin (merge_run g) = c_coin (hd g) \<and>
               c_side (merge_run g) = c_side (hd g) \<and>
               price_low (merge_run g) = price_low (hd g) \<and>
               price_high (merge_run g) = price_high (last g) \<and>
               total_size_usd (merge_run g) = sum_total g \<and>
               position_count (merge_run g) = sum_count g \<and>
               avg_leverage (merge_run g)
                 = sum_list (map (\<lambda>c. avg_leverage c * total_size_usd c) g) / sum_total g"
    then have "\<forall>g \<in> set groups. g \<noteq> [] \<and> run_merges default_aggregator (hd g) (tl g)"
      by - (intro ballI conjI; drule (1) bspec; elim conjE; assumption)
    with c m show ?thesis by (intro exI [where x = groups] conjI)
  qed
  then obtain groups where
    g: "concat groups = sort_key price_center six_clusters" "?out = map merge_run groups"
       "\<forall>g \<in> set groups. g \<noteq> [] \<and> run_merges default_aggregator (hd g) (tl g)"
    by (elim exE conjE)
  from apart have ns: "\<not> (total_size_usd (?out ! 1) < min_cluster_size default_aggregator \<and>
         total_size_usd (?out ! 2) < min_cluster_size default_aggregator \<and>
         ((price_low (?out ! 2) - price_high (?out ! 1)) / price_center (?out ! 1)) * 100
           < CLUSTER_MERGE_PERCENT)"
    by (simp add: numeral_2_eq_2)
  have six: "\<exists>out groups.
      merge_adjacent_clusters default_aggregator six_clusters = Inr out \<and>
      length out = 4 \<and>
      concat groups = sort_key price_center six_clusters \<and>
      out = map merge_run groups \<and>
      list_all (\<lambda>g. g \<noteq> [] \<and> run_merges default_aggregator (hd g) (tl g)) groups \<and>
      out ! 1 = example_cluster ''long'' 95 (951 / 10) 500000 \<and>
      \<not> (total_size_usd (out ! 1) < min_cluster_size default_aggregator \<and>
         total_size_usd (out ! 2) < min_cluster_size default_aggregator \<and>
         ((price_low (out ! 2) - price_high (out ! 1)) / price_center (out ! 1)) * 100
           < CLUSTER_MERGE_PERCENT) \<and>
      price_low (out ! 3) = 99 \<and> price_high (out ! 3) = 997 / 10 \<and>
      price_center (out ! 3) = 9935 / 100 \<and> total_size_usd (out ! 3) = 90000 \<and>
      position_count (out ! 3) = 3 \<and> avg_leverage (out ! 3) = 10"
  proof (intro exI [where x = "?out"] exI [where x = groups] conjI)
    show "merge_adjacent_clusters default_aggregator six_clusters = Inr ?out"
      by (rule six_clusters_merged)
    show "concat groups = sort_key price_center six_clusters" by (rule g(1))
    show "?out = map merge_run groups" by (rule g(2))
    show "list_all (\<lambda>g. g \<noteq> [] \<and> run_merges default_aggregator (hd g) (tl g)) groups"
      using g(3) by (simp add: list_all_iff)
    show "\<not> (total_size_usd (?out ! 1) < min_cluster_size default_aggregator \<and>
         total_size_usd (?out ! 2) < min_cluster_size default_aggregator \<and>
         ((price_low (?out ! 2) - price_high (?out ! 1)) / price_center (?out ! 1)) * 100
           < CLUSTER_MERGE_PERCENT)" by (rule ns)
  qed (simp_all add: numeral_3_eq_3)
  have len: "Suc 0 < length blocked_pair" by (simp add: blocked_pair_def)
  from b [THEN conjunct1, rule_format, of 0] len
  have nb: "\<not> (total_size_usd (blocked_pair ! 0) < min_cluster_size default_aggregator \<and>
      total_size_usd (blocked_pair ! Suc 0) < min_cluster_size default_aggregator \<and>
      ((price_low (blocked_pair ! Suc 0) - price_high (blocked_pair ! 0))
         / price_center (blocked_pair ! 0)) * 100 < CLUSTER_MERGE_PERCENT)"
    by blast
  have ord: "price_center (merging_pair ! 0) \<le> price_center (merging_pair ! 1)"
    by (simp add: merging_pair_def example_cluster_def)
  show ?thesis
    using d0 d1 d2 six blocked_pair_kept nb ord merging_pair_merged
    by (simp add: list_all_iff)
qed

section \<open>Properties of the liquidation map\<close>

subsection \<open>Order and nearest clusters\<close>

lemmas agg_defs = aggregate_levels_def aggregate_to_clusters_def buckets_to_clusters_def
  bucket_cluster_def bucket_total_def bucket_to_price_range_def price_to_bucket_def py_int_def
  merge_adjacent_clusters_def should_merge_def gap_percent_def merged_cluster_def
  example_level_def empty_map_def sum_total_def Let_def

lemma example_levels_map:
  "aggregate_levels default_aggregator example_levels 100 ''BTC'' = Inr example_map"
  by (simp add: example_levels_def example_map_def example_cluster_def agg_defs agg_defaults)

lemma find_sorted_wrt_first:
  "sorted_wrt R xs \<Longrightarrow> find P xs = Some x \<Longrightarrow> y \<in> set xs \<Longrightarrow> P y \<Longrightarrow> y = x \<or> R x y"
  by (induction xs) (auto split: if_splits)

lemma find_Some_set: "find P xs = Some x \<Longrightarrow> x \<in> set xs \<and> P x"
  by (induction xs) (auto split: if_splits)

lemma find_None_set: "find P xs = None \<Longrightarrow> \<forall>x \<in> set xs. \<not> P x"
  by (induction xs) (auto split: if_splits)

lemma sorted_wrt_sort_key_desc:
  "sorted_wrt (\<lambda>c d. price_center d \<le> price_center c) (sort_key (\<lambda>c. (p::real) - price_center c) cs)"
proof -
  have "sorted (map (\<lambda>c. p - price_center c) (sort_key (\<lambda>c. p - price_center c) cs))"
    by (rule sorted_sort_key)
  then show ?thesis by (simp add: sorted_wrt_map)
qed

lemma sorted_wrt_sort_key_asc:
  "sorted_wrt (\<lambda>c d. price_center c \<le> price_center d) (sort_key (\<lambda>c. price_center c - (p::real)) cs)"
proof -
  have "sorted (map (\<lambda>c. price_center c - p) (sort_key (\<lambda>c. price_center c - p) cs))"
    by (rule sorted_sort_key)
  then show ?thesis by (simp add: sorted_wrt_map)
qed


lemma aggregate_levels_shape:
  assumes "aggregate_levels a levels price coin = Inr m"
  shows "\<exists>lcs scs.
           long_liquidations m = sort_key (\<lambda>c. price - price_center c) lcs \<and>
           short_liquidations m = sort_key (\<lambda>c. price_center c - price) scs \<and>
           nearest_long_cluster m =
             find (\<lambda>c. min_cluster_size a \<le> total_size_usd c) (long_liquidations m) \<and>
           nearest_short_cluster m =
             find (\<lambda>c. min_cluster_size a \<le> total_size_usd c) (short_liquidations m)"
proof (cases "levels = [] \<or> price \<le> 0")
  case True
  with assms have "m = empty_map coin price" by (auto simp: aggregate_levels_def)
  then have "long_liquidations m = sort_key (\<lambda>c. price - price_center c) [] \<and>
           short_liquidations m = sort_key (\<lambda>c. price_center c - price) [] \<and>
           nearest_long_cluster m =
             find (\<lambda>c. min_cluster_size a \<le> total_size_usd c) (long_liquidations m) \<and>
           nearest_short_cluster m =
             find (\<lambda>c. min_cluster_size a \<le> total_size_usd c) (short_liquidations m)"
    by (simp add: empty_map_def)
  then show ?thesis by blast
next
  case False
  with assms show ?thesis
    by (auto simp: aggregate_levels_def Let_def split: sum.splits)
qed

text \<open>
  Claim C5. In every map \<open>aggregate_levels\<close> returns, the long list is in decreasing and the
  short list in increasing order of \<open>price_center\<close>; each nearest cluster is the first one of
  its list at or above the aggregator's \<open>min_cluster_size\<close> (\<open>MIN_CLUSTER_SIZE_USD\<close> by
  default); it is absent exactly when no cluster of that side reaches the threshold, and
  when present no cluster of that side at or above the threshold has a larger (long) or
  smaller (short) \<open>price_center\<close>. A map is returned whenever the bucket width is positive
  and every level's price is positive (\<open>aggregate_levels_returns\<close>, further down).
\<close>

theorem aggregate_levels_nearest_clusters:
  assumes "aggregate_levels a levels price coin = Inr m"
  shows "sorted_wrt (\<lambda>c d. price_center d \<le> price_center c) (long_liquidations m) \<and>
         sorted_wrt (\<lambda>c d. price_center c \<le> price_center d) (short_liquidations m) \<and>
         nearest_long_cluster m =
           find (\<lambda>c. min_cluster_size a \<le> total_size_usd c) (long_liquidations m) \<and>
         nearest_short_cluster m =
           find (\<lambda>c. min_cluster_size a \<le> total_size_usd c) (short_liquidations m) \<and>
         (case nearest_long_cluster m of
            None \<Rightarrow> \<forall>c \<in> set (long_liquidations m). total_size_usd c < min_cluster_size a
          | Some n \<Rightarrow>
              n \<in> set (long_liquidations m) \<and> min_cluster_size a \<le> total_size_usd n \<and>
              (\<forall>c \<in> set (long_liquidations m).
                 min_cluster_size a \<le> total_size_usd c \<longrightarrow> price_center c \<le> price_center n)) \<and>
         (case nearest_short_cluster m of
            None \<Rightarrow> \<forall>c \<in> set (short_liquidations m). total_size_usd c < min_cluster_size a
          | Some n \<Rightarrow>
              n \<in> set (short_liquidations m) \<and> min_cluster_size a \<le> total_size_usd n \<and>
              (\<forall>c \<in> set (short_liquidations m).
                 min_cluster_size a \<le> total_size_usd c \<longrightarrow> price_center n \<le> price_center c))"
proof -
  from aggregate_levels_shape [OF assms] obtain lcs scs where
    l: "long_liquidations m = sort_key (\<lambda>c. price - price_center c) lcs" and
    s: "short_liquidations m = sort_key (\<lambda>c. price_center c - price) scs" and
    nl: "nearest_long_cluster m =
           find (\<lambda>c. min_cluster_size a \<le> total_size_usd c) (long_liquidations m)" and
    ns: "nearest_short_cluster m =
           find (\<lambda>c. min_cluster_size a \<le> total_size_usd c) (short_liquidations m)"
    by blast
  have sl: "sorted_wrt (\<lambda>c d. price_center d \<le> price_center c) (long_liquidations m)"
    unfolding l by (rule sorted_wrt_sort_key_desc)
  have ss: "sorted_wrt (\<lambda>c d. price_center c \<le> price_center d) (short_liquidations m)"
    unfolding s by (rule sorted_wrt_sort_key_asc)
  have pl: "case nearest_long_cluster m of
            None \<Rightarrow> \<forall>c \<in> set (long_liquidations m). total_size_usd c < min_cluster_size a
          | Some n \<Rightarrow>
              n \<in> set (long_liquidations m) \<and> min_cluster_size a \<le> total_size_usd n \<and>
              (\<forall>c \<in> set (long_liquidations m).
                 min_cluster_size a \<le> total_size_usd c \<longrightarrow> price_center c \<le> price_center n)"
  proof (cases "nearest_long_cluster m")
    case None
    with nl find_None_set [of "\<lambda>c. min_cluster_size a \<le> total_size_usd c" "long_liquidations m"]
    show ?thesis by (simp add: not_le)
  next
    case (Some n)
    with nl have f: "find (\<lambda>c. min_cluster_size a \<le> total_size_usd c) (long_liquidations m) = Some n"
      by simp
    from find_Some_set [OF f] find_sorted_wrt_first [OF sl f] Some show ?thesis by auto
  qed
  have ps: "case nearest_short_cluster m of
            None \<Rightarrow> \<forall>c \<in> set (short_liquidations m). total_size_usd c < min_cluster_size a
          | Some n \<Rightarrow>
              n \<in> set (short_liquidations m) \<and> min_cluster_size a \<le> total_size_usd n \<and>
              (\<forall>c \<in> set (short_liquidations m).
                 min_cluster_size a \<le> total_size_usd c \<longrightarrow> price_center n \<le> price_center c)"
  proof (cases "nearest_short_cluster m")
    case None
    with ns find_None_set [of "\<lambda>c. min_cluster_size a \<le> total_size_usd c" "short_liquidations m"]
    show ?thesis by (simp add: not_le)
  next
    case (Some n)
    with ns have f: "find (\<lambda>c. min_cluster_size a \<le> total_size_usd c) (short_liquidations m) = Some n"
      by simp
    from find_Some_set [OF f] find_sorted_wrt_first [OF ss f] Some show ?thesis by auto
  qed
  from sl ss nl ns pl ps show ?thesis by blast
qed

theorem aggregate_levels_nearest_clusters_witness:
  "aggregate_levels default_aggregator example_levels 100 ''BTC'' = Inr example_map \<and>
   nearest_long_cluster example_map = Some (example_cluster ''long'' 98 (981 / 10) 200000) \<and>
   nearest_short_cluster example_map = Some (example_cluster ''short'' 101 (1011 / 10) 200000) \<and>
   example_cluster ''long'' 90 (901 / 10) 300000 \<in> set (long_liquidations example_map) \<and>
   min_cluster_size default_aggregator \<le> total_size_usd (example_cluster ''long'' 90 (901 / 10) 300000) \<and>
   price_center (example_cluster ''long'' 90 (901 / 10) 300000)
     \<le> price_center (example_cluster ''long'' 98 (981 / 10) 200000) \<and>
   sorted_wrt (\<lambda>c d. price_center d \<le> price_center c) (long_liquidations example_map) \<and>
   sorted_wrt (\<lambda>c d. price_center c \<le> price_center d) (short_liquidations example_map)"
proof -
  note t = aggregate_levels_nearest_clusters [OF example_levels_map]
  have nl: "nearest_long_cluster example_map = Some (example_cluster ''long'' 98 (981 / 10) 200000)"
    and ns: "nearest_short_cluster example_map = Some (example_cluster ''short'' 101 (1011 / 10) 200000)"
    and mem: "example_cluster ''long'' 90 (901 / 10) 300000 \<in> set (long_liquidations example_map)"
    by (simp_all add: example_map_def)
  have sig: "min_cluster_size default_aggregator \<le> total_size_usd (example_cluster ''long'' 90 (901 / 10) 300000)"
    by (simp add: example_cluster_def agg_defaults)
  from t nl mem sig have "price_center (example_cluster ''long'' 90 (901 / 10) 300000)
     \<le> price_center (example_cluster ''long'' 98 (981 / 10) 200000)"
    by auto
  with t nl ns mem sig example_levels_map show ?thesis by blast
qed

subsection \<open>Bucketing truncates\<close>

lemma price_to_bucket_floor_above:
  assumes "0 < reference_price" and "0 < bucket_percent a" and "reference_price \<le> price"
  shows "price_to_bucket a price reference_price =
           Inr \<lfloor>(((price - reference_price) / reference_price) * 100) / bucket_percent a\<rfloor>"
proof -
  have "0 \<le> (((price - reference_price) / reference_price) * 100) / bucket_percent a"
    using assms by simp
  with assms show ?thesis by (simp add: price_to_bucket_def py_int_def Let_def)
qed

lemma price_to_bucket_ceiling_below:
  assumes "0 < reference_price" and "0 < bucket_percent a" and "price < reference_price"
  shows "price_to_bucket a price reference_price =
           Inr \<lceil>(((price - reference_price) / reference_price) * 100) / bucket_percent a\<rceil>"
proof -
  have "(((price - reference_price) / reference_price) * 100) / bucket_percent a < 0"
    using assms by (simp add: divide_neg_pos)
  with assms show ?thesis by (simp add: price_to_bucket_def py_int_def Let_def ceiling_def)
qed

lemma boundary_level_bucket:
  "price_to_bucket default_aggregator (999 / 10) 100 = Inr (- 1) \<and>
   long_liquidations
     (projr (aggregate_levels default_aggregator [example_level ''long'' (999 / 10) 20000] 100 ''BTC''))
     = [example_cluster ''long'' (999 / 10) 100 20000] \<and>
   price_center (example_cluster ''long'' (999 / 10) 100 20000) = 9995 / 100"
  by (simp add: example_cluster_def agg_defs agg_defaults)

text \<open>
  Claim C1, at the input where the code departs from it. The claim places a level in bucket
  \<open>floor(((p - current_price) / current_price) * 100 / B)\<close>. \<open>_price_to_bucket\<close> computes
  \<open>int(pct_diff / bucket_percent)\<close>, which truncates toward zero. For a level at 99.95 with a
  current price of 100 the quotient is \<open>-1/2\<close>: the code answers bucket 0, the floor is \<open>-1\<close>.
  \<open>_bucket_to_price_range\<close> reports \<open>[100, 100.1]\<close> for bucket 0, a range that does not hold the
  level; the range of bucket \<open>-1\<close>, \<open>[99.9, 100]\<close>, does.
\<close>

theorem price_to_bucket_truncates_toward_zero:
  "price_to_bucket default_aggregator (1999 / 20) 100 = Inr 0 \<and>
   \<lfloor>(((1999 / 20 - 100) / 100) * 100) / PRICE_BUCKET_PERCENT\<rfloor> = (- 1 :: int) \<and>
   bucket_to_price_range default_aggregator 0 100 = (100, 1001 / 10) \<and>
   bucket_to_price_range default_aggregator (- 1) 100 = (999 / 10, 100)"
  by (simp add: price_to_bucket_def py_int_def bucket_to_price_range_def Let_def agg_defaults)

subsection \<open>What the clusters account for\<close>

lemma bucket_append_wsum:
  fixes w :: "real LiquidationLevel \<Rightarrow> 'a::comm_monoid_add"
  shows "sum_list (map (\<lambda>kv. sum_list (map w (snd kv))) (filter (\<lambda>kv. Q (fst kv)) (bucket_append b l bs)))
       = sum_list (map (\<lambda>kv. sum_list (map w (snd kv))) (filter (\<lambda>kv. Q (fst kv)) bs))
         + (if Q b then w l else 0)"
  by (induction b l bs rule: bucket_append.induct) (auto simp: ac_simps)

lemma group_by_bucket_wsum:
  fixes w :: "real LiquidationLevel \<Rightarrow> 'a::comm_monoid_add"
  assumes "group_by_bucket a r ls bs0 = Inr bs"
  shows "sum_list (map (\<lambda>kv. sum_list (map w (snd kv))) (filter (\<lambda>kv. Q (fst kv)) bs))
       = sum_list (map (\<lambda>kv. sum_list (map w (snd kv))) (filter (\<lambda>kv. Q (fst kv)) bs0))
         + sum_list (map w (filter (\<lambda>l. \<exists>b. price_to_bucket a (l_price l) r = Inr b \<and> Q b) ls))"
  using assms
proof (induction ls arbitrary: bs0)
  case Nil
  then show ?case by simp
next
  case (Cons l ls)
  then obtain b where b: "price_to_bucket a (l_price l) r = Inr b"
    and run: "group_by_bucket a r ls (bucket_append b l bs0) = Inr bs"
    by (auto split: sum.splits)
  have f: "filter (\<lambda>l. \<exists>b. price_to_bucket a (l_price l) r = Inr b \<and> Q b) (l # ls)
      = (if Q b then [l] else []) @ filter (\<lambda>l. \<exists>b. price_to_bucket a (l_price l) r = Inr b \<and> Q b) ls"
    using b by simp
  show ?case
    unfolding f Cons.IH [OF run] bucket_append_wsum
    by (cases "Q b") (simp_all add: add.assoc)
qed

lemma bucket_append_keys:
  "fst ` set (bucket_append b l bs) = insert b (fst ` set bs)"
  by (induction b l bs rule: bucket_append.induct) auto

lemma bucket_append_distinct:
  "distinct (map fst bs) \<Longrightarrow> distinct (map fst (bucket_append b l bs))"
proof (induction b l bs rule: bucket_append.induct)
  case (1 b l)
  then show ?case by simp
next
  case (2 b l k ls bs)
  show ?case
  proof (cases "k = b")
    case True
    with 2 show ?thesis by simp
  next
    case False
    with 2 have "distinct (map fst (bucket_append b l bs))" by simp
    moreover have "k \<notin> fst ` set (bucket_append b l bs)"
      using 2(2) False by (simp add: bucket_append_keys)
    ultimately show ?thesis using False by simp
  qed
qed

lemma group_by_bucket_distinct:
  "group_by_bucket a r ls bs0 = Inr bs \<Longrightarrow> distinct (map fst bs0) \<Longrightarrow> distinct (map fst bs)"
proof (induction ls arbitrary: bs0)
  case Nil
  then show ?case by simp
next
  case (Cons l ls)
  then show ?case by (auto split: sum.splits intro: bucket_append_distinct)
qed

lemma distinct_keys_single:
  fixes w :: "real LiquidationLevel \<Rightarrow> 'a::comm_monoid_add"
  shows "distinct (map fst bs) \<Longrightarrow> (k, v) \<in> set bs \<Longrightarrow>
   sum_list (map (\<lambda>kv. sum_list (map w (snd kv))) (filter (\<lambda>kv. fst kv = k) bs)) = sum_list (map w v)"
proof (induction bs)
  case Nil
  then show ?case by simp
next
  case (Cons x bs)
  show ?case
  proof (cases "x = (k, v)")
    case True
    with Cons.prems have "filter (\<lambda>kv. fst kv = k) bs = []"
      by (auto simp: filter_empty_conv)
    with True show ?thesis by simp
  next
    case False
    with Cons.prems have "fst x \<noteq> k" by (cases x) force
    with Cons False show ?thesis by auto
  qed
qed


lemma group_by_bucket_all_Inr:
  "group_by_bucket a r ls bs0 = Inr bs \<Longrightarrow> l \<in> set ls \<Longrightarrow>
   \<exists>b. price_to_bucket a (l_price l) r = Inr b"
proof (induction ls arbitrary: bs0)
  case Nil
  then show ?case by simp
next
  case (Cons x ls)
  then show ?case by (auto split: sum.splits)
qed

lemma group_by_bucket_bucket_total:
  assumes g: "group_by_bucket a r ls [] = Inr bs" and kv: "kv \<in> set bs"
  shows "bucket_total (snd kv)
         = bucket_total (filter (\<lambda>l. price_to_bucket a (l_price l) r = Inr (fst kv)) ls)"
proof -
  have d: "distinct (map fst bs)" using group_by_bucket_distinct [OF g] by simp
  from kv have m: "(fst kv, snd kv) \<in> set bs" by simp
  have "bucket_total (snd kv)
        = sum_list (map (\<lambda>x. sum_list (map l_size_usd (snd x))) (filter (\<lambda>x. fst x = fst kv) bs))"
    using distinct_keys_single [OF d m, of l_size_usd] by (simp add: bucket_total_def)
  also have "\<dots> = sum_list (map l_size_usd
        (filter (\<lambda>l. \<exists>b. price_to_bucket a (l_price l) r = Inr b \<and> b = fst kv) ls))"
    using group_by_bucket_wsum [OF g, of l_size_usd "\<lambda>k. k = fst kv"] by simp
  finally show ?thesis by (simp add: bucket_total_def)
qed

lemma sum_list_ones: "sum_list (map (\<lambda>_. 1::int) xs) = int (length xs)"
  by (induction xs) auto

lemma buckets_to_clusters_sums:
  assumes g: "group_by_bucket a r ls [] = Inr bs"
  shows "sum_total (buckets_to_clusters a r s bs) = bucket_total (filter (passes_dust_floor a r ls) ls)"
    and "sum_count (buckets_to_clusters a r s bs) = int (length (filter (passes_dust_floor a r ls) ls))"
proof -
  define Qd where "Qd k \<longleftrightarrow>
    \<not> bucket_total (filter (\<lambda>l. price_to_bucket a (l_price l) r = Inr k) ls) < 10000" for k
  have keep: "filter (\<lambda>kv. \<not> bucket_total (snd kv) < 10000) bs = filter (\<lambda>kv. Qd (fst kv)) bs"
    by (rule filter_cong) (auto simp: Qd_def group_by_bucket_bucket_total [OF g])
  have lv: "filter (\<lambda>l. \<exists>b. price_to_bucket a (l_price l) r = Inr b \<and> Qd b) ls
            = filter (passes_dust_floor a r ls) ls"
  proof (rule filter_cong)
    fix l assume "l \<in> set ls"
    from group_by_bucket_all_Inr [OF g this] obtain b where "price_to_bucket a (l_price l) r = Inr b"
      by blast
    then show "(\<exists>b. price_to_bucket a (l_price l) r = Inr b \<and> Qd b) = passes_dust_floor a r ls l"
      by (simp add: Qd_def passes_dust_floor_def)
  qed simp
  have "sum_total (buckets_to_clusters a r s bs)
        = sum_list (map (\<lambda>kv. sum_list (map l_size_usd (snd kv))) (filter (\<lambda>kv. Qd (fst kv)) bs))"
    unfolding buckets_to_clusters_def keep
    by (simp add: sum_total_def bucket_cluster_def Let_def bucket_total_def comp_def)
  also have "\<dots> = sum_list (map l_size_usd (filter (passes_dust_floor a r ls) ls))"
    using group_by_bucket_wsum [OF g, of l_size_usd Qd] by (simp add: lv)
  finally show "sum_total (buckets_to_clusters a r s bs)
                = bucket_total (filter (passes_dust_floor a r ls) ls)"
    by (simp add: bucket_total_def)
  have "sum_count (buckets_to_clusters a r s bs)
        = sum_list (map (\<lambda>kv. sum_list (map (\<lambda>_. 1::int) (snd kv))) (filter (\<lambda>kv. Qd (fst kv)) bs))"
    unfolding buckets_to_clusters_def keep
    by (simp add: sum_count_def bucket_cluster_def Let_def comp_def sum_list_ones)
  also have "\<dots> = sum_list (map (\<lambda>_. 1::int) (filter (passes_dust_floor a r ls) ls))"
    using group_by_bucket_wsum [OF g, of "\<lambda>_. 1::int" Qd] by (simp add: lv)
  finally show "sum_count (buckets_to_clusters a r s bs)
                = int (length (filter (passes_dust_floor a r ls) ls))"
    by (simp add: sum_list_ones)
qed

lemma merge_loop_side:
  "merge_loop a cur rest merged = Inr out \<Longrightarrow>
   \<forall>c \<in> set merged \<union> {cur} \<union> set rest. c_side c = s \<Longrightarrow>
   \<forall>c \<in> set out. c_side c = s"
proof (induction rest arbitrary: cur merged)
  case Nil
  then show ?case by auto
next
  case (Cons n rest)
  show ?case
  proof (cases "should_merge a cur n")
    case True
    with Cons.prems(1) have run: "merge_loop a (merged_cluster cur n) rest merged = Inr out"
      by (auto split: if_splits)
    have "c_side (merged_cluster cur n) = c_side cur" by (simp add: merged_cluster_def Let_def)
    with Cons.prems(2) have "\<forall>c \<in> set merged \<union> {merged_cluster cur n} \<union> set rest. c_side c = s"
      by auto
    from Cons.IH [OF run this] show ?thesis .
  next
    case False
    with Cons.prems(1) have run: "merge_loop a n rest (merged @ [cur]) = Inr out"
      by (auto split: if_splits)
    from Cons.prems(2) have "\<forall>c \<in> set (merged @ [cur]) \<union> {n} \<union> set rest. c_side c = s" by auto
    from Cons.IH [OF run this] show ?thesis .
  qed
qed

lemma merge_adjacent_clusters_side:
  assumes "merge_adjacent_clusters a cs = Inr out" and "\<forall>c \<in> set cs. c_side c = s"
  shows "\<forall>c \<in> set out. c_side c = s"
proof (cases "length cs < 2")
  case True
  with assms show ?thesis by (simp add: merge_adjacent_clusters_def)
next
  case False
  show ?thesis
  proof (cases "sort_key price_center cs")
    case Nil
    then have "cs = []" by (metis length_sort list.size(3) length_0_conv)
    with False show ?thesis by simp
  next
    case (Cons d rest)
    with assms(1) False have run: "merge_loop a d rest [] = Inr out"
      by (simp add: merge_adjacent_clusters_def)
    have "set (d # rest) = set cs" by (metis Cons set_sort)
    with assms(2) have "\<forall>c \<in> set [] \<union> {d} \<union> set rest. c_side c = s" by auto
    from merge_loop_side [OF run this] show ?thesis .
  qed
qed

lemma aggregate_to_clusters_accounts:
  assumes "aggregate_to_clusters a ls r s = Inr cs"
  shows "sum_total cs = bucket_total (filter (passes_dust_floor a r ls) ls) \<and>
         sum_count cs = int (length (filter (passes_dust_floor a r ls) ls)) \<and>
         (\<forall>c \<in> set cs. c_side c = s)"
proof (cases "ls = []")
  case True
  with assms show ?thesis
    by (simp add: aggregate_to_clusters_def sum_total_def sum_count_def bucket_total_def)
next
  case False
  with assms obtain bs where g: "group_by_bucket a r ls [] = Inr bs"
    and m: "merge_adjacent_clusters a (buckets_to_clusters a r s bs) = Inr cs"
    by (auto simp: aggregate_to_clusters_def split: sum.splits)
  have "\<forall>c \<in> set (buckets_to_clusters a r s bs). c_side c = s"
    by (simp add: buckets_to_clusters_def bucket_cluster_def Let_def)
  from merge_adjacent_clusters_side [OF m this]
    merge_adjacent_clusters_sum_total [OF m] merge_adjacent_clusters_sum_count [OF m]
    buckets_to_clusters_sums [OF g, of s]
  show ?thesis by simp
qed


text \<open>
  Claim C4, as amended. For a positive current price, every map \<open>aggregate_levels\<close> returns
  accounts for exactly the levels that pass the dust floor: the long clusters all carry
  side long, their sizes sum to \<open>total_long_at_risk_usd\<close>, which equals the sum of \<open>size_usd\<close>
  over the input long levels whose bucket holds at least 10,000 USD, and their position
  counts sum to the number of those levels; likewise for shorts. Levels in a bucket below
  the floor (and levels whose side is neither long nor short) are in no cluster and in no
  total. A map is returned whenever the bucket width is positive and every level's price
  is positive (\<open>aggregate_levels_returns\<close>, further down).
\<close>

theorem aggregate_levels_accounts_for_retained_levels:
  assumes "aggregate_levels a levels price coin = Inr m" and "0 < price"
  shows "total_long_at_risk_usd m = sum_total (long_liquidations m) \<and>
         total_long_at_risk_usd m = bucket_total (retained_levels a price ''long'' levels) \<and>
         sum_count (long_liquidations m) = int (length (retained_levels a price ''long'' levels)) \<and>
         (\<forall>c \<in> set (long_liquidations m). c_side c = ''long'') \<and>
         total_short_at_risk_usd m = sum_total (short_liquidations m) \<and>
         total_short_at_risk_usd m = bucket_total (retained_levels a price ''short'' levels) \<and>
         sum_count (short_liquidations m) = int (length (retained_levels a price ''short'' levels)) \<and>
         (\<forall>c \<in> set (short_liquidations m). c_side c = ''short'')"
proof (cases "levels = []")
  case True
  with assms have "m = empty_map coin price" by (simp add: aggregate_levels_def)
  with True show ?thesis
    by (simp add: empty_map_def retained_levels_def levels_of_side_def sum_total_def
        sum_count_def bucket_total_def)
next
  case False
  with assms obtain lcs scs where
    lc: "aggregate_to_clusters a (levels_of_side ''long'' levels) price ''long'' = Inr lcs" and
    sc: "aggregate_to_clusters a (levels_of_side ''short'' levels) price ''short'' = Inr scs" and
    m: "m = \<lparr> m_coin = coin, current_price = price,
              long_liquidations = sort_key (\<lambda>c. price - price_center c) lcs,
              short_liquidations = sort_key (\<lambda>c. price_center c - price) scs,
              total_long_at_risk_usd = sum_total (sort_key (\<lambda>c. price - price_center c) lcs),
              total_short_at_risk_usd = sum_total (sort_key (\<lambda>c. price_center c - price) scs),
              nearest_long_cluster =
                find (\<lambda>c. min_cluster_size a \<le> total_size_usd c)
                  (sort_key (\<lambda>c. price - price_center c) lcs),
              nearest_short_cluster =
                find (\<lambda>c. min_cluster_size a \<le> total_size_usd c)
                  (sort_key (\<lambda>c. price_center c - price) scs) \<rparr>"
    by (auto simp: aggregate_levels_def levels_of_side_def Let_def split: sum.splits)
  note l = aggregate_to_clusters_accounts [OF lc]
  note s = aggregate_to_clusters_accounts [OF sc]
  from l s show ?thesis
    unfolding m retained_levels_def
    by (simp add: sum_total_sort_key sum_count_sort_key)
qed

text \<open>
  Claim C4 as stated fails: a single long level of 5,000 USD at 99 with a current price of
  100 is in no cluster, and \<open>total_long_at_risk_usd\<close> is 0, not 5,000.
\<close>

theorem aggregate_levels_drops_dust_levels:
  "aggregate_levels default_aggregator dust_levels 100 ''BTC'' = Inr (empty_map ''BTC'' 100) \<and>
   dust_levels \<noteq> [] \<and>
   long_liquidations (empty_map ''BTC'' 100) = [] \<and>
   total_long_at_risk_usd (empty_map ''BTC'' 100)
     \<noteq> bucket_total (levels_of_side ''long'' dust_levels)"
  by (simp add: dust_levels_def levels_of_side_def agg_defs agg_defaults)

theorem aggregate_levels_accounts_for_retained_levels_witness:
  "aggregate_levels default_aggregator example_levels 100 ''BTC'' = Inr example_map \<and>
   (0::real) < 100 \<and>
   total_long_at_risk_usd example_map
     = bucket_total (retained_levels default_aggregator 100 ''long'' example_levels) \<and>
   total_long_at_risk_usd example_map = 500000 \<and>
   sum_count (long_liquidations example_map)
     = int (length (retained_levels default_aggregator 100 ''long'' example_levels)) \<and>
   sum_count (long_liquidations example_map) = 2 \<and>
   length (levels_of_side ''long'' example_levels) = 3 \<and>
   total_short_at_risk_usd example_map
     = bucket_total (retained_levels default_aggregator 100 ''short'' example_levels) \<and>
   total_short_at_risk_usd example_map = 240000"
proof -
  have p: "(0::real) < 100" by simp
  note t = aggregate_levels_accounts_for_retained_levels [OF example_levels_map p]
  have v: "total_long_at_risk_usd example_map = 500000"
    "sum_count (long_liquidations example_map) = 2"
    "total_short_at_risk_usd example_map = 240000"
    by (simp_all add: example_map_def example_cluster_def sum_count_def)
  have n: "length (levels_of_side ''long'' example_levels) = 3"
    by (simp add: example_levels_def example_level_def levels_of_side_def)
  from t v n example_levels_map show ?thesis by simp
qed

section \<open>Properties of the scanner\<close>

subsection \<open>The state of a scan\<close>

lemma bind_err_simps:
  "bind_err (Inl e) f = Inl e" "bind_err (Inr v) f = f v"
  by (simp_all add: bind_err_def)

lemma bind_err_Inr:
  "bind_err r f = Inr y \<Longrightarrow> \<exists>v. r = Inr v \<and> f v = Inr y"
  by (cases r) (simp_all add: bind_err_def)

lemma levels_of_positions_append:
  "levels_of_positions (ps @ qs) = levels_of_positions ps @ levels_of_positions qs"
  by (induction ps) (auto split: option.splits)

lemma process_positions_state:
  "process_positions st ps = Inr st' \<Longrightarrow>
   all_positions st' = all_positions st @ filter kept_position ps \<and>
   levels_found st' = levels_found st @ levels_of_positions (filter kept_position ps) \<and>
   error_count st' = error_count st"
proof (induction ps arbitrary: st)
  case Nil
  then show ?case by simp
next
  case (Cons p ps)
  from Cons.prems obtain st1 where
    s1: "process_position st p = Inr st1" and s2: "process_positions st1 ps = Inr st'"
    by (auto dest: bind_err_Inr)
  from s1 have "all_positions st1 = all_positions st @ filter kept_position [p] \<and>
     levels_found st1 = levels_found st @ levels_of_positions (filter kept_position [p]) \<and>
     error_count st1 = error_count st"
    by (auto simp: process_position_def kept_position_def split: if_splits option.splits)
  with Cons.IH [OF s2] show ?case
    by (simp add: levels_of_positions_append [symmetric] del: levels_of_positions.simps)
qed

lemma process_positions_append:
  "process_positions st (ps @ qs) = bind_err (process_positions st ps) (\<lambda>st'. process_positions st' qs)"
proof (induction ps arbitrary: st)
  case Nil
  then show ?case by (simp add: bind_err_simps)
next
  case (Cons p ps)
  then show ?case by (cases "process_position st p") (simp_all add: bind_err_simps)
qed

lemma process_results_scan_wallet:
  "process_results st (map (scan_wallet str_float api) ws)
   = process_positions st (concat (map (\<lambda>w. get_user_positions str_float w (api w)) ws))"
proof (induction ws arbitrary: st)
  case Nil
  then show ?case by simp
next
  case (Cons w ws)
  then show ?case by (simp add: scan_wallet_def process_positions_append)
qed

lemma process_batches_concat:
  "process_batches str_float api st bs
   = process_positions st (concat (map (\<lambda>w. get_user_positions str_float w (api w)) (concat bs)))"
proof (induction bs arbitrary: st)
  case Nil
  then show ?case by simp
next
  case (Cons b bs)
  then show ?case by (simp add: process_results_scan_wallet process_positions_append)
qed

lemma concat_batches_prefix:
  "concat (map (\<lambda>k. take n (drop (k * n) xs)) [0 ..< j]) = take (j * n) xs"
proof (induction j)
  case 0
  then show ?case by simp
next
  case (Suc j)
  have "take (j * n) xs @ take n (drop (j * n) xs) = take (j * n + n) xs"
    by (simp add: take_add)
  with Suc show ?case by (simp add: add.commute)
qed

lemma concat_batches:
  assumes "0 < n"
  shows "concat (batches n xs) = xs"
proof -
  have "length xs \<le> (length xs + n - 1) div n * n"
  proof -
    have "length xs + n - 1 < ((length xs + n - 1) div n + 1) * n"
      using assms by (metis Suc_eq_plus1 dividend_less_div_times mult.commute add.commute div_mult_self1_is_m less_add_same_cancel1 mult_Suc)
    then show ?thesis using assms by simp
  qed
  then show ?thesis
    by (simp add: batches_def concat_batches_prefix)
qed


lemma scan_wallets_state:
  assumes "scan_wallets str_float api wallets = Inr r"
  shows "liquidation_levels r
           = levels_of_positions (filter kept_position (scanned_positions str_float api wallets)) \<and>
         total_positions_found r
           = length (filter kept_position (scanned_positions str_float api wallets)) \<and>
         errors r = 0"
proof -
  let ?st0 = "\<lparr> all_positions = [], by_coin = [], levels_found = [], error_count = 0 \<rparr>"
  from assms obtain st where
    b: "process_batches str_float api ?st0
          (batches API_REQUESTS_PER_SECOND (take MAX_WALLETS_TO_TRACK wallets)) = Inr st" and
    r: "liquidation_levels r = levels_found st" "total_positions_found r = length (all_positions st)"
       "errors r = error_count st"
    by (auto simp: scan_wallets_def Let_def dest!: bind_err_Inr)
  have "concat (batches API_REQUESTS_PER_SECOND (take MAX_WALLETS_TO_TRACK wallets))
        = take MAX_WALLETS_TO_TRACK wallets"
    by (rule concat_batches) (simp add: API_REQUESTS_PER_SECOND_def)
  with b have "process_positions ?st0 (scanned_positions str_float api wallets) = Inr st"
    by (simp add: process_batches_concat scanned_positions_def)
  from process_positions_state [OF this] r show ?thesis by simp
qed

lemma scan_wallets_errors_zero:
  "scan_wallets str_float api wallets = Inr r \<Longrightarrow> errors r = 0"
  by (simp add: scan_wallets_state)

lemma get_user_positions_failed_query:
  "get_user_positions str_float wallet (Inl e) = []"
  by (simp add: get_user_positions_def bind_err_simps)

lemmas scan_defs = scan_wallets_def batches_def process_position_def scan_wallet_def
  get_user_positions_def parse_position_def parse_liquidation_px_def dict_get_def py_iter_def
  py_float_def bind_err_def level_of_position_def side_def is_long_def position_json_def
  decimal_float_def unsigned_decimal_def digit_of_def py_sum_def FLOAT_OVERFLOW_def
  MAX_WALLETS_TO_TRACK_def
  API_REQUESTS_PER_SECOND_def MIN_POSITION_VALUE_USD_def Let_def

text \<open>
  Claim C7, at the input where the code departs from it. One wallet whose request raises:
  the scan returns with \<open>errors = 0\<close>, although one wallet query failed. Both
  \<open>get_user_positions\<close> and \<open>scan_wallet\<close> catch every \<open>Exception\<close> and return \<open>[]\<close>, so no entry of
  \<open>results\<close> is an exception and \<open>errors += 1\<close> is never reached (\<open>scan_wallets_errors_zero\<close>:
  the counter is 0 after every scan). The failed wallet does contribute no positions
  (\<open>get_user_positions_failed_query\<close>).
\<close>

theorem scan_wallets_failed_query_not_counted:
  "scan_wallets decimal_float failing_api [''0xdead''] =
     Inr \<lparr> total_wallets_scanned = 1, total_positions_found = 0,
           total_long_exposure_usd = Num 0, total_short_exposure_usd = Num 0,
           liquidation_levels = [], positions_by_coin = [], errors = 0 \<rparr> \<and>
   failed_queries failing_api [''0xdead''] = [''0xdead'']"
  by (simp add: scan_defs failing_api_def failed_queries_def)

text \<open>
  Claim C8 as stated fails. A position whose \<open>liquidationPx\<close> is the string \<open>"0"\<close> gives a level
  with price 0, not a positive one; and the JSON number 0, a number \<open>float\<close> accepts, gives no
  liquidation price because it is falsy. A position whose \<open>positionValue\<close> is the string
  \<open>"nan"\<close> gives a level whose size is \<open>nan\<close>, which is not greater than 0: the test
  \<open>nan < MIN_POSITION_VALUE_USD\<close> is false, so the position is not filtered out.
\<close>

theorem scan_wallets_zero_liquidation_price:
  "scan_wallets decimal_float zero_liq_api [''0xabc''] =
     Inr \<lparr> total_wallets_scanned = 1, total_positions_found = 1,
           total_long_exposure_usd = Num 5000, total_short_exposure_usd = Num 0,
           liquidation_levels =
             [\<lparr> l_price = Num 0, l_size_usd = Num 5000, l_side = ''long'',
                l_wallet = ''0xabc'', l_coin = JStr ''BTC'', l_leverage = Num 10 \<rparr>],
           positions_by_coin =
             [(JStr ''BTC'',
               [\<lparr> p_wallet = ''0xabc'', p_coin = JStr ''BTC'', p_size = Num 1,
                  entry_price = Num 90000, liquidation_price = Some (Num 0),
                  p_leverage = Num 10, notional_value = Num 5000, unrealized_pnl = Num 0,
                  margin_used = Num 500 \<rparr>])],
           errors = 0 \<rparr> \<and>
   \<not> pf_less (Num 0) (Num 0) \<and>
   py_float decimal_float (JNum 0) = Inr (Num 0) \<and>
   parse_liquidation_px decimal_float (JObj [(''liquidationPx'', JNum 0)]) = Inr None \<and>
   scan_wallets decimal_float nan_value_api [''0xabc''] =
     Inr \<lparr> total_wallets_scanned = 1, total_positions_found = 1,
           total_long_exposure_usd = NaN, total_short_exposure_usd = Num 0,
           liquidation_levels =
             [\<lparr> l_price = Num (170001 / 2), l_size_usd = NaN, l_side = ''long'',
                l_wallet = ''0xabc'', l_coin = JStr ''BTC'', l_leverage = Num 10 \<rparr>],
           positions_by_coin =
             [(JStr ''BTC'',
               [\<lparr> p_wallet = ''0xabc'', p_coin = JStr ''BTC'', p_size = Num 1,
                  entry_price = Num 90000, liquidation_price = Some (Num (170001 / 2)),
                  p_leverage = Num 10, notional_value = NaN, unrealized_pnl = Num 0,
                  margin_used = Num 500 \<rparr>])],
           errors = 0 \<rparr> \<and>
   \<not> pf_less (Num 0) NaN"
  by (simp add: scan_defs zero_liq_api_def nan_value_api_def)


subsection \<open>Levels and liquidation prices\<close>

lemma levels_of_positions_set:
  "set (levels_of_positions ps)
   = {level_of_position p liq | p liq. p \<in> set ps \<and> liquidation_price p = Some liq}"
  by (induction ps) (auto split: option.splits)

lemma kept_position_size:
  assumes "\<not> pf_less (pf_abs v) (Num MIN_POSITION_VALUE_USD)"
  shows "pf_abs v = NaN \<or> pf_abs v = PosInf \<or>
         (\<exists>x. pf_abs v = Num x \<and> MIN_POSITION_VALUE_USD \<le> x \<and> 0 < x)"
  using assms by (cases v) (auto simp: MIN_POSITION_VALUE_USD_def)

lemma parse_liquidation_px_no_price:
  assumes "map_of kvs ''liquidationPx'' = None \<or>
           map_of kvs ''liquidationPx'' = Some JNull \<or>
           map_of kvs ''liquidationPx'' = Some (JStr ''null'')"
  shows "parse_liquidation_px str_float (JObj kvs) = Inr None"
  using assms by (auto simp: parse_liquidation_px_def dict_get_def bind_err_def)

lemma parse_liquidation_px_price:
  "parse_liquidation_px str_float pos = Inr (Some x) \<longleftrightarrow>
   (\<exists>v. dict_get pos ''liquidationPx'' JNull = Inr v \<and> truthy v \<and> v \<noteq> JStr ''null'' \<and>
        py_float str_float v = Inr x)"
proof (cases "dict_get pos ''liquidationPx'' JNull")
  case (Inl e)
  then show ?thesis by (simp add: parse_liquidation_px_def bind_err_def)
next
  case (Inr v)
  then show ?thesis
    by (cases "py_float str_float v") (auto simp: parse_liquidation_px_def bind_err_def)
qed

lemma parse_liquidation_px_none:
  "parse_liquidation_px str_float pos = Inr None \<longleftrightarrow>
   (\<exists>v. dict_get pos ''liquidationPx'' JNull = Inr v \<and> \<not> (truthy v \<and> v \<noteq> JStr ''null''))"
proof (cases "dict_get pos ''liquidationPx'' JNull")
  case (Inl e)
  then show ?thesis by (simp add: parse_liquidation_px_def bind_err_def)
next
  case (Inr v)
  then show ?thesis
    by (cases "py_float str_float v") (auto simp: parse_liquidation_px_def bind_err_def)
qed

lemma parse_liquidation_px_rule:
  assumes "parse_liquidation_px str_float pos = Inr lp"
  shows "\<exists>v. dict_get pos ''liquidationPx'' JNull = Inr v \<and>
             (if truthy v \<and> v \<noteq> JStr ''null''
              then \<exists>x. py_float str_float v = Inr x \<and> lp = Some x
              else lp = None)"
proof (cases lp)
  case None
  with assms show ?thesis by (auto simp: parse_liquidation_px_none)
next
  case (Some x)
  with assms show ?thesis by (auto simp: parse_liquidation_px_price)
qed

lemma parse_position_fields:
  assumes "parse_position str_float wallet pos = Inr (Some p)"
  shows "p_wallet p = wallet \<and>
         parse_liquidation_px str_float pos = Inr (liquidation_price p) \<and>
         (\<exists>pv value. dict_get pos ''positionValue'' (JNum 0) = Inr pv \<and>
            py_float str_float pv = Inr value \<and> notional_value p = pf_abs value)"
proof -
  from assms obtain szi size where
    "dict_get pos ''szi'' (JNum 0) = Inr szi" "py_float str_float szi = Inr size" and
    r1: "(if pf_less (pf_abs size) (Num (1 / 10000)) then Inr None
       else
     bind_err (dict_get pos ''leverage'' (JObj [])) (\<lambda>leverage_info.
     bind_err (dict_get leverage_info ''value'' (JNum 1)) (\<lambda>lv.
     bind_err (py_float str_float lv) (\<lambda>leverage.
     bind_err (parse_liquidation_px str_float pos) (\<lambda>liq_px.
     bind_err (dict_get pos ''coin'' (JStr [])) (\<lambda>coin.
     bind_err (dict_get pos ''entryPx'' (JNum 0)) (\<lambda>epx.
     bind_err (py_float str_float epx) (\<lambda>entry.
     bind_err (dict_get pos ''positionValue'' (JNum 0)) (\<lambda>pv.
     bind_err (py_float str_float pv) (\<lambda>value.
     bind_err (dict_get pos ''unrealizedPnl'' (JNum 0)) (\<lambda>upnl.
     bind_err (py_float str_float upnl) (\<lambda>pnl.
     bind_err (dict_get pos ''marginUsed'' (JNum 0)) (\<lambda>mu.
     bind_err (py_float str_float mu) (\<lambda>margin.
       Inr (Some \<lparr> p_wallet = wallet, p_coin = coin, p_size = size, entry_price = entry,
                    liquidation_price = liq_px, p_leverage = leverage,
                    notional_value = pf_abs value, unrealized_pnl = pnl,
                    margin_used = margin \<rparr>))))))))))))))) = Inr (Some p)"
    unfolding parse_position_def by (blast dest!: bind_err_Inr)
  then have r2: "bind_err (dict_get pos ''leverage'' (JObj [])) (\<lambda>leverage_info.
     bind_err (dict_get leverage_info ''value'' (JNum 1)) (\<lambda>lv.
     bind_err (py_float str_float lv) (\<lambda>leverage.
     bind_err (parse_liquidation_px str_float pos) (\<lambda>liq_px.
     bind_err (dict_get pos ''coin'' (JStr [])) (\<lambda>coin.
     bind_err (dict_get pos ''entryPx'' (JNum 0)) (\<lambda>epx.
     bind_err (py_float str_float epx) (\<lambda>entry.
     bind_err (dict_get pos ''positionValue'' (JNum 0)) (\<lambda>pv.
     bind_err (py_float str_float pv) (\<lambda>value.
     bind_err (dict_get pos ''unrealizedPnl'' (JNum 0)) (\<lambda>upnl.
     bind_err (py_float str_float upnl) (\<lambda>pnl.
     bind_err (dict_get pos ''marginUsed'' (JNum 0)) (\<lambda>mu.
     bind_err (py_float str_float mu) (\<lambda>margin.
       Inr (Some \<lparr> p_wallet = wallet, p_coin = coin, p_size = size, entry_price = entry,
                    liquidation_price = liq_px, p_leverage = leverage,
                    notional_value = pf_abs value, unrealized_pnl = pnl,
                    margin_used = margin \<rparr>)))))))))))))) = Inr (Some p)"
    by (simp split: if_splits)
  then show ?thesis
    by (elim bind_err_Inr [elim_format] exE conjE) auto
qed

text \<open>
  The positions the loop over \<open>assetPositions\<close> returns, when it returns: those it started
  with, and one for each entry whose \<open>position\<close> object is not empty and not dust.
\<close>

lemma parse_asset_positions_set:
  "parse_asset_positions str_float wallet items acc = Inr ps \<Longrightarrow>
   set ps = set acc \<union>
     {p. \<exists>item \<in> set items. \<exists>pos. dict_get item ''position'' (JObj []) = Inr pos \<and>
            truthy pos \<and> parse_position str_float wallet pos = Inr (Some p)}"
proof (induction items arbitrary: acc)
  case Nil
  then show ?case by simp
next
  case (Cons item items)
  let ?from = "\<lambda>its. {p. \<exists>item \<in> set its. \<exists>pos. dict_get item ''position'' (JObj []) = Inr pos \<and>
            truthy pos \<and> parse_position str_float wallet pos = Inr (Some p)}"
  from Cons.prems obtain pos where
    pos: "dict_get item ''position'' (JObj []) = Inr pos" and
    r: "(if \<not> truthy pos then parse_asset_positions str_float wallet items acc
         else bind_err (parse_position str_float wallet pos) (\<lambda>r.
           case r of
             None \<Rightarrow> parse_asset_positions str_float wallet items acc
           | Some q \<Rightarrow> parse_asset_positions str_float wallet items (acc @ [q]))) = Inr ps"
    by (auto dest!: bind_err_Inr)
  show ?case
  proof (cases "truthy pos")
    case False
    with r have "parse_asset_positions str_float wallet items acc = Inr ps" by simp
    from Cons.IH [OF this] have "set ps = set acc \<union> ?from items" .
    moreover from pos False have "?from (item # items) = ?from items" by auto
    ultimately show ?thesis by simp
  next
    case True
    with r obtain res where res: "parse_position str_float wallet pos = Inr res" and
      r2: "(case res of
             None \<Rightarrow> parse_asset_positions str_float wallet items acc
           | Some q \<Rightarrow> parse_asset_positions str_float wallet items (acc @ [q])) = Inr ps"
      by (auto dest!: bind_err_Inr)
    show ?thesis
    proof (cases res)
      case None
      with r2 have "parse_asset_positions str_float wallet items acc = Inr ps" by simp
      from Cons.IH [OF this] have "set ps = set acc \<union> ?from items" .
      moreover from pos res None have "?from (item # items) = ?from items" by auto
      ultimately show ?thesis by simp
    next
      case (Some q)
      with r2 have "parse_asset_positions str_float wallet items (acc @ [q]) = Inr ps" by simp
      from Cons.IH [OF this] have "set ps = set (acc @ [q]) \<union> ?from items" .
      moreover from pos res Some True have "?from (item # items) = {q} \<union> ?from items" by auto
      ultimately show ?thesis by auto
    qed
  qed
qed

lemma get_user_positions_origin:
  assumes "p \<in> set (get_user_positions str_float wallet response)"
  shows "\<exists>state aps items item pos.
           response = Inr state \<and> dict_get state ''assetPositions'' (JArr []) = Inr aps \<and>
           py_iter aps = Inr items \<and> item \<in> set items \<and>
           dict_get item ''position'' (JObj []) = Inr pos \<and> truthy pos \<and>
           parse_position str_float wallet pos = Inr (Some p)"
proof -
  let ?run = "bind_err response (\<lambda>state.
             bind_err (dict_get state ''assetPositions'' (JArr [])) (\<lambda>aps.
             bind_err (py_iter aps) (\<lambda>items.
               parse_asset_positions str_float wallet items [])))"
  from assms obtain ps where ps: "?run = Inr ps" and m: "p \<in> set ps"
    by (cases ?run) (auto simp: get_user_positions_def)
  from ps obtain state aps items where
    c: "response = Inr state" "dict_get state ''assetPositions'' (JArr []) = Inr aps"
       "py_iter aps = Inr items" "parse_asset_positions str_float wallet items [] = Inr ps"
    by (blast dest!: bind_err_Inr)
  from parse_asset_positions_set [OF c(4)] m obtain item pos where
    "item \<in> set items" "dict_get item ''position'' (JObj []) = Inr pos" "truthy pos"
    "parse_position str_float wallet pos = Inr (Some p)"
    by auto
  with c(1,2,3) show ?thesis by blast
qed

lemma get_user_positions_complete:
  assumes "response = Inr state" and "dict_get state ''assetPositions'' (JArr []) = Inr aps"
      and "py_iter aps = Inr items"
      and "parse_asset_positions str_float wallet items [] = Inr ps"
      and "item \<in> set items" and "dict_get item ''position'' (JObj []) = Inr pos"
      and "truthy pos" and "parse_position str_float wallet pos = Inr (Some p)"
  shows "p \<in> set (get_user_positions str_float wallet response)"
proof -
  from assms(1-4) have "get_user_positions str_float wallet response = ps"
    by (simp add: get_user_positions_def bind_err_simps)
  moreover from parse_asset_positions_set [OF assms(4)] assms(5-8) have "p \<in> set ps" by auto
  ultimately show ?thesis by simp
qed

lemma scanned_positions_origin:
  assumes "p \<in> set (scanned_positions str_float api wallets)"
  shows "p_wallet p \<in> set (take MAX_WALLETS_TO_TRACK wallets) \<and>
         (\<exists>state aps items item pos v pv value.
            api (p_wallet p) = Inr state \<and>
            dict_get state ''assetPositions'' (JArr []) = Inr aps \<and>
            py_iter aps = Inr items \<and> item \<in> set items \<and>
            dict_get item ''position'' (JObj []) = Inr pos \<and> truthy pos \<and>
            parse_position str_float (p_wallet p) pos = Inr (Some p) \<and>
            dict_get pos ''positionValue'' (JNum 0) = Inr pv \<and>
            py_float str_float pv = Inr value \<and> notional_value p = pf_abs value \<and>
            dict_get pos ''liquidationPx'' JNull = Inr v \<and>
            (if truthy v \<and> v \<noteq> JStr ''null''
             then \<exists>x. py_float str_float v = Inr x \<and> liquidation_price p = Some x
             else liquidation_price p = None))"
proof -
  from assms obtain w where w: "w \<in> set (take MAX_WALLETS_TO_TRACK wallets)"
    and p: "p \<in> set (get_user_positions str_float w (api w))"
    by (auto simp: scanned_positions_def)
  from get_user_positions_origin [OF p] obtain state aps items item pos where
    o: "api w = Inr state" "dict_get state ''assetPositions'' (JArr []) = Inr aps"
       "py_iter aps = Inr items" "item \<in> set items"
       "dict_get item ''position'' (JObj []) = Inr pos" "truthy pos"
       "parse_position str_float w pos = Inr (Some p)"
    by blast
  from parse_position_fields [OF o(7)] obtain pv "value" where
    f: "p_wallet p = w" "parse_liquidation_px str_float pos = Inr (liquidation_price p)"
       "dict_get pos ''positionValue'' (JNum 0) = Inr pv" "py_float str_float pv = Inr value"
       "notional_value p = pf_abs value"
    by blast
  from parse_liquidation_px_rule [OF f(2)] obtain v where
    v: "dict_get pos ''liquidationPx'' JNull = Inr v"
       "if truthy v \<and> v \<noteq> JStr ''null''
        then \<exists>x. py_float str_float v = Inr x \<and> liquidation_price p = Some x
        else liquidation_price p = None"
    by blast
  from w f(1) have "p_wallet p \<in> set (take MAX_WALLETS_TO_TRACK wallets)" by simp
  moreover from o f v have "\<exists>state aps items item pos v pv value.
            api (p_wallet p) = Inr state \<and>
            dict_get state ''assetPositions'' (JArr []) = Inr aps \<and>
            py_iter aps = Inr items \<and> item \<in> set items \<and>
            dict_get item ''position'' (JObj []) = Inr pos \<and> truthy pos \<and>
            parse_position str_float (p_wallet p) pos = Inr (Some p) \<and>
            dict_get pos ''positionValue'' (JNum 0) = Inr pv \<and>
            py_float str_float pv = Inr value \<and> notional_value p = pf_abs value \<and>
            dict_get pos ''liquidationPx'' JNull = Inr v \<and>
            (if truthy v \<and> v \<noteq> JStr ''null''
             then \<exists>x. py_float str_float v = Inr x \<and> liquidation_price p = Some x
             else liquidation_price p = None)"
    by (intro exI [where x = state] exI [where x = aps] exI [where x = items]
        exI [where x = item] exI [where x = pos] exI [where x = v] exI [where x = pv]
        exI [where x = "value"]) simp
  ultimately show ?thesis by (rule conjI)
qed

lemma scanned_positions_complete:
  assumes "w \<in> set (take MAX_WALLETS_TO_TRACK wallets)"
      and "api w = Inr state" and "dict_get state ''assetPositions'' (JArr []) = Inr aps"
      and "py_iter aps = Inr items"
      and "parse_asset_positions str_float w items [] = Inr ps"
      and "item \<in> set items" and "dict_get item ''position'' (JObj []) = Inr pos"
      and "truthy pos" and "parse_position str_float w pos = Inr (Some p)"
  shows "p \<in> set (scanned_positions str_float api wallets)"
  using get_user_positions_complete [OF assms(2-9)] assms(1)
  by (auto simp: scanned_positions_def)

text \<open>
  Claim C8, as amended. In every result of \<open>scan_wallets\<close> the levels are exactly the levels
  of the kept positions, in scan order: a position that \<open>get_user_positions\<close> returned gives
  a level exactly when its notional is not below \<open>MIN_POSITION_VALUE_USD\<close> and its
  \<open>liquidation_price\<close> is not \<open>None\<close>, and the level carries that price and that notional.
  So the \<open>size_usd\<close> of a level is never below \<open>MIN_POSITION_VALUE_USD\<close>: it is \<open>nan\<close>, or infinite,
  or a number that is at least \<open>MIN_POSITION_VALUE_USD\<close> and hence positive. The price of a
  level is not checked at all.

  Every position of the scan comes from an entry of the \<open>assetPositions\<close> of its wallet's
  response: its notional is \<open>abs(float(...))\<close> of the entry's \<open>positionValue\<close>, and its
  \<open>liquidation_price\<close> is \<open>float(...)\<close> of the entry's \<open>liquidationPx\<close> when that value is truthy
  and not the string \<open>"null"\<close>, and \<open>None\<close> otherwise. Conversely, when the loop over a wallet's
  entries returns, every entry that parses to a position is among the positions of the
  scan. (When \<open>float\<close> raises on some field of some entry, the wallet contributes no
  position at all: \<open>get_user_positions\<close> returns \<open>[]\<close>.)

  So \<open>liquidation_price\<close> is \<open>None\<close> when the key is absent, JSON \<open>null\<close> or the string \<open>"null"\<close>;
  it is a number \<open>x\<close> exactly when the venue sent a truthy value other than \<open>"null"\<close> on which
  \<open>float\<close> returns \<open>x\<close>; and it is \<open>None\<close> exactly when the venue sent a falsy value or \<open>"null"\<close>.
  None is invented. The scan returns whenever every position's coin is hashable
  (\<open>scan_wallets_returns\<close>, further down): a list or an object as \<open>coin\<close> raises \<open>TypeError\<close> at
  \<open>positions_by_coin\<close>.
\<close>

theorem scan_wallets_levels_of_kept_positions:
  assumes "scan_wallets str_float api wallets = Inr r"
  shows "liquidation_levels r
           = levels_of_positions (filter kept_position (scanned_positions str_float api wallets)) \<and>
         (\<forall>l \<in> set (liquidation_levels r).
            \<not> pf_less (l_size_usd l) (Num MIN_POSITION_VALUE_USD) \<and>
            (l_size_usd l = NaN \<or> l_size_usd l = PosInf \<or>
             (\<exists>x. l_size_usd l = Num x \<and> MIN_POSITION_VALUE_USD \<le> x \<and> 0 < x)) \<and>
            (\<exists>p. p \<in> set (scanned_positions str_float api wallets) \<and>
                 \<not> pf_less (notional_value p) (Num MIN_POSITION_VALUE_USD) \<and>
                 liquidation_price p = Some (l_price l) \<and>
                 l = level_of_position p (l_price l))) \<and>
         (\<forall>p \<in> set (scanned_positions str_float api wallets). \<forall>liq.
            \<not> pf_less (notional_value p) (Num MIN_POSITION_VALUE_USD) \<and>
            liquidation_price p = Some liq \<longrightarrow>
            level_of_position p liq \<in> set (liquidation_levels r)) \<and>
         (\<forall>p \<in> set (scanned_positions str_float api wallets).
            p_wallet p \<in> set (take MAX_WALLETS_TO_TRACK wallets) \<and>
            (\<exists>state aps items item pos v pv value.
               api (p_wallet p) = Inr state \<and>
               dict_get state ''assetPositions'' (JArr []) = Inr aps \<and>
               py_iter aps = Inr items \<and> item \<in> set items \<and>
               dict_get item ''position'' (JObj []) = Inr pos \<and> truthy pos \<and>
               parse_position str_float (p_wallet p) pos = Inr (Some p) \<and>
               dict_get pos ''positionValue'' (JNum 0) = Inr pv \<and>
               py_float str_float pv = Inr value \<and> notional_value p = pf_abs value \<and>
               dict_get pos ''liquidationPx'' JNull = Inr v \<and>
               (if truthy v \<and> v \<noteq> JStr ''null''
                then \<exists>x. py_float str_float v = Inr x \<and> liquidation_price p = Some x
                else liquidation_price p = None))) \<and>
         (\<forall>w \<in> set (take MAX_WALLETS_TO_TRACK wallets). \<forall>state aps items ps item pos p.
            api w = Inr state \<and> dict_get state ''assetPositions'' (JArr []) = Inr aps \<and>
            py_iter aps = Inr items \<and>
            parse_asset_positions str_float w items [] = Inr ps \<and>
            item \<in> set items \<and> dict_get item ''position'' (JObj []) = Inr pos \<and>
            truthy pos \<and> parse_position str_float w pos = Inr (Some p) \<longrightarrow>
            p \<in> set (scanned_positions str_float api wallets)) \<and>
         (\<forall>kvs. map_of kvs ''liquidationPx'' = None \<or>
                map_of kvs ''liquidationPx'' = Some JNull \<or>
                map_of kvs ''liquidationPx'' = Some (JStr ''null'') \<longrightarrow>
                parse_liquidation_px str_float (JObj kvs) = Inr None) \<and>
         (\<forall>pos x. parse_liquidation_px str_float pos = Inr (Some x) \<longleftrightarrow>
            (\<exists>v. dict_get pos ''liquidationPx'' JNull = Inr v \<and> truthy v \<and>
                 v \<noteq> JStr ''null'' \<and> py_float str_float v = Inr x)) \<and>
         (\<forall>pos. parse_liquidation_px str_float pos = Inr None \<longleftrightarrow>
            (\<exists>v. dict_get pos ''liquidationPx'' JNull = Inr v \<and>
                 \<not> (truthy v \<and> v \<noteq> JStr ''null'')))"
proof -
  let ?sp = "scanned_positions str_float api wallets"
  from scan_wallets_state [OF assms]
  have eq: "liquidation_levels r = levels_of_positions (filter kept_position ?sp)" by simp
  have a: "\<forall>l \<in> set (liquidation_levels r).
            \<not> pf_less (l_size_usd l) (Num MIN_POSITION_VALUE_USD) \<and>
            (l_size_usd l = NaN \<or> l_size_usd l = PosInf \<or>
             (\<exists>x. l_size_usd l = Num x \<and> MIN_POSITION_VALUE_USD \<le> x \<and> 0 < x)) \<and>
            (\<exists>p. p \<in> set ?sp \<and>
                 \<not> pf_less (notional_value p) (Num MIN_POSITION_VALUE_USD) \<and>
                 liquidation_price p = Some (l_price l) \<and>
                 l = level_of_position p (l_price l))"
  proof
    fix l assume "l \<in> set (liquidation_levels r)"
    with eq obtain p liq where p: "p \<in> set ?sp" "kept_position p"
      "liquidation_price p = Some liq" "l = level_of_position p liq"
      by (auto simp: levels_of_positions_set)
    then have lp: "l_price l = liq" "l_size_usd l = notional_value p"
      by (simp_all add: level_of_position_def)
    from p(2) have k: "\<not> pf_less (notional_value p) (Num MIN_POSITION_VALUE_USD)"
      by (simp add: kept_position_def)
    from scanned_positions_origin [OF p(1)] obtain v where "notional_value p = pf_abs v"
      by blast
    with k kept_position_size [of v]
    have "notional_value p = NaN \<or> notional_value p = PosInf \<or>
          (\<exists>x. notional_value p = Num x \<and> MIN_POSITION_VALUE_USD \<le> x \<and> 0 < x)"
      by simp
    with k p lp
    show "\<not> pf_less (l_size_usd l) (Num MIN_POSITION_VALUE_USD) \<and>
            (l_size_usd l = NaN \<or> l_size_usd l = PosInf \<or>
             (\<exists>x. l_size_usd l = Num x \<and> MIN_POSITION_VALUE_USD \<le> x \<and> 0 < x)) \<and>
            (\<exists>p. p \<in> set ?sp \<and>
                 \<not> pf_less (notional_value p) (Num MIN_POSITION_VALUE_USD) \<and>
                 liquidation_price p = Some (l_price l) \<and>
                 l = level_of_position p (l_price l))"
      by auto
  qed
  have b: "\<forall>p \<in> set ?sp. \<forall>liq.
            \<not> pf_less (notional_value p) (Num MIN_POSITION_VALUE_USD) \<and>
            liquidation_price p = Some liq \<longrightarrow>
            level_of_position p liq \<in> set (liquidation_levels r)"
    unfolding eq levels_of_positions_set by (auto simp: kept_position_def)
  have c: "\<forall>p \<in> set ?sp.
            p_wallet p \<in> set (take MAX_WALLETS_TO_TRACK wallets) \<and>
            (\<exists>state aps items item pos v pv value.
               api (p_wallet p) = Inr state \<and>
               dict_get state ''assetPositions'' (JArr []) = Inr aps \<and>
               py_iter aps = Inr items \<and> item \<in> set items \<and>
               dict_get item ''position'' (JObj []) = Inr pos \<and> truthy pos \<and>
               parse_position str_float (p_wallet p) pos = Inr (Some p) \<and>
               dict_get pos ''positionValue'' (JNum 0) = Inr pv \<and>
               py_float str_float pv = Inr value \<and> notional_value p = pf_abs value \<and>
               dict_get pos ''liquidationPx'' JNull = Inr v \<and>
               (if truthy v \<and> v \<noteq> JStr ''null''
                then \<exists>x. py_float str_float v = Inr x \<and> liquidation_price p = Some x
                else liquidation_price p = None))"
    by (intro ballI) (rule scanned_positions_origin)
  have c': "\<forall>w \<in> set (take MAX_WALLETS_TO_TRACK wallets). \<forall>state aps items ps item pos p.
            api w = Inr state \<and> dict_get state ''assetPositions'' (JArr []) = Inr aps \<and>
            py_iter aps = Inr items \<and>
            parse_asset_positions str_float w items [] = Inr ps \<and>
            item \<in> set items \<and> dict_get item ''position'' (JObj []) = Inr pos \<and>
            truthy pos \<and> parse_position str_float w pos = Inr (Some p) \<longrightarrow>
            p \<in> set ?sp"
    by (intro ballI allI impI, elim conjE) (rule scanned_positions_complete)
  have d: "\<forall>kvs. map_of kvs ''liquidationPx'' = None \<or>
                map_of kvs ''liquidationPx'' = Some JNull \<or>
                map_of kvs ''liquidationPx'' = Some (JStr ''null'') \<longrightarrow>
                parse_liquidation_px str_float (JObj kvs) = Inr None"
    using parse_liquidation_px_no_price by blast
  have e: "\<forall>pos x. parse_liquidation_px str_float pos = Inr (Some x) \<longleftrightarrow>
            (\<exists>v. dict_get pos ''liquidationPx'' JNull = Inr v \<and> truthy v \<and>
                 v \<noteq> JStr ''null'' \<and> py_float str_float v = Inr x)"
    by (intro allI) (rule parse_liquidation_px_price)
  have f: "\<forall>pos. parse_liquidation_px str_float pos = Inr None \<longleftrightarrow>
            (\<exists>v. dict_get pos ''liquidationPx'' JNull = Inr v \<and>
                 \<not> (truthy v \<and> v \<noteq> JStr ''null''))"
    by (intro allI) (rule parse_liquidation_px_none)
  from eq a b c c' d e f show ?thesis by (intro conjI)
qed


lemma mixed_api_scan:
  "scan_wallets decimal_float mixed_api [''0xabc''] =
     Inr \<lparr> total_wallets_scanned = 1, total_positions_found = 3,
           total_long_exposure_usd = Num 12000, total_short_exposure_usd = Num 6000,
           liquidation_levels =
             [\<lparr> l_price = Num (170001 / 2), l_size_usd = Num 5000, l_side = ''long'',
                l_wallet = ''0xabc'', l_coin = JStr ''BTC'', l_leverage = Num 10 \<rparr>],
           positions_by_coin =
             [(JStr ''BTC'',
               [\<lparr> p_wallet = ''0xabc'', p_coin = JStr ''BTC'', p_size = Num 1,
                  entry_price = Num 90000, liquidation_price = Some (Num (170001 / 2)),
                  p_leverage = Num 10, notional_value = Num 5000, unrealized_pnl = Num 0,
                  margin_used = Num 500 \<rparr>]),
              (JStr ''ETH'',
               [\<lparr> p_wallet = ''0xabc'', p_coin = JStr ''ETH'', p_size = Num (- 2),
                  entry_price = Num 90000, liquidation_price = None, p_leverage = Num 10,
                  notional_value = Num 6000, unrealized_pnl = Num 0,
                  margin_used = Num 500 \<rparr>]),
              (JStr ''SOL'',
               [\<lparr> p_wallet = ''0xabc'', p_coin = JStr ''SOL'', p_size = Num 3,
                  entry_price = Num 90000, liquidation_price = None, p_leverage = Num 10,
                  notional_value = Num 7000, unrealized_pnl = Num 0,
                  margin_used = Num 500 \<rparr>])],
           errors = 0 \<rparr>"
  by (simp add: scan_defs mixed_api_def)

theorem scan_wallets_levels_of_kept_positions_witness:
  "(\<exists>r. scan_wallets decimal_float mixed_api [''0xabc''] = Inr r \<and>
        total_positions_found r = 3 \<and>
        liquidation_levels r
          = levels_of_positions
              (filter kept_position (scanned_positions decimal_float mixed_api [''0xabc''])) \<and>
        liquidation_levels r =
          [\<lparr> l_price = Num (170001 / 2), l_size_usd = Num 5000, l_side = ''long'',
             l_wallet = ''0xabc'', l_coin = JStr ''BTC'', l_leverage = Num 10 \<rparr>] \<and>
        list_all (\<lambda>l. \<not> pf_less (l_size_usd l) (Num MIN_POSITION_VALUE_USD))
          (liquidation_levels r)) \<and>
   length (scanned_positions decimal_float mixed_api [''0xabc'']) = 4 \<and>
   parse_liquidation_px decimal_float (JObj []) = Inr None \<and>
   parse_liquidation_px decimal_float (JObj [(''liquidationPx'', JNull)]) = Inr None \<and>
   parse_liquidation_px decimal_float (JObj [(''liquidationPx'', JStr ''null'')]) = Inr None \<and>
   parse_liquidation_px decimal_float (JObj [(''liquidationPx'', JStr ''85000.5'')])
     = Inr (Some (Num (170001 / 2)))"
proof -
  note t = scan_wallets_levels_of_kept_positions [OF mixed_api_scan]
  note levels = t [THEN conjunct1]
  note sizes = t [THEN conjunct2, THEN conjunct1]
  note no_price = t [THEN conjunct2, THEN conjunct2, THEN conjunct2, THEN conjunct2,
    THEN conjunct2, THEN conjunct1, rule_format]
  note price = t [THEN conjunct2, THEN conjunct2, THEN conjunct2, THEN conjunct2,
    THEN conjunct2, THEN conjunct2, THEN conjunct1, rule_format]
  have n: "length (scanned_positions decimal_float mixed_api [''0xabc'']) = 4"
    by (simp add: scanned_positions_def scan_defs mixed_api_def)
  have none: "parse_liquidation_px decimal_float (JObj []) = Inr None"
    "parse_liquidation_px decimal_float (JObj [(''liquidationPx'', JNull)]) = Inr None"
    "parse_liquidation_px decimal_float (JObj [(''liquidationPx'', JStr ''null'')]) = Inr None"
    by (rule no_price, simp)+
  have some: "parse_liquidation_px decimal_float (JObj [(''liquidationPx'', JStr ''85000.5'')])
     = Inr (Some (Num (170001 / 2)))"
    unfolding price by (simp add: scan_defs)
  have big: "list_all (\<lambda>l. \<not> pf_less (l_size_usd l) (Num MIN_POSITION_VALUE_USD))
     [\<lparr> l_price = Num (170001 / 2), l_size_usd = Num 5000, l_side = ''long'',
             l_wallet = ''0xabc'', l_coin = JStr ''BTC'', l_leverage = Num 10 \<rparr>]"
    using sizes by (simp add: list_all_iff)
  from levels big mixed_api_scan n none some show ?thesis by simp
qed

section \<open>Retention on the day of a cutoff\<close>

text \<open>
  Claim C2, at inputs where the code departs from it. The run is on 2024-02-01 at 12:45:00
  UTC; the two rows were written by the collector 30 days 35 minutes and 1 day 9 hours 38
  minutes earlier. The live run deletes neither: the first is older than 30 days, the
  second is between 1 and 7 days old with minute 07. The stored text has \<open>T\<close> after the date
  where \<open>datetime('now', ...)\<close> has a blank, and \<open>T\<close> sorts after the blank, so on the calendar
  day of a cutoff every stored timestamp compares as later than the cutoff, whatever its
  time of day.
\<close>

theorem run_maintenance_keeps_boundary_day_rows:
  "map r_timestamp boundary_rows
     = [''2024-01-02T12:10:00+00:00'', ''2024-01-31T03:07:00+00:00''] \<and>
   sqlite_datetime run_instant = ''2024-02-01 12:45:00'' \<and>
   sqlite_datetime (run_instant - 30 * 86400) = ''2024-01-02 12:45:00'' \<and>
   sqlite_datetime (run_instant - 1 * 86400) = ''2024-01-31 12:45:00'' \<and>
   30 * 86400 < run_instant - 1704197400 \<and>
   1 * 86400 < run_instant - 1706670420 \<and> run_instant - 1706670420 \<le> 7 * 86400 \<and>
   sqlite_hh_mm (isoformat_utc 1706670420 0) = Some (''03'', ''07'') \<and>
   snapshots (run_maintenance run_instant False
                \<lparr> snapshots = boundary_rows, price_history = [] \<rparr>) = boundary_rows"
  by code_simp

lemma run_maintenance_ordinary_rows:
  "map r_timestamp ordinary_rows
     = [''2023-12-28T12:45:00+00:00'', ''2024-01-20T12:30:00+00:00'',
        ''2024-01-28T09:00:00+00:00'', ''2024-02-01T09:13:00+00:00'',
        ''2024-01-20T11:30:00+00:00'', ''2024-01-28T09:13:00+00:00''] \<and>
   map r_timestamp
     (snapshots (run_maintenance run_instant False
                   \<lparr> snapshots = ordinary_rows, price_history = [] \<rparr>))
     = [''2024-01-20T12:30:00+00:00'', ''2024-01-28T09:00:00+00:00'',
        ''2024-02-01T09:13:00+00:00''] \<and>
   run_maintenance run_instant True \<lparr> snapshots = ordinary_rows, price_history = ordinary_rows \<rparr>
     = \<lparr> snapshots = ordinary_rows, price_history = ordinary_rows \<rparr>"
  by code_simp

section \<open>Properties of the cluster document encoding\<close>

lemma startswith_marker: "startswith (COMPRESSION_MARKER @ s) COMPRESSION_MARKER"
  by (simp add: startswith_def)

lemma try_except_returns: "\<exists>v. try_except body h = Inr v"
  by (cases body) (simp_all add: try_except_def)

lemma decompress_json_tagged:
  "decompress_json L (Some (COMPRESSION_MARKER @ encoded))
   = try_except
       (bind_err (b64decode L encoded) (\<lambda>compressed.
        bind_err (zlib_decompress L compressed) (\<lambda>json_bytes.
        bind_err (utf8_decode L json_bytes) (\<lambda>s. json_loads L s))))
       (JObj [])"
  by (simp add: decompress_json_def startswith_marker Let_def)

text \<open>
  Claim C6. \<open>compress_json\<close> of a serializable document is the literal tag \<open>ZLIB:\<close> followed by
  the base64 text of the level-6 compression of the UTF-8 bytes of the compact JSON text,
  and \<open>decompress_json\<close> of that string is the document; \<open>decompress_json\<close> of an untagged
  string that \<open>json.loads\<close> accepts is the value that string encodes. The premises are the
  libraries' inverse laws at the values that arise: \<open>json.loads\<close> reads back what \<open>json.dumps\<close>
  wrote for the document, decoding UTF-8 undoes encoding, \<open>zlib.decompress\<close> undoes
  \<open>zlib.compress\<close>, and \<open>b64decode\<close> undoes \<open>b64encode\<close>.
\<close>

theorem compress_json_roundtrip:
  assumes "json_dumps L x = Inr s"
      and "json_loads L s = Inr x"
      and "utf8_decode L (utf8_encode L s) = Inr s"
      and "zlib_decompress L (zlib_compress L 6 (utf8_encode L s)) = Inr (utf8_encode L s)"
      and "b64decode L (b64encode L (zlib_compress L 6 (utf8_encode L s)))
             = Inr (zlib_compress L 6 (utf8_encode L s))"
  shows "compress_json L x
           = Inr (''ZLIB:'' @ b64encode L (zlib_compress L 6 (utf8_encode L s))) \<and>
         (\<forall>c. compress_json L x = Inr c \<longrightarrow> decompress_json L (Some c) = Inr x) \<and>
         (\<forall>t v. \<not> startswith t ''ZLIB:'' \<and> json_loads L t = Inr v \<longrightarrow>
                decompress_json L (Some t) = Inr v)"
proof -
  let ?c = "COMPRESSION_MARKER @ b64encode L (zlib_compress L 6 (utf8_encode L s))"
  have c: "compress_json L x = Inr ?c"
    using assms(1) by (simp add: compress_json_def bind_err_def Let_def)
  have d: "decompress_json L (Some ?c) = Inr x"
    unfolding decompress_json_tagged using assms(2-5)
    by (simp add: bind_err_def try_except_def)
  have u: "\<forall>t v. \<not> startswith t ''ZLIB:'' \<and> json_loads L t = Inr v \<longrightarrow>
                decompress_json L (Some t) = Inr v"
    by (simp add: decompress_json_def COMPRESSION_MARKER_def try_except_def)
  from c d u show ?thesis by (simp add: COMPRESSION_MARKER_def)
qed

lemmas json_defs = plain_json_loads_def plain_json_dumps_def read_string_def read_int_def
  plain_char_def is_digit_def digit_of_def digit_char_def nat_digits.simps Let_def

lemma example_document_text:
  "plain_json_dumps example_document = Inr example_text"
  "plain_json_loads example_text = Inr example_document"
  by (simp_all add: json_defs example_document_def example_text_def)

theorem compress_json_roundtrip_witness:
  "json_dumps plain_codecs example_document = Inr example_text \<and>
   json_loads plain_codecs example_text = Inr example_document \<and>
   compress_json plain_codecs example_document
     = Inr (''ZLIB:'' @ b64encode plain_codecs
              (zlib_compress plain_codecs 6 (utf8_encode plain_codecs example_text))) \<and>
   decompress_json plain_codecs
     (Some (''ZLIB:'' @ b64encode plain_codecs
              (zlib_compress plain_codecs 6 (utf8_encode plain_codecs example_text))))
     = Inr example_document \<and>
   \<not> startswith example_text ''ZLIB:'' \<and>
   decompress_json plain_codecs (Some example_text) = Inr example_document"
proof -
  have h1: "json_dumps plain_codecs example_document = Inr example_text"
    and h2: "json_loads plain_codecs example_text = Inr example_document"
    by (simp_all add: plain_codecs_def example_document_text)
  have h3: "utf8_decode plain_codecs (utf8_encode plain_codecs example_text) = Inr example_text"
    and h4: "zlib_decompress plain_codecs (zlib_compress plain_codecs 6 (utf8_encode plain_codecs example_text))
             = Inr (utf8_encode plain_codecs example_text)"
    and h5: "b64decode plain_codecs (b64encode plain_codecs
               (zlib_compress plain_codecs 6 (utf8_encode plain_codecs example_text)))
             = Inr (zlib_compress plain_codecs 6 (utf8_encode plain_codecs example_text))"
    by (simp_all add: plain_codecs_def)
  note t = compress_json_roundtrip [OF h1 h2 h3 h4 h5]
  have n: "\<not> startswith example_text ''ZLIB:''"
    by (simp add: startswith_def example_text_def)
  from t h1 h2 n show ?thesis by simp
qed


lemma plain_json_loads_list:
  "plain_json_loads ''[1, 2]'' = Inr (JArr [JNum 1, JNum 2])"
  by (simp add: json_defs)

lemma plain_json_loads_garbage:
  "plain_json_loads ''{not json'' = Inl JSONDecodeError"
  by (simp add: json_defs)

text \<open>
  Claim C10, as amended. For \<open>None\<close> or any string, and whatever the libraries do,
  \<open>decompress_json\<close> returns and never raises. It returns \<open>{}\<close> for \<open>None\<close>, for a tagged payload
  on which base64 decoding, decompression, UTF-8 decoding or JSON decoding fails, and for
  an untagged string that is not valid JSON. In every other case it returns the JSON
  value the payload decodes to, whatever its type.
\<close>

theorem decompress_json_never_raises:
  "(\<exists>v. decompress_json L data = Inr v) \<and>
   decompress_json L None = Inr (JObj []) \<and>
   (\<forall>encoded e.
      b64decode L encoded = Inl e \<or>
      (\<exists>c. b64decode L encoded = Inr c \<and> zlib_decompress L c = Inl e) \<or>
      (\<exists>c b. b64decode L encoded = Inr c \<and> zlib_decompress L c = Inr b \<and>
             utf8_decode L b = Inl e) \<or>
      (\<exists>c b s. b64decode L encoded = Inr c \<and> zlib_decompress L c = Inr b \<and>
               utf8_decode L b = Inr s \<and> json_loads L s = Inl e) \<longrightarrow>
      decompress_json L (Some (''ZLIB:'' @ encoded)) = Inr (JObj [])) \<and>
   (\<forall>d e. \<not> startswith d ''ZLIB:'' \<and> json_loads L d = Inl e \<longrightarrow>
      decompress_json L (Some d) = Inr (JObj [])) \<and>
   (\<forall>encoded c b s v.
      b64decode L encoded = Inr c \<and> zlib_decompress L c = Inr b \<and>
      utf8_decode L b = Inr s \<and> json_loads L s = Inr v \<longrightarrow>
      decompress_json L (Some (''ZLIB:'' @ encoded)) = Inr v) \<and>
   (\<forall>d v. \<not> startswith d ''ZLIB:'' \<and> json_loads L d = Inr v \<longrightarrow>
      decompress_json L (Some d) = Inr v)"
proof -
  have a: "\<exists>v. decompress_json L data = Inr v"
    by (cases data) (simp_all add: decompress_json_def try_except_returns)
  have b: "decompress_json L None = Inr (JObj [])"
    by (simp add: decompress_json_def)
  have t: "decompress_json L (Some (''ZLIB:'' @ encoded))
     = try_except
       (bind_err (b64decode L encoded) (\<lambda>compressed.
        bind_err (zlib_decompress L compressed) (\<lambda>json_bytes.
        bind_err (utf8_decode L json_bytes) (\<lambda>s. json_loads L s))))
       (JObj [])" for encoded
    using decompress_json_tagged [of L encoded] by (simp add: COMPRESSION_MARKER_def)
  have c: "\<forall>encoded e.
      b64decode L encoded = Inl e \<or>
      (\<exists>c. b64decode L encoded = Inr c \<and> zlib_decompress L c = Inl e) \<or>
      (\<exists>c b. b64decode L encoded = Inr c \<and> zlib_decompress L c = Inr b \<and>
             utf8_decode L b = Inl e) \<or>
      (\<exists>c b s. b64decode L encoded = Inr c \<and> zlib_decompress L c = Inr b \<and>
               utf8_decode L b = Inr s \<and> json_loads L s = Inl e) \<longrightarrow>
      decompress_json L (Some (''ZLIB:'' @ encoded)) = Inr (JObj [])"
    unfolding t by (auto simp: bind_err_def try_except_def)
  have d: "\<forall>d e. \<not> startswith d ''ZLIB:'' \<and> json_loads L d = Inl e \<longrightarrow>
      decompress_json L (Some d) = Inr (JObj [])"
    by (simp add: decompress_json_def COMPRESSION_MARKER_def try_except_def)
  have e: "\<forall>encoded c b s v.
      b64decode L encoded = Inr c \<and> zlib_decompress L c = Inr b \<and>
      utf8_decode L b = Inr s \<and> json_loads L s = Inr v \<longrightarrow>
      decompress_json L (Some (''ZLIB:'' @ encoded)) = Inr v"
    unfolding t by (auto simp: bind_err_def try_except_def)
  have f: "\<forall>d v. \<not> startswith d ''ZLIB:'' \<and> json_loads L d = Inr v \<longrightarrow>
      decompress_json L (Some d) = Inr v"
    by (simp add: decompress_json_def COMPRESSION_MARKER_def try_except_def)
  from a b c d e f show ?thesis by blast
qed

text \<open>
  Claim C10 as stated fails: the result is not always a dict. The untagged text \<open>[1, 2]\<close> is
  valid JSON and \<open>decompress_json\<close> returns the list it encodes.
\<close>

theorem decompress_json_returns_a_list:
  "decompress_json plain_codecs (Some ''[1, 2]'') = Inr (JArr [JNum 1, JNum 2]) \<and>
   \<not> is_dict (JArr [JNum 1, JNum 2])"
  by (simp add: decompress_json_def startswith_def COMPRESSION_MARKER_def try_except_def
      plain_codecs_def plain_json_loads_list is_dict_def)

theorem decompress_json_never_raises_witness:
  "decompress_json plain_codecs None = Inr (JObj []) \<and>
   json_loads plain_codecs ''{not json'' = Inl JSONDecodeError \<and>
   \<not> startswith ''{not json'' ''ZLIB:'' \<and>
   decompress_json plain_codecs (Some ''{not json'') = Inr (JObj []) \<and>
   b64decode plain_codecs ''{not json'' = Inr ''{not json'' \<and>
   zlib_decompress plain_codecs ''{not json'' = Inr ''{not json'' \<and>
   utf8_decode plain_codecs ''{not json'' = Inr ''{not json'' \<and>
   decompress_json plain_codecs (Some (''ZLIB:'' @ ''{not json'')) = Inr (JObj []) \<and>
   json_loads plain_codecs ''[1, 2]'' = Inr (JArr [JNum 1, JNum 2]) \<and>
   \<not> startswith ''[1, 2]'' ''ZLIB:'' \<and>
   decompress_json plain_codecs (Some ''[1, 2]'') = Inr (JArr [JNum 1, JNum 2]) \<and>
   decompress_json plain_codecs (Some (''ZLIB:'' @ ''[1, 2]'')) = Inr (JArr [JNum 1, JNum 2])"
proof -
  note t = decompress_json_never_raises [of plain_codecs None]
  have l1: "json_loads plain_codecs ''{not json'' = Inl JSONDecodeError"
    and l2: "json_loads plain_codecs ''[1, 2]'' = Inr (JArr [JNum 1, JNum 2])"
    by (simp_all add: plain_codecs_def plain_json_loads_garbage plain_json_loads_list)
  have n: "\<not> startswith ''{not json'' ''ZLIB:''" "\<not> startswith ''[1, 2]'' ''ZLIB:''"
    by (simp_all add: startswith_def)
  have i: "b64decode plain_codecs ''{not json'' = Inr ''{not json''"
    "zlib_decompress plain_codecs ''{not json'' = Inr ''{not json''"
    "utf8_decode plain_codecs ''{not json'' = Inr ''{not json''"
    "b64decode plain_codecs ''[1, 2]'' = Inr ''[1, 2]''"
    "zlib_decompress plain_codecs ''[1, 2]'' = Inr ''[1, 2]''"
    "utf8_decode plain_codecs ''[1, 2]'' = Inr ''[1, 2]''"
    by (simp_all add: plain_codecs_def)
  from t have r1: "decompress_json plain_codecs None = Inr (JObj [])" by blast
  from t l1 n have r2: "decompress_json plain_codecs (Some ''{not json'') = Inr (JObj [])" by blast
  from t l1 i have r3: "decompress_json plain_codecs (Some (''ZLIB:'' @ ''{not json'')) = Inr (JObj [])"
    by blast
  from t l2 n have r4: "decompress_json plain_codecs (Some ''[1, 2]'') = Inr (JArr [JNum 1, JNum 2])"
    by blast
  from t l2 i have r5: "decompress_json plain_codecs (Some (''ZLIB:'' @ ''[1, 2]'')) = Inr (JArr [JNum 1, JNum 2])"
    by blast
  from r1 r2 r3 r4 r5 l1 l2 n i show ?thesis by blast
qed

section \<open>When the aggregator and the scanner return\<close>

lemma price_to_bucket_returns:
  "bucket_percent a \<noteq> 0 \<Longrightarrow> \<exists>b. price_to_bucket a p r = Inr b"
  by (simp add: price_to_bucket_def Let_def)

lemma group_by_bucket_returns:
  "bucket_percent a \<noteq> 0 \<Longrightarrow> \<exists>bs. group_by_bucket a r ls bs0 = Inr bs"
proof (induction ls arbitrary: bs0)
  case Nil
  then show ?case by simp
next
  case (Cons l ls)
  from price_to_bucket_returns [OF Cons.prems, of "l_price l" r]
  obtain b where "price_to_bucket a (l_price l) r = Inr b" by blast
  with Cons show ?case by simp
qed

lemma group_by_bucket_keys:
  "group_by_bucket a r ls bs0 = Inr bs \<Longrightarrow> kv \<in> set bs \<Longrightarrow>
   fst kv \<in> fst ` set bs0 \<or> (\<exists>l \<in> set ls. price_to_bucket a (l_price l) r = Inr (fst kv))"
proof (induction ls arbitrary: bs0)
  case Nil
  then show ?case by auto
next
  case (Cons l ls)
  from Cons.prems(1) obtain b where b: "price_to_bucket a (l_price l) r = Inr b"
    and run: "group_by_bucket a r ls (bucket_append b l bs0) = Inr bs"
    by (auto split: sum.splits)
  from Cons.IH [OF run Cons.prems(2)] b show ?case
    by (auto simp: bucket_append_keys)
qed

lemma py_int_lower: "x < 0 \<Longrightarrow> x \<le> real_of_int (py_int x)"
proof -
  assume "x < 0"
  have "real_of_int \<lfloor>- x\<rfloor> \<le> - x" by (rule of_int_floor_le)
  then have "x \<le> - real_of_int \<lfloor>- x\<rfloor>" by linarith
  then show ?thesis using \<open>x < 0\<close> by (simp add: py_int_def)
qed

lemma py_int_nonneg: "0 \<le> x \<Longrightarrow> 0 \<le> py_int x"
  by (simp add: py_int_def)

lemma bucket_low_positive:
  assumes r: "0 < r" and bp: "0 < bucket_percent a" and p: "0 < p"
      and b: "price_to_bucket a p r = Inr b"
  shows "0 < 1 + real_of_int b * bucket_percent a / 100"
proof -
  let ?x = "(((p - r) / r) * 100) / bucket_percent a"
  from b r bp have bx: "b = py_int ?x" by (simp add: price_to_bucket_def Let_def)
  have "(p - r) / r = p / r - 1" using r by (simp add: diff_divide_distrib)
  moreover have "0 < p / r" using p r by simp
  ultimately have "- 1 < (p - r) / r" by simp
  then have "(- 1) * 100 < ((p - r) / r) * (100::real)"
    by (intro mult_strict_right_mono) simp_all
  then have "- 100 < ((p - r) / r) * 100" by simp
  from divide_strict_right_mono [OF this bp]
  have lo: "- 100 / bucket_percent a < ?x" .
  have "- 100 / bucket_percent a < real_of_int b"
  proof (cases "?x < 0")
    case True
    from py_int_lower [OF True] have "?x \<le> real_of_int b" unfolding bx .
    with lo show ?thesis by linarith
  next
    case False
    then have "0 \<le> py_int ?x" by (simp add: py_int_nonneg)
    then have "0 \<le> real_of_int b" unfolding bx by simp
    moreover have "- 100 / bucket_percent a < 0" using bp by simp
    ultimately show ?thesis by linarith
  qed
  from mult_strict_right_mono [OF this bp]
  have "- 100 < real_of_int b * bucket_percent a" using bp by simp
  then show ?thesis by linarith
qed

lemma bucket_cluster_positive:
  assumes r: "0 < r" and bp: "0 < bucket_percent a"
      and lo: "0 < 1 + real_of_int (fst kv) * bucket_percent a / 100"
      and tot: "\<not> bucket_total (snd kv) < 10000"
  shows "positive_cluster (bucket_cluster a r s kv)"
proof -
  have hi: "1 + real_of_int (fst kv) * bucket_percent a / 100
            < 1 + real_of_int (fst kv + 1) * bucket_percent a / 100"
    using bp by (simp add: algebra_simps)
  from lo r have l: "0 < r * (1 + real_of_int (fst kv) * bucket_percent a / 100)" by simp
  from lo hi have "0 < 1 + real_of_int (fst kv + 1) * bucket_percent a / 100" by linarith
  with r have h: "0 < r * (1 + real_of_int (fst kv + 1) * bucket_percent a / 100)" by simp
  from add_pos_pos [OF l h]
  have c: "0 < (r * (1 + real_of_int (fst kv) * bucket_percent a / 100)
                      + r * (1 + real_of_int (fst kv + 1) * bucket_percent a / 100)) / 2"
    by (rule half_gt_zero)
  from tot have t: "0 < bucket_total (snd kv)" by linarith
  from l h c t show ?thesis
    unfolding positive_cluster_def bucket_cluster_def bucket_to_price_range_def Let_def
    by simp
qed

lemma aggregate_to_clusters_returns:
  assumes bp: "0 < bucket_percent a" and r: "0 < r" and ps: "\<forall>l \<in> set ls. 0 < l_price l"
  shows "\<exists>cs. aggregate_to_clusters a ls r s = Inr cs"
proof (cases "ls = []")
  case True
  then show ?thesis by (simp add: aggregate_to_clusters_def)
next
  case False
  from bp have "bucket_percent a \<noteq> 0" by simp
  from group_by_bucket_returns [OF this, of r ls "[]"]
  obtain bs where g: "group_by_bucket a r ls [] = Inr bs" by blast
  have "\<forall>c \<in> set (buckets_to_clusters a r s bs). positive_cluster c"
  proof
    fix c assume "c \<in> set (buckets_to_clusters a r s bs)"
    then obtain kv where kv: "kv \<in> set bs" "\<not> bucket_total (snd kv) < 10000"
      and c: "c = bucket_cluster a r s kv"
      by (auto simp: buckets_to_clusters_def)
    from group_by_bucket_keys [OF g kv(1)] obtain l where
      "l \<in> set ls" "price_to_bucket a (l_price l) r = Inr (fst kv)" by auto
    with ps bucket_low_positive [OF r bp, of "l_price l" "fst kv"]
    have "0 < 1 + real_of_int (fst kv) * bucket_percent a / 100" by simp
    from bucket_cluster_positive [OF r bp this kv(2)] c show "positive_cluster c" by simp
  qed
  from merge_adjacent_clusters_returns [OF this, of a] g False show ?thesis
    by (simp add: aggregate_to_clusters_def)
qed

lemma aggregate_levels_returns:
  assumes "0 < bucket_percent a" and "\<forall>l \<in> set levels. 0 < l_price l"
  shows "\<exists>m. aggregate_levels a levels price coin = Inr m"
proof (cases "levels = [] \<or> price \<le> 0")
  case True
  then show ?thesis by (auto simp: aggregate_levels_def)
next
  case False
  then have r: "0 < price" by simp
  from assms(2) have l: "\<forall>l \<in> set (filter (\<lambda>l. l_side l = ''long'') levels). 0 < l_price l"
    and s: "\<forall>l \<in> set (filter (\<lambda>l. l_side l = ''short'') levels). 0 < l_price l"
    by simp_all
  from aggregate_to_clusters_returns [OF assms(1) r l, of "''long''"]
    aggregate_to_clusters_returns [OF assms(1) r s, of "''short''"] False
  show ?thesis by (auto simp: aggregate_levels_def Let_def)
qed

lemma default_aggregator_bucket_percent: "0 < bucket_percent default_aggregator"
  by (simp add: agg_defaults)

lemma process_positions_returns:
  "\<forall>p \<in> set ps. hashable (p_coin p) \<Longrightarrow> \<exists>st'. process_positions st ps = Inr st'"
proof (induction ps arbitrary: st)
  case Nil
  then show ?case by simp
next
  case (Cons p ps)
  from Cons.prems have "\<exists>st1. process_position st p = Inr st1"
    by (simp add: process_position_def)
  then obtain st1 where "process_position st p = Inr st1" by blast
  with Cons show ?case by (simp add: bind_err_simps)
qed

lemma scan_wallets_returns:
  assumes "\<forall>p \<in> set (scanned_positions str_float api wallets). hashable (p_coin p)"
  shows "\<exists>r. scan_wallets str_float api wallets = Inr r"
proof -
  let ?st0 = "\<lparr> all_positions = [], by_coin = [], levels_found = [], error_count = 0 \<rparr>"
  have c: "concat (batches API_REQUESTS_PER_SECOND (take MAX_WALLETS_TO_TRACK wallets))
        = take MAX_WALLETS_TO_TRACK wallets"
    by (rule concat_batches) (simp add: API_REQUESTS_PER_SECOND_def)
  from process_positions_returns [OF assms, of ?st0] obtain st where
    "process_positions ?st0 (scanned_positions str_float api wallets) = Inr st" by blast
  then have "process_batches str_float api ?st0
          (batches API_REQUESTS_PER_SECOND (take MAX_WALLETS_TO_TRACK wallets)) = Inr st"
    by (simp add: process_batches_concat c scanned_positions_def)
  then show ?thesis by (simp add: scan_wallets_def Let_def bind_err_simps)
qed

end
